theory Spec2Isabelle
  imports Complex_Main
begin

section \<open>Data model\<close>

text \<open>
  The kernels of \<^verbatim>\<open>fem/qinterp/grad.hpp\<close> work on raw \<^verbatim>\<open>double\<close> buffers that are
  viewed as tensors through \<^verbatim>\<open>Reshape\<close>. A buffer is a map from offsets to values;
  the arithmetic is that of the reals (exact arithmetic: rounding, infinities and NaN
  are not modelled, and a division by 0, which the source answers with an infinity or
  a NaN, has the value 0 of HOL's division). Dimensions and loop counters are \<^verbatim>\<open>int\<close> in the source and only
  ever non-negative; they are natural numbers here, and index arithmetic is assumed not
  to overflow. What the rounding of double precision adds is shown for the accumulation
  of the 1D kernel, in a section of its own.
\<close>

type_synonym buffer = "nat \<Rightarrow> real"

datatype QVectorLayout = byNODES | byVDIM

datatype error = OutOfBounds

text \<open>
  Modelled from the spec: \<^verbatim>\<open>Reshape\<close> and \<^verbatim>\<open>DeviceTensor\<close> of
  \<^verbatim>\<open>linalg/dtensor.hpp\<close> are not part of the sources at hand. A view with sizes
  \<open>n0, n1, ...\<close> addresses entry \<open>(i0, i1, ...)\<close> with the first index running fastest
  (the by-nodes layout is "quadrature-point-major, then vector-component, then
  spatial-derivative-direction, then element"). The last size is not used.
  \<open>idx2\<close>, ... give the offset of an entry, \<open>Reshape2\<close>, ... the read-only view.
\<close>

definition idx2 :: "nat \<Rightarrow> nat \<Rightarrow> nat \<Rightarrow> nat" where
  "idx2 n0 i0 i1 = i0 + n0 * i1"

text \<open>Modelled from the spec: the offset of an entry of a \<^verbatim>\<open>DeviceTensor<3>\<close>.\<close>

definition idx3 :: "nat \<Rightarrow> nat \<Rightarrow> nat \<Rightarrow> nat \<Rightarrow> nat \<Rightarrow> nat" where
  "idx3 n0 n1 i0 i1 i2 = i0 + n0 * (i1 + n1 * i2)"

text \<open>Modelled from the spec: the offset of an entry of a \<^verbatim>\<open>DeviceTensor<4>\<close>.\<close>

definition idx4 :: "nat \<Rightarrow> nat \<Rightarrow> nat \<Rightarrow> nat \<Rightarrow> nat \<Rightarrow> nat \<Rightarrow> nat \<Rightarrow> nat" where
  "idx4 n0 n1 n2 i0 i1 i2 i3 = i0 + n0 * (i1 + n1 * (i2 + n2 * i3))"

text \<open>Modelled from the spec: the offset of an entry of a \<^verbatim>\<open>DeviceTensor<5>\<close>.\<close>

definition idx5 ::
  "nat \<Rightarrow> nat \<Rightarrow> nat \<Rightarrow> nat \<Rightarrow> nat \<Rightarrow> nat \<Rightarrow> nat \<Rightarrow> nat \<Rightarrow> nat \<Rightarrow> nat" where
  "idx5 n0 n1 n2 n3 i0 i1 i2 i3 i4 = i0 + n0 * (i1 + n1 * (i2 + n2 * (i3 + n3 * i4)))"

text \<open>Modelled from the spec: the offset of an entry of a \<^verbatim>\<open>DeviceTensor<6>\<close>.\<close>

definition idx6 ::
  "nat \<Rightarrow> nat \<Rightarrow> nat \<Rightarrow> nat \<Rightarrow> nat \<Rightarrow> nat \<Rightarrow> nat \<Rightarrow> nat \<Rightarrow> nat \<Rightarrow> nat \<Rightarrow> nat \<Rightarrow> nat" where
  "idx6 n0 n1 n2 n3 n4 i0 i1 i2 i3 i4 i5 =
     i0 + n0 * (i1 + n1 * (i2 + n2 * (i3 + n3 * (i4 + n4 * i5))))"

text \<open>Modelled from the spec: \<^verbatim>\<open>Reshape\<close> with 2 sizes, the read-only view of a buffer.\<close>

definition Reshape2 :: "buffer \<Rightarrow> nat \<Rightarrow> nat \<Rightarrow> nat \<Rightarrow> nat \<Rightarrow> real" where
  "Reshape2 p n0 n1 = (\<lambda>i0 i1. p (idx2 n0 i0 i1))"

text \<open>Modelled from the spec: \<^verbatim>\<open>Reshape\<close> with 3 sizes, the read-only view of a buffer.\<close>

definition Reshape3 :: "buffer \<Rightarrow> nat \<Rightarrow> nat \<Rightarrow> nat \<Rightarrow> nat \<Rightarrow> nat \<Rightarrow> nat \<Rightarrow> real" where
  "Reshape3 p n0 n1 n2 = (\<lambda>i0 i1 i2. p (idx3 n0 n1 i0 i1 i2))"

text \<open>Modelled from the spec: \<^verbatim>\<open>Reshape\<close> with 4 sizes, the read-only view of a buffer.\<close>

definition Reshape4 ::
  "buffer \<Rightarrow> nat \<Rightarrow> nat \<Rightarrow> nat \<Rightarrow> nat \<Rightarrow> nat \<Rightarrow> nat \<Rightarrow> nat \<Rightarrow> nat \<Rightarrow> real" where
  "Reshape4 p n0 n1 n2 n3 = (\<lambda>i0 i1 i2 i3. p (idx4 n0 n1 n2 i0 i1 i2 i3))"

text \<open>Modelled from the spec: \<^verbatim>\<open>Reshape\<close> with 5 sizes, the read-only view of a buffer.\<close>

definition Reshape5 ::
  "buffer \<Rightarrow> nat \<Rightarrow> nat \<Rightarrow> nat \<Rightarrow> nat \<Rightarrow> nat \<Rightarrow> nat \<Rightarrow> nat \<Rightarrow> nat \<Rightarrow> nat \<Rightarrow> nat \<Rightarrow> real" where
  "Reshape5 p n0 n1 n2 n3 n4 = (\<lambda>i0 i1 i2 i3 i4. p (idx5 n0 n1 n2 n3 i0 i1 i2 i3 i4))"

text \<open>Modelled from the spec: \<^verbatim>\<open>Reshape\<close> with 6 sizes, the read-only view of a buffer.\<close>

definition Reshape6 ::
  "buffer \<Rightarrow> nat \<Rightarrow> nat \<Rightarrow> nat \<Rightarrow> nat \<Rightarrow> nat \<Rightarrow> nat \<Rightarrow>
   nat \<Rightarrow> nat \<Rightarrow> nat \<Rightarrow> nat \<Rightarrow> nat \<Rightarrow> nat \<Rightarrow> real" where
  "Reshape6 p n0 n1 n2 n3 n4 n5 =
     (\<lambda>i0 i1 i2 i3 i4 i5. p (idx6 n0 n1 n2 n3 n4 i0 i1 i2 i3 i4 i5))"

text \<open>
  A \<^verbatim>\<open>for (int i = 0; i < n; i++)\<close> loop is a fold over \<open>[0..<n]\<close>. Where the body can
  fail, the loop stops at the first failure.
\<close>

primrec for_err :: "nat list \<Rightarrow> (nat \<Rightarrow> 's \<Rightarrow> error + 's) \<Rightarrow> 's \<Rightarrow> error + 's" where
  "for_err [] body s = Inr s"
| "for_err (i # is) body s =
     (case body i s of Inl err \<Rightarrow> Inl err | Inr s' \<Rightarrow> for_err is body s')"

text \<open>
  The local array \<^verbatim>\<open>double du[3]\<close> is a list of three reals. Reading \<^verbatim>\<open>du[d]\<close> with
  a loop counter \<open>d\<close> that can reach the value of \<^verbatim>\<open>sdim\<close> is checked: beyond the array
  the behaviour of the source is undefined, the model fails.
\<close>

definition rd :: "real list \<Rightarrow> nat \<Rightarrow> error + real" where
  "rd a i = (if i < length a then Inr (a ! i) else Inl OutOfBounds)"

text \<open>The template parameters \<^verbatim>\<open>T_D1D ? T_D1D : d1d\<close>: zero selects the runtime value.\<close>

definition tsel :: "nat \<Rightarrow> nat \<Rightarrow> nat" where
  "tsel T r = (if T \<noteq> 0 then T else r)"

section \<open>Shared transform utilities\<close>

text \<open>
  Modelled from the spec: \<^verbatim>\<open>kernels::CalcInverse\<close> and \<^verbatim>\<open>kernels::CalcLeftInverse\<close>
  of \<^verbatim>\<open>linalg/kernels.hpp\<close> are not part of the sources at hand. The spec describes
  \<open>Inverse(n)\<close> as the "closed-form inverse of an n x n matrix via cofactor expansion"
  and \<open>LeftPseudoInverse(n_phys, n_ref)\<close> as the "closed-form least-squares left
  inverse via the normal-equations formula". Matrices are stored the way the
  kernels fill \<^verbatim>\<open>Jloc\<close>: entry \<open>(row, col)\<close> of a matrix with \<open>h\<close> rows is at
  \<open>row + h * col\<close>; the result uses the same storage, so the 2 x 3 left inverse of a
  3 x 2 matrix has its entry \<open>(row, col)\<close> at \<open>row + 2 * col\<close>. No check for a
  singular matrix is made.
\<close>

definition CalcInverse_2 :: "real list \<Rightarrow> real list" where
  "CalcInverse_2 d =
     (let t = 1 / (d ! 0 * d ! 3 - d ! 1 * d ! 2)
      in [d ! 3 * t, - (d ! 1) * t, - (d ! 2) * t, d ! 0 * t])"

text \<open>Modelled from the spec: \<^verbatim>\<open>kernels::CalcInverse<3>\<close>, the inverse of a 3 x 3 matrix by
  cofactors, stored column by column.\<close>

definition CalcInverse_3 :: "real list \<Rightarrow> real list" where
  "CalcInverse_3 d =
     (let det = d ! 0 * (d ! 4 * d ! 8 - d ! 5 * d ! 7)
              + d ! 3 * (d ! 2 * d ! 7 - d ! 1 * d ! 8)
              + d ! 6 * (d ! 1 * d ! 5 - d ! 2 * d ! 4);
          t = 1 / det
      in [(d ! 4 * d ! 8 - d ! 5 * d ! 7) * t,
          (d ! 2 * d ! 7 - d ! 1 * d ! 8) * t,
          (d ! 1 * d ! 5 - d ! 2 * d ! 4) * t,
          (d ! 5 * d ! 6 - d ! 3 * d ! 8) * t,
          (d ! 0 * d ! 8 - d ! 2 * d ! 6) * t,
          (d ! 2 * d ! 3 - d ! 0 * d ! 5) * t,
          (d ! 3 * d ! 7 - d ! 4 * d ! 6) * t,
          (d ! 1 * d ! 6 - d ! 0 * d ! 7) * t,
          (d ! 0 * d ! 4 - d ! 1 * d ! 3) * t])"

text \<open>Modelled from the spec: \<^verbatim>\<open>kernels::CalcLeftInverse<2,1>\<close>, the left inverse
  \<open>J\<^sup>T / (J\<^sup>T J)\<close> of a 2 x 1 matrix.\<close>

definition CalcLeftInverse_2_1 :: "real list \<Rightarrow> real list" where
  "CalcLeftInverse_2_1 d =
     (let t = 1 / (d ! 0 * d ! 0 + d ! 1 * d ! 1)
      in [d ! 0 * t, d ! 1 * t])"

text \<open>Modelled from the spec: \<^verbatim>\<open>kernels::CalcLeftInverse<3,1>\<close>, the left inverse
  \<open>J\<^sup>T / (J\<^sup>T J)\<close> of a 3 x 1 matrix.\<close>

definition CalcLeftInverse_3_1 :: "real list \<Rightarrow> real list" where
  "CalcLeftInverse_3_1 d =
     (let t = 1 / (d ! 0 * d ! 0 + d ! 1 * d ! 1 + d ! 2 * d ! 2)
      in [d ! 0 * t, d ! 1 * t, d ! 2 * t])"

text \<open>Modelled from the spec: \<^verbatim>\<open>kernels::CalcLeftInverse<3,2>\<close>, the left inverse
  \<open>(J\<^sup>T J)\<^sup>-\<^sup>1 J\<^sup>T\<close> of a 3 x 2 matrix by the normal equations: \<open>E\<close>, \<open>F\<close>, \<open>G\<close> are the
  entries of \<open>J\<^sup>T J\<close>; the 2 x 3 result is stored column by column.\<close>

definition CalcLeftInverse_3_2 :: "real list \<Rightarrow> real list" where
  "CalcLeftInverse_3_2 d =
     (let E = d ! 0 * d ! 0 + d ! 1 * d ! 1 + d ! 2 * d ! 2;
          G = d ! 3 * d ! 3 + d ! 4 * d ! 4 + d ! 5 * d ! 5;
          F = d ! 0 * d ! 3 + d ! 1 * d ! 4 + d ! 2 * d ! 5;
          t = 1 / (E * G - F * F)
      in [(d ! 0 * G - d ! 3 * F) * t, (d ! 3 * E - d ! 0 * F) * t,
          (d ! 1 * G - d ! 4 * F) * t, (d ! 4 * E - d ! 1 * F) * t,
          (d ! 2 * G - d ! 5 * F) * t, (d ! 5 * E - d ! 2 * F) * t])"

section \<open>Derivatives1D\<close>

text \<open>Lines 54-58: the accumulation of the reference derivative into \<^verbatim>\<open>du[0]\<close>.\<close>

definition du_ref1D ::
  "(nat \<Rightarrow> nat \<Rightarrow> real) \<Rightarrow> (nat \<Rightarrow> nat \<Rightarrow> nat \<Rightarrow> real) \<Rightarrow> nat \<Rightarrow> nat \<Rightarrow> nat \<Rightarrow> nat \<Rightarrow> real list" where
  "du_ref1D g x d1d q c e =
     fold (\<lambda>d du. du[0 := du ! 0 + g q d * x d c e]) [0..<d1d] [0, 0, 0]"

text \<open>Lines 61-83: the physical transform, by the value of \<^verbatim>\<open>sdim\<close>.\<close>

definition phys1D ::
  "(nat \<Rightarrow> nat \<Rightarrow> nat \<Rightarrow> real) \<Rightarrow> nat \<Rightarrow> nat \<Rightarrow> nat \<Rightarrow> real list \<Rightarrow> real list" where
  "phys1D j sdim q e du =
     (if sdim = 1 then du[0 := du ! 0 / j q 0 e]
      else if sdim = 2 then
        (let Jloc = [j q 0 e, j q 1 e];
             Jinv = CalcLeftInverse_2_1 Jloc;
             U = Jinv ! 0 * du ! 0;
             V = Jinv ! 1 * du ! 0
         in du[0 := U, 1 := V])
      else
        (let Jloc = [j q 0 e, j q 1 e, j q 2 e];
             Jinv = CalcLeftInverse_3_1 Jloc;
             U = Jinv ! 0 * du ! 0;
             V = Jinv ! 1 * du ! 0;
             W = Jinv ! 2 * du ! 0
         in du[0 := U, 1 := V, 2 := W]))"

text \<open>Lines 54-84: the local array \<^verbatim>\<open>du\<close> of one (element, component, point).\<close>

definition du1D ::
  "bool \<Rightarrow> (nat \<Rightarrow> nat \<Rightarrow> real) \<Rightarrow> (nat \<Rightarrow> nat \<Rightarrow> nat \<Rightarrow> real) \<Rightarrow> (nat \<Rightarrow> nat \<Rightarrow> nat \<Rightarrow> real) \<Rightarrow>
   nat \<Rightarrow> nat \<Rightarrow> nat \<Rightarrow> nat \<Rightarrow> nat \<Rightarrow> real list" where
  "du1D GRAD_PHYS g j x sdim d1d q c e =
     (let du = du_ref1D g x d1d q c e
      in if GRAD_PHYS then phys1D j sdim q e du else du)"

text \<open>Lines 44-46: the view of the output, by layout.\<close>

definition yidx1D :: "QVectorLayout \<Rightarrow> nat \<Rightarrow> nat \<Rightarrow> nat \<Rightarrow> nat \<Rightarrow> nat \<Rightarrow> nat \<Rightarrow> nat \<Rightarrow> nat" where
  "yidx1D Q_LAYOUT q1d vdim sdim q c d e =
     (case Q_LAYOUT of
        byNODES \<Rightarrow> idx4 q1d vdim sdim q c d e
      | byVDIM \<Rightarrow> idx4 vdim sdim q1d c d q e)"

text \<open>Lines 85-89: the store loop over the derivative directions.\<close>

definition store1D ::
  "QVectorLayout \<Rightarrow> nat \<Rightarrow> nat \<Rightarrow> nat \<Rightarrow> nat \<Rightarrow> nat \<Rightarrow> nat \<Rightarrow> real list \<Rightarrow> buffer \<Rightarrow> error + buffer" where
  "store1D Q_LAYOUT q1d vdim sdim q c e du y =
     for_err [0..<sdim]
       (\<lambda>d y. case rd du d of
                 Inl err \<Rightarrow> Inl err
               | Inr v \<Rightarrow> Inr (y(yidx1D Q_LAYOUT q1d vdim sdim q c d e := v))) y"

text \<open>
  The kernel. \<^verbatim>\<open>mfem::forall(NE, ...)\<close> runs its body for every element; the elements
  are taken in order here.
\<close>

definition Derivatives1D ::
  "QVectorLayout \<Rightarrow> bool \<Rightarrow> nat \<Rightarrow> buffer \<Rightarrow> buffer \<Rightarrow> buffer \<Rightarrow> buffer \<Rightarrow>
   nat \<Rightarrow> nat \<Rightarrow> nat \<Rightarrow> nat \<Rightarrow> error + buffer" where
  "Derivatives1D Q_LAYOUT GRAD_PHYS NE g_buf j_buf x_buf y_buf sdim vdim d1d q1d =
     (let g = Reshape2 g_buf q1d d1d;
          j = Reshape3 j_buf q1d sdim NE;
          x = Reshape3 x_buf d1d vdim NE
      in for_err [0..<NE] (\<lambda>e.
           for_err [0..<vdim] (\<lambda>c.
             for_err [0..<q1d] (\<lambda>q y.
               store1D Q_LAYOUT q1d vdim sdim q c e
                 (du1D GRAD_PHYS g j x sdim d1d q c e) y))) y_buf)"

section \<open>Shared tiles\<close>

text \<open>
  Modelled from the spec: \<^verbatim>\<open>kernels::internal::LoadBG\<close> and \<^verbatim>\<open>LoadX\<close> of
  \<^verbatim>\<open>fem/kernels.hpp\<close>, and the macros \<^verbatim>\<open>MFEM_SHARED\<close>, \<^verbatim>\<open>MFEM_FOREACH_THREAD\<close>,
  \<^verbatim>\<open>MFEM_SYNC_THREAD\<close> and \<^verbatim>\<open>MFEM_THREAD_ID\<close> are not part of the sources at hand.
  "Basis tables are loaded once into on-chip shared storage", and each component
  "loads nodal values into a shared tile": the tile \<open>B\<close>, viewed with sizes
  \<open>(D1D, Q1D)\<close>, receives \<open>B(d,q) = b(q,d)\<close>, likewise \<open>G\<close>, and the tile \<open>X\<close> receives
  the nodal values of component \<open>c\<close> of element \<open>e\<close>. The execution is the one of a
  single thread: a \<^verbatim>\<open>MFEM_FOREACH_THREAD\<close> loop is a \<^verbatim>\<open>for\<close> loop, the barrier does
  nothing, the thread index is 0. In the 2D kernel each tile is a buffer of its own,
  as large as needed: that the tiles fit the capacities \<^verbatim>\<open>MD1\<close>, \<^verbatim>\<open>MQ1\<close> is the caller's
  duty. A shared array is not initialised; its content when an element starts is a
  parameter of the kernels.
\<close>

definition LoadBG ::
  "nat \<Rightarrow> nat \<Rightarrow> (nat \<Rightarrow> nat \<Rightarrow> real) \<Rightarrow> (nat \<Rightarrow> nat \<Rightarrow> real) \<Rightarrow> buffer \<times> buffer \<Rightarrow> buffer \<times> buffer" where
  "LoadBG D1D Q1D b g BG =
     fold (\<lambda>d. fold (\<lambda>q (B, G).
        (B(idx2 D1D d q := b q d), G(idx2 D1D d q := g q d))) [0..<Q1D]) [0..<D1D] BG"

text \<open>Modelled from the spec: \<^verbatim>\<open>kernels::internal::LoadX\<close> in 2D, \<open>X(dx,dy) = x(dx,dy,c,e)\<close>.\<close>

definition LoadX2D ::
  "nat \<Rightarrow> nat \<Rightarrow> nat \<Rightarrow> (nat \<Rightarrow> nat \<Rightarrow> nat \<Rightarrow> nat \<Rightarrow> real) \<Rightarrow> buffer \<Rightarrow> buffer" where
  "LoadX2D e D1D c x XY =
     fold (\<lambda>dy. fold (\<lambda>dx X. X(idx2 D1D dx dy := x dx dy c e)) [0..<D1D]) [0..<D1D] XY"

section \<open>Derivatives2D\<close>

text \<open>The shared arrays \<^verbatim>\<open>BG[2]\<close>, \<^verbatim>\<open>XY\<close> and \<^verbatim>\<open>s_DQ[2]\<close> of one element.\<close>

record smem2D =
  BG0 :: buffer
  BG1 :: buffer
  XY :: buffer
  s_DQ0 :: buffer
  s_DQ1 :: buffer

text \<open>Lines 148-163: the contraction over \<open>dx\<close> into the tiles \<open>DQ0\<close> and \<open>DQ1\<close>.\<close>

definition stage1_2D ::
  "nat \<Rightarrow> nat \<Rightarrow> buffer \<Rightarrow> buffer \<Rightarrow> buffer \<Rightarrow> buffer \<times> buffer \<Rightarrow> buffer \<times> buffer" where
  "stage1_2D D1D Q1D B G X DQ =
     fold (\<lambda>dy. fold (\<lambda>qx (DQ0, DQ1).
        let (u, v) = fold (\<lambda>dx (u, v).
                       let input = X (idx2 D1D dx dy)
                       in (u + input * B (idx2 D1D dx qx), v + input * G (idx2 D1D dx qx)))
                     [0..<D1D] (0, 0)
        in (DQ0(idx2 D1D dy qx := u), DQ1(idx2 D1D dy qx := v))) [0..<Q1D]) [0..<D1D] DQ"

text \<open>Lines 169-174: the contraction over \<open>dy\<close> into the local array \<^verbatim>\<open>du\<close>.\<close>

definition du_ref2D ::
  "nat \<Rightarrow> buffer \<Rightarrow> buffer \<Rightarrow> buffer \<Rightarrow> buffer \<Rightarrow> nat \<Rightarrow> nat \<Rightarrow> real list" where
  "du_ref2D D1D B G DQ0 DQ1 qx qy =
     fold (\<lambda>dy du.
        let du = du[0 := du ! 0 + DQ1 (idx2 D1D dy qx) * B (idx2 D1D dy qy)]
        in du[1 := du ! 1 + DQ0 (idx2 D1D dy qx) * G (idx2 D1D dy qy)])
       [0..<D1D] [0, 0, 0]"

text \<open>Lines 177-206: the physical transform, by the value of \<^verbatim>\<open>SDIM\<close>.\<close>

definition phys2D ::
  "(nat \<Rightarrow> nat \<Rightarrow> nat \<Rightarrow> nat \<Rightarrow> nat \<Rightarrow> real) \<Rightarrow> nat \<Rightarrow> nat \<Rightarrow> nat \<Rightarrow> nat \<Rightarrow> real list \<Rightarrow> real list" where
  "phys2D j SDIM qx qy e du =
     (if SDIM = 2 then
        (let Jloc = [j qx qy 0 0 e, j qx qy 1 0 e, j qx qy 0 1 e, j qx qy 1 1 e];
             Jinv = CalcInverse_2 Jloc;
             U = Jinv ! 0 * du ! 0 + Jinv ! 1 * du ! 1;
             V = Jinv ! 2 * du ! 0 + Jinv ! 3 * du ! 1
         in du[0 := U, 1 := V])
      else
        (let Jloc = [j qx qy 0 0 e, j qx qy 1 0 e, j qx qy 2 0 e,
                     j qx qy 0 1 e, j qx qy 1 1 e, j qx qy 2 1 e];
             Jinv = CalcLeftInverse_3_2 Jloc;
             U = Jinv ! 0 * du ! 0 + Jinv ! 1 * du ! 1;
             V = Jinv ! 2 * du ! 0 + Jinv ! 3 * du ! 1;
             W = Jinv ! 4 * du ! 0 + Jinv ! 5 * du ! 1
         in du[0 := U, 1 := V, 2 := W]))"

text \<open>Lines 120-122: the view of the output, by layout.\<close>

definition yidx2D ::
  "QVectorLayout \<Rightarrow> nat \<Rightarrow> nat \<Rightarrow> nat \<Rightarrow> nat \<Rightarrow> nat \<Rightarrow> nat \<Rightarrow> nat \<Rightarrow> nat \<Rightarrow> nat" where
  "yidx2D Q_LAYOUT Q1D VDIM SDIM qx qy c d e =
     (case Q_LAYOUT of
        byNODES \<Rightarrow> idx5 Q1D Q1D VDIM SDIM qx qy c d e
      | byVDIM \<Rightarrow> idx5 VDIM SDIM Q1D Q1D c d qx qy e)"

text \<open>Lines 208-218: the store loop over the derivative directions.\<close>

definition store2D ::
  "QVectorLayout \<Rightarrow> nat \<Rightarrow> nat \<Rightarrow> nat \<Rightarrow> nat \<Rightarrow> nat \<Rightarrow> nat \<Rightarrow> nat \<Rightarrow> real list \<Rightarrow> buffer \<Rightarrow>
   error + buffer" where
  "store2D Q_LAYOUT Q1D VDIM SDIM qx qy c e du y =
     for_err [0..<SDIM]
       (\<lambda>d y. case rd du d of
                 Inl err \<Rightarrow> Inl err
               | Inr v \<Rightarrow> Inr (y(yidx2D Q_LAYOUT Q1D VDIM SDIM qx qy c d e := v))) y"

text \<open>Lines 165-220: the second pass, over the quadrature points of the element.\<close>

definition stage2_2D ::
  "QVectorLayout \<Rightarrow> bool \<Rightarrow> nat \<Rightarrow> nat \<Rightarrow> nat \<Rightarrow> nat \<Rightarrow>
   (nat \<Rightarrow> nat \<Rightarrow> nat \<Rightarrow> nat \<Rightarrow> nat \<Rightarrow> real) \<Rightarrow> buffer \<Rightarrow> buffer \<Rightarrow> buffer \<Rightarrow> buffer \<Rightarrow>
   nat \<Rightarrow> nat \<Rightarrow> buffer \<Rightarrow> error + buffer" where
  "stage2_2D Q_LAYOUT GRAD_PHYS D1D Q1D VDIM SDIM j B G DQ0 DQ1 c e y =
     for_err [0..<Q1D] (\<lambda>qy.
       for_err [0..<Q1D] (\<lambda>qx y.
         let du = du_ref2D D1D B G DQ0 DQ1 qx qy;
             du = (if GRAD_PHYS then phys2D j SDIM qx qy e du else du)
         in store2D Q_LAYOUT Q1D VDIM SDIM qx qy c e du y)) y"

text \<open>Lines 125-222: the body of the kernel for element \<open>e\<close>.\<close>

definition elem2D ::
  "QVectorLayout \<Rightarrow> bool \<Rightarrow> nat \<Rightarrow> nat \<Rightarrow> nat \<Rightarrow> nat \<Rightarrow>
   (nat \<Rightarrow> nat \<Rightarrow> real) \<Rightarrow> (nat \<Rightarrow> nat \<Rightarrow> real) \<Rightarrow> (nat \<Rightarrow> nat \<Rightarrow> nat \<Rightarrow> nat \<Rightarrow> nat \<Rightarrow> real) \<Rightarrow>
   (nat \<Rightarrow> nat \<Rightarrow> nat \<Rightarrow> nat \<Rightarrow> real) \<Rightarrow> smem2D \<Rightarrow> nat \<Rightarrow> buffer \<Rightarrow> error + buffer" where
  "elem2D Q_LAYOUT GRAD_PHYS D1D Q1D VDIM SDIM b g j x sm e y =
     (let (B, G) = LoadBG D1D Q1D b g (BG0 sm, BG1 sm)
      in case for_err [0..<VDIM] (\<lambda>c (X0, DQ, y).
                let X = LoadX2D e D1D c x X0;
                    (DQ0, DQ1) = stage1_2D D1D Q1D B G X DQ
                in case stage2_2D Q_LAYOUT GRAD_PHYS D1D Q1D VDIM SDIM j B G DQ0 DQ1 c e y of
                     Inl err \<Rightarrow> Inl err
                   | Inr y' \<Rightarrow> Inr (X, (DQ0, DQ1), y'))
              (XY sm, (s_DQ0 sm, s_DQ1 sm), y) of
           Inl err \<Rightarrow> Inl err
         | Inr (X, DQ, y') \<Rightarrow> Inr y')"

text \<open>
  Lines 124-223: \<^verbatim>\<open>mfem::forall_2D_batch\<close> runs its body for every element; the
  elements are taken in order here. \<open>sm e\<close> is the content of the shared arrays when
  element \<open>e\<close> starts.
\<close>

definition forall2D ::
  "QVectorLayout \<Rightarrow> bool \<Rightarrow> nat \<Rightarrow> nat \<Rightarrow> nat \<Rightarrow> nat \<Rightarrow>
   (nat \<Rightarrow> nat \<Rightarrow> real) \<Rightarrow> (nat \<Rightarrow> nat \<Rightarrow> real) \<Rightarrow> (nat \<Rightarrow> nat \<Rightarrow> nat \<Rightarrow> nat \<Rightarrow> nat \<Rightarrow> real) \<Rightarrow>
   (nat \<Rightarrow> nat \<Rightarrow> nat \<Rightarrow> nat \<Rightarrow> real) \<Rightarrow> (nat \<Rightarrow> smem2D) \<Rightarrow> nat \<Rightarrow> buffer \<Rightarrow> error + buffer" where
  "forall2D Q_LAYOUT GRAD_PHYS D1D Q1D VDIM SDIM b g j x sm NE y =
     for_err [0..<NE]
       (\<lambda>e y. elem2D Q_LAYOUT GRAD_PHYS D1D Q1D VDIM SDIM b g j x (sm e) e y) y"

text \<open>The kernel: lines 110-122 select the dimensions and set up the views.\<close>

definition Derivatives2D ::
  "QVectorLayout \<Rightarrow> bool \<Rightarrow> nat \<Rightarrow> nat \<Rightarrow> nat \<Rightarrow> (nat \<Rightarrow> smem2D) \<Rightarrow>
   nat \<Rightarrow> buffer \<Rightarrow> buffer \<Rightarrow> buffer \<Rightarrow> buffer \<Rightarrow> buffer \<Rightarrow>
   nat \<Rightarrow> nat \<Rightarrow> nat \<Rightarrow> nat \<Rightarrow> error + buffer" where
  "Derivatives2D Q_LAYOUT GRAD_PHYS T_VDIM T_D1D T_Q1D sm
     NE b_buf g_buf j_buf x_buf y_buf sdim vdim d1d q1d =
     (let D1D = tsel T_D1D d1d;
          Q1D = tsel T_Q1D q1d;
          VDIM = tsel T_VDIM vdim;
          SDIM = (if GRAD_PHYS then sdim else 2);
          b = Reshape2 b_buf Q1D D1D;
          g = Reshape2 g_buf Q1D D1D;
          j = Reshape5 j_buf Q1D Q1D SDIM 2 NE;
          x = Reshape4 x_buf D1D D1D VDIM NE
      in forall2D Q_LAYOUT GRAD_PHYS D1D Q1D VDIM SDIM b g j x sm NE y_buf)"

section \<open>Derivatives3D\<close>

text \<open>
  Lines 257-272: the shared arrays \<^verbatim>\<open>BG[2][MQ1*MD1]\<close>, \<^verbatim>\<open>sm0[3][MQ1*MQ1*MQ1]\<close> and
  \<^verbatim>\<open>sm1[3][MQ1*MQ1*MQ1]\<close> of one element. Each array is one buffer that holds its
  rows one after the other, and the tiles \<open>B\<close>, \<open>G\<close>, \<open>X\<close>, \<open>DDQ0\<close>, \<open>DDQ1\<close>, \<open>DQQ0\<close>,
  \<open>DQQ1\<close>, \<open>DQQ2\<close> are views of rows: entry \<open>i\<close> of the view of row \<open>r\<close> of an array with
  rows of \<open>n\<close> entries is at offset \<open>r * n + i\<close> of the array. A view with more entries
  than its row reaches into the next row, as the address arithmetic of the source
  does, so two tiles can share cells. An access past the last row of an array is
  undefined in the source; here the buffer goes on.
\<close>

record smem3D =
  BG_3D :: buffer
  sm0_3D :: buffer
  sm1_3D :: buffer

definition tile :: "nat \<Rightarrow> nat \<Rightarrow> nat \<Rightarrow> nat" where
  "tile n r i = r * n + i"

text \<open>
  Modelled from the spec: \<^verbatim>\<open>kernels::internal::LoadBG<MD1,MQ1>\<close> as the 3D kernel calls
  it (line 261), on the array \<^verbatim>\<open>BG\<close> with rows of \<open>MQ1 * MD1\<close> entries:
  \<open>B(d,q) = b(q,d)\<close> in row 0, then \<open>G(d,q) = g(q,d)\<close> in row 1.
\<close>

definition LoadBG3D ::
  "nat \<Rightarrow> nat \<Rightarrow> nat \<Rightarrow> nat \<Rightarrow> (nat \<Rightarrow> nat \<Rightarrow> real) \<Rightarrow> (nat \<Rightarrow> nat \<Rightarrow> real) \<Rightarrow> buffer \<Rightarrow> buffer" where
  "LoadBG3D MD1 MQ1 D1D Q1D b g BG =
     fold (\<lambda>d. fold (\<lambda>q BG.
        BG(tile (MQ1 * MD1) 0 (idx2 D1D d q) := b q d,
           tile (MQ1 * MD1) 1 (idx2 D1D d q) := g q d))
       [0..<Q1D]) [0..<D1D] BG"

text \<open>
  Modelled from the spec: \<^verbatim>\<open>kernels::internal::LoadX\<close> in 3D (line 276),
  \<open>X(dx,dy,dz) = x(dx,dy,dz,c,e)\<close>, where \<open>X\<close> is the view of row 2 of \<^verbatim>\<open>sm0\<close>, whose
  rows have \<open>cap = MQ1 * MQ1 * MQ1\<close> entries.
\<close>

definition LoadX3D ::
  "nat \<Rightarrow> nat \<Rightarrow> nat \<Rightarrow> (nat \<Rightarrow> nat \<Rightarrow> nat \<Rightarrow> nat \<Rightarrow> nat \<Rightarrow> real) \<Rightarrow> nat \<Rightarrow> buffer \<Rightarrow> buffer" where
  "LoadX3D e D1D c x cap s0 =
     fold (\<lambda>dz. fold (\<lambda>dy. fold (\<lambda>dx s0.
        s0(tile cap 2 (idx3 D1D D1D dx dy dz) := x dx dy dz c e)) [0..<D1D]) [0..<D1D]) [0..<D1D] s0"

text \<open>
  Lines 277-295: the contraction over \<open>dx\<close>. It reads \<open>X\<close> (row 2 of \<^verbatim>\<open>sm0\<close>), \<open>B\<close> and
  \<open>G\<close> (rows 0 and 1 of \<^verbatim>\<open>BG\<close>) and writes \<open>DDQ0\<close>, then \<open>DDQ1\<close> (rows 0 and 1 of
  \<^verbatim>\<open>sm0\<close>). The rows of \<^verbatim>\<open>BG\<close> have \<open>n = MQ1 * MD1\<close> entries, those of \<^verbatim>\<open>sm0\<close> and
  \<^verbatim>\<open>sm1\<close> have \<open>cap = MQ1 * MQ1 * MQ1\<close>.
\<close>

definition stage1_3D :: "nat \<Rightarrow> nat \<Rightarrow> nat \<Rightarrow> nat \<Rightarrow> buffer \<Rightarrow> buffer \<Rightarrow> buffer" where
  "stage1_3D n cap D1D Q1D BG s0 =
     fold (\<lambda>dz. fold (\<lambda>dy. fold (\<lambda>qx s0.
        let (u, v) = fold (\<lambda>dx (u, v).
                       let input = s0 (tile cap 2 (idx3 D1D D1D dx dy dz))
                       in (u + input * BG (tile n 0 (idx2 D1D dx qx)),
                           v + input * BG (tile n 1 (idx2 D1D dx qx))))
                     [0..<D1D] (0, 0)
        in s0(tile cap 0 (idx3 D1D D1D dz dy qx) := u,
              tile cap 1 (idx3 D1D D1D dz dy qx) := v))
       [0..<Q1D]) [0..<D1D]) [0..<D1D] s0"

text \<open>
  Lines 297-317: the contraction over \<open>dy\<close>. It reads \<open>DDQ0\<close>, \<open>DDQ1\<close>, \<open>B\<close>, \<open>G\<close> and
  writes \<open>DQQ0\<close>, \<open>DQQ1\<close>, \<open>DQQ2\<close> (rows 0, 1 and 2 of \<^verbatim>\<open>sm1\<close>), in this order.
\<close>

definition stage2_3D ::
  "nat \<Rightarrow> nat \<Rightarrow> nat \<Rightarrow> nat \<Rightarrow> buffer \<Rightarrow> buffer \<Rightarrow> buffer \<Rightarrow> buffer" where
  "stage2_3D n cap D1D Q1D BG s0 s1 =
     fold (\<lambda>dz. fold (\<lambda>qy. fold (\<lambda>qx s1.
        let (u, v, w) = fold (\<lambda>dy (u, v, w).
                          (u + s0 (tile cap 1 (idx3 D1D D1D dz dy qx)) * BG (tile n 0 (idx2 D1D dy qy)),
                           v + s0 (tile cap 0 (idx3 D1D D1D dz dy qx)) * BG (tile n 1 (idx2 D1D dy qy)),
                           w + s0 (tile cap 0 (idx3 D1D D1D dz dy qx)) * BG (tile n 0 (idx2 D1D dy qy))))
                        [0..<D1D] (0, 0, 0)
        in s1(tile cap 0 (idx3 D1D Q1D dz qy qx) := u,
              tile cap 1 (idx3 D1D Q1D dz qy qx) := v,
              tile cap 2 (idx3 D1D Q1D dz qy qx) := w))
       [0..<Q1D]) [0..<Q1D]) [0..<D1D] s1"

text \<open>Lines 325-333: the contraction over \<open>dz\<close> into \<open>u\<close>, \<open>v\<close>, \<open>w\<close>.\<close>

definition uvw_ref3D ::
  "nat \<Rightarrow> nat \<Rightarrow> nat \<Rightarrow> nat \<Rightarrow> buffer \<Rightarrow> buffer \<Rightarrow> nat \<Rightarrow> nat \<Rightarrow> nat \<Rightarrow> real \<times> real \<times> real" where
  "uvw_ref3D n cap D1D Q1D BG s1 qx qy qz =
     fold (\<lambda>dz (u, v, w).
        (u + s1 (tile cap 0 (idx3 D1D Q1D dz qy qx)) * BG (tile n 0 (idx2 D1D dz qz)),
         v + s1 (tile cap 1 (idx3 D1D Q1D dz qy qx)) * BG (tile n 0 (idx2 D1D dz qz)),
         w + s1 (tile cap 2 (idx3 D1D Q1D dz qy qx)) * BG (tile n 1 (idx2 D1D dz qz))))
       [0..<D1D] (0, 0, 0)"

text \<open>
  Lines 336-348: the physical transform. The two loops that fill \<^verbatim>\<open>Jloc[row+3*col]\<close>
  are written out.
\<close>

definition phys3D ::
  "(nat \<Rightarrow> nat \<Rightarrow> nat \<Rightarrow> nat \<Rightarrow> nat \<Rightarrow> nat \<Rightarrow> real) \<Rightarrow> nat \<Rightarrow> nat \<Rightarrow> nat \<Rightarrow> nat \<Rightarrow>
   real \<times> real \<times> real \<Rightarrow> real \<times> real \<times> real" where
  "phys3D j qx qy qz e uvw =
     (case uvw of (u, v, w) \<Rightarrow>
        let Jloc = [j qx qy qz 0 0 e, j qx qy qz 1 0 e, j qx qy qz 2 0 e,
                    j qx qy qz 0 1 e, j qx qy qz 1 1 e, j qx qy qz 2 1 e,
                    j qx qy qz 0 2 e, j qx qy qz 1 2 e, j qx qy qz 2 2 e];
            Jinv = CalcInverse_3 Jloc;
            U = Jinv ! 0 * u + Jinv ! 1 * v + Jinv ! 2 * w;
            V = Jinv ! 3 * u + Jinv ! 4 * v + Jinv ! 5 * w;
            W = Jinv ! 6 * u + Jinv ! 7 * v + Jinv ! 8 * w
        in (U, V, W))"

text \<open>Lines 248-250: the view of the output, by layout.\<close>

definition yidx3D ::
  "QVectorLayout \<Rightarrow> nat \<Rightarrow> nat \<Rightarrow> nat \<Rightarrow> nat \<Rightarrow> nat \<Rightarrow> nat \<Rightarrow> nat \<Rightarrow> nat \<Rightarrow> nat" where
  "yidx3D Q_LAYOUT Q1D VDIM qx qy qz c d e =
     (case Q_LAYOUT of
        byNODES \<Rightarrow> idx6 Q1D Q1D Q1D VDIM 3 qx qy qz c d e
      | byVDIM \<Rightarrow> idx6 VDIM 3 Q1D Q1D Q1D c d qx qy qz e)"

text \<open>Lines 319-364: the third pass, over the quadrature points of the element.\<close>

definition stage3_3D ::
  "QVectorLayout \<Rightarrow> bool \<Rightarrow> nat \<Rightarrow> nat \<Rightarrow> nat \<Rightarrow> nat \<Rightarrow> nat \<Rightarrow>
   (nat \<Rightarrow> nat \<Rightarrow> nat \<Rightarrow> nat \<Rightarrow> nat \<Rightarrow> nat \<Rightarrow> real) \<Rightarrow>
   buffer \<Rightarrow> buffer \<Rightarrow> nat \<Rightarrow> nat \<Rightarrow> buffer \<Rightarrow> buffer" where
  "stage3_3D Q_LAYOUT GRAD_PHYS n cap D1D Q1D VDIM j BG s1 c e y =
     fold (\<lambda>qz. fold (\<lambda>qy. fold (\<lambda>qx y.
        let uvw = uvw_ref3D n cap D1D Q1D BG s1 qx qy qz;
            (u, v, w) = (if GRAD_PHYS then phys3D j qx qy qz e uvw else uvw)
        in y(yidx3D Q_LAYOUT Q1D VDIM qx qy qz c 0 e := u,
             yidx3D Q_LAYOUT Q1D VDIM qx qy qz c 1 e := v,
             yidx3D Q_LAYOUT Q1D VDIM qx qy qz c 2 e := w))
       [0..<Q1D]) [0..<Q1D]) [0..<Q1D] y"

text \<open>
  Lines 253-366: the body of the kernel for element \<open>e\<close>. \<open>s0\<close> and \<open>s1\<close> are the
  arrays \<^verbatim>\<open>sm0\<close> and \<^verbatim>\<open>sm1\<close>, which every component overwrites in turn.
\<close>

definition elem3D ::
  "QVectorLayout \<Rightarrow> bool \<Rightarrow> nat \<Rightarrow> nat \<Rightarrow> nat \<Rightarrow> nat \<Rightarrow> nat \<Rightarrow>
   (nat \<Rightarrow> nat \<Rightarrow> real) \<Rightarrow> (nat \<Rightarrow> nat \<Rightarrow> real) \<Rightarrow>
   (nat \<Rightarrow> nat \<Rightarrow> nat \<Rightarrow> nat \<Rightarrow> nat \<Rightarrow> nat \<Rightarrow> real) \<Rightarrow>
   (nat \<Rightarrow> nat \<Rightarrow> nat \<Rightarrow> nat \<Rightarrow> nat \<Rightarrow> real) \<Rightarrow> smem3D \<Rightarrow> nat \<Rightarrow> buffer \<Rightarrow> buffer" where
  "elem3D Q_LAYOUT GRAD_PHYS MD1 MQ1 D1D Q1D VDIM b g j x sm e y =
     (let n = MQ1 * MD1;
          cap = MQ1 * MQ1 * MQ1;
          BG = LoadBG3D MD1 MQ1 D1D Q1D b g (BG_3D sm)
      in case fold (\<lambda>c (s0, s1, y).
                let s0 = LoadX3D e D1D c x cap s0;
                    s0 = stage1_3D n cap D1D Q1D BG s0;
                    s1 = stage2_3D n cap D1D Q1D BG s0 s1
                in (s0, s1, stage3_3D Q_LAYOUT GRAD_PHYS n cap D1D Q1D VDIM j BG s1 c e y))
              [0..<VDIM] (sm0_3D sm, sm1_3D sm, y) of
           (s0, s1, y') \<Rightarrow> y')"

text \<open>
  Lines 252-367: \<^verbatim>\<open>mfem::forall_3D\<close> runs its body for every element; the elements
  are taken in order here. \<open>sm e\<close> is the content of the shared arrays when element
  \<open>e\<close> starts.
\<close>

definition forall3D ::
  "QVectorLayout \<Rightarrow> bool \<Rightarrow> nat \<Rightarrow> nat \<Rightarrow> nat \<Rightarrow> nat \<Rightarrow> nat \<Rightarrow>
   (nat \<Rightarrow> nat \<Rightarrow> real) \<Rightarrow> (nat \<Rightarrow> nat \<Rightarrow> real) \<Rightarrow>
   (nat \<Rightarrow> nat \<Rightarrow> nat \<Rightarrow> nat \<Rightarrow> nat \<Rightarrow> nat \<Rightarrow> real) \<Rightarrow>
   (nat \<Rightarrow> nat \<Rightarrow> nat \<Rightarrow> nat \<Rightarrow> nat \<Rightarrow> real) \<Rightarrow> (nat \<Rightarrow> smem3D) \<Rightarrow> nat \<Rightarrow> buffer \<Rightarrow> buffer" where
  "forall3D Q_LAYOUT GRAD_PHYS MD1 MQ1 D1D Q1D VDIM b g j x sm NE y =
     fold (\<lambda>e y. elem3D Q_LAYOUT GRAD_PHYS MD1 MQ1 D1D Q1D VDIM b g j x (sm e) e y) [0..<NE] y"

text \<open>
  The kernel: lines 240-250 select the dimensions and set up the views, lines 257-258
  the capacities \<^verbatim>\<open>MQ1 = T_Q1D ? T_Q1D : MAX_Q1D\<close> and \<^verbatim>\<open>MD1 = T_D1D ? T_D1D : MAX_D1D\<close>
  of the shared arrays.
\<close>

definition Derivatives3D ::
  "QVectorLayout \<Rightarrow> bool \<Rightarrow> nat \<Rightarrow> nat \<Rightarrow> nat \<Rightarrow> nat \<Rightarrow> nat \<Rightarrow> (nat \<Rightarrow> smem3D) \<Rightarrow>
   nat \<Rightarrow> buffer \<Rightarrow> buffer \<Rightarrow> buffer \<Rightarrow> buffer \<Rightarrow> buffer \<Rightarrow> nat \<Rightarrow> nat \<Rightarrow> nat \<Rightarrow> buffer" where
  "Derivatives3D Q_LAYOUT GRAD_PHYS T_VDIM T_D1D T_Q1D MAX_D1D MAX_Q1D sm
     NE b_buf g_buf j_buf x_buf y_buf vdim d1d q1d =
     (let D1D = tsel T_D1D d1d;
          Q1D = tsel T_Q1D q1d;
          VDIM = tsel T_VDIM vdim;
          MQ1 = tsel T_Q1D MAX_Q1D;
          MD1 = tsel T_D1D MAX_D1D;
          b = Reshape2 b_buf Q1D D1D;
          g = Reshape2 g_buf Q1D D1D;
          j = Reshape6 j_buf Q1D Q1D Q1D 3 3 NE;
          x = Reshape5 x_buf D1D D1D D1D VDIM NE
      in forall3D Q_LAYOUT GRAD_PHYS MD1 MQ1 D1D Q1D VDIM b g j x sm NE y_buf)"

text \<open>
  Every tile fits the row it is a view of: \<open>B\<close> and \<open>G\<close> have \<open>D1D * Q1D\<close> entries, \<open>X\<close>
  has \<open>D1D * D1D * D1D\<close>, \<open>DDQ0\<close> and \<open>DDQ1\<close> have \<open>D1D * D1D * Q1D\<close>, and \<open>DQQ0\<close>, \<open>DQQ1\<close>,
  \<open>DQQ2\<close> have \<open>D1D * Q1D * Q1D\<close>. This is the invariant of the specification that the
  dimensions are at most "a compile-time or runtime maximum matching the allocated
  scratch tile size". Where it fails, the last row of a shared array is too short for
  its tile, and the source accesses the array past its end.
\<close>

definition tiles_fit :: "nat \<Rightarrow> nat \<Rightarrow> nat \<Rightarrow> nat \<Rightarrow> bool" where
  "tiles_fit MD1 MQ1 D1D Q1D \<longleftrightarrow>
     D1D * Q1D \<le> MQ1 * MD1 \<and>
     D1D * D1D * D1D \<le> MQ1 * MQ1 * MQ1 \<and>
     D1D * D1D * Q1D \<le> MQ1 * MQ1 * MQ1 \<and>
     D1D * Q1D * Q1D \<le> MQ1 * MQ1 * MQ1"

section \<open>Double-precision arithmetic\<close>

text \<open>
  The buffers of the source hold \<^verbatim>\<open>double\<close>, and the statement \<^verbatim>\<open>du[0] += g(q,d) * x(d,c,e)\<close>
  rounds the product and then the sum. The definitions above compute with real
  numbers; the ones of this section show what the rounding does to the accumulation of
  the 1D kernel. The value of an operation on doubles is its exact result rounded to
  the nearest number with a significand of 53 bits, a tie going to the neighbour whose
  significand is even (IEEE 754 binary64, round to nearest even). The range of the
  exponent is not modelled: there is no overflow and there are no subnormal numbers.
  \<open>round_even\<close> rounds to the nearest integer, a tie going to the even one;
  \<open>round_double x\<close> scales \<open>x\<close> by the power of two that brings its absolute value into
  the range from \<open>2\<^sup>5\<^sup>2\<close> to \<open>2\<^sup>5\<^sup>3\<close>, rounds it to an integer and scales it back.
\<close>

definition round_even :: "real \<Rightarrow> int" where
  "round_even r =
     (let f = \<lfloor>r\<rfloor>
      in if r - of_int f < 1 / 2 then f
         else if 1 / 2 < r - of_int f then f + 1
         else if even f then f else f + 1)"

definition round_double :: "real \<Rightarrow> real" where
  "round_double x =
     (if x = 0 then 0
      else let e = \<lfloor>log 2 \<bar>x\<bar>\<rfloor> - 52
           in of_int (round_even (x / 2 powr of_int e)) * 2 powr of_int e)"

text \<open>Lines 54-58 in double precision.\<close>

definition du_ref1D_double ::
  "(nat \<Rightarrow> nat \<Rightarrow> real) \<Rightarrow> (nat \<Rightarrow> nat \<Rightarrow> nat \<Rightarrow> real) \<Rightarrow> nat \<Rightarrow> nat \<Rightarrow> nat \<Rightarrow> nat \<Rightarrow> real list" where
  "du_ref1D_double g x d1d q c e =
     fold (\<lambda>d du. du[0 := round_double (du ! 0 + round_double (g q d * x d c e))])
       [0..<d1d] [0, 0, 0]"

text \<open>
  The kernel \<^verbatim>\<open>Derivatives1D<Q_LAYOUT, false>\<close> in double precision: with the physical
  transform off it does no other arithmetic than the accumulation.
\<close>

definition Derivatives1D_double ::
  "QVectorLayout \<Rightarrow> nat \<Rightarrow> buffer \<Rightarrow> buffer \<Rightarrow> buffer \<Rightarrow> buffer \<Rightarrow>
   nat \<Rightarrow> nat \<Rightarrow> nat \<Rightarrow> nat \<Rightarrow> error + buffer" where
  "Derivatives1D_double Q_LAYOUT NE g_buf j_buf x_buf y_buf sdim vdim d1d q1d =
     (let g = Reshape2 g_buf q1d d1d;
          x = Reshape3 x_buf d1d vdim NE
      in for_err [0..<NE] (\<lambda>e.
           for_err [0..<vdim] (\<lambda>c.
             for_err [0..<q1d] (\<lambda>q y.
               store1D Q_LAYOUT q1d vdim sdim q c e (du_ref1D_double g x d1d q c e) y))) y_buf)"

section \<open>Closed forms of the sum-factorised passes\<close>

text \<open>
  The values that the passes of the 2D and 3D kernels leave in the local variables of
  one quadrature point, written as nested sums over the views \<open>b\<close>, \<open>g\<close>, \<open>x\<close>. They
  serve to state what the kernels store; that the kernels compute them is proved below.
\<close>

definition grad_ref2D ::
  "(nat \<Rightarrow> nat \<Rightarrow> real) \<Rightarrow> (nat \<Rightarrow> nat \<Rightarrow> real) \<Rightarrow> (nat \<Rightarrow> nat \<Rightarrow> nat \<Rightarrow> nat \<Rightarrow> real) \<Rightarrow>
   nat \<Rightarrow> nat \<Rightarrow> nat \<Rightarrow> nat \<Rightarrow> nat \<Rightarrow> real list" where
  "grad_ref2D b g x D1D qx qy c e =
     [(\<Sum>dy<D1D. (\<Sum>dx<D1D. x dx dy c e * g qx dx) * b qy dy),
      (\<Sum>dy<D1D. (\<Sum>dx<D1D. x dx dy c e * b qx dx) * g qy dy),
      0]"

definition du2D ::
  "bool \<Rightarrow> (nat \<Rightarrow> nat \<Rightarrow> real) \<Rightarrow> (nat \<Rightarrow> nat \<Rightarrow> real) \<Rightarrow> (nat \<Rightarrow> nat \<Rightarrow> nat \<Rightarrow> nat \<Rightarrow> nat \<Rightarrow> real) \<Rightarrow>
   (nat \<Rightarrow> nat \<Rightarrow> nat \<Rightarrow> nat \<Rightarrow> real) \<Rightarrow> nat \<Rightarrow> nat \<Rightarrow> nat \<Rightarrow> nat \<Rightarrow> nat \<Rightarrow> nat \<Rightarrow> real list" where
  "du2D GRAD_PHYS b g j x D1D SDIM qx qy c e =
     (let du = grad_ref2D b g x D1D qx qy c e
      in if GRAD_PHYS then phys2D j SDIM qx qy e du else du)"

definition grad_ref3D ::
  "(nat \<Rightarrow> nat \<Rightarrow> real) \<Rightarrow> (nat \<Rightarrow> nat \<Rightarrow> real) \<Rightarrow> (nat \<Rightarrow> nat \<Rightarrow> nat \<Rightarrow> nat \<Rightarrow> nat \<Rightarrow> real) \<Rightarrow>
   nat \<Rightarrow> nat \<Rightarrow> nat \<Rightarrow> nat \<Rightarrow> nat \<Rightarrow> nat \<Rightarrow> real \<times> real \<times> real" where
  "grad_ref3D b g x D1D qx qy qz c e =
     ((\<Sum>dz<D1D. (\<Sum>dy<D1D. (\<Sum>dx<D1D. x dx dy dz c e * g qx dx) * b qy dy) * b qz dz),
      (\<Sum>dz<D1D. (\<Sum>dy<D1D. (\<Sum>dx<D1D. x dx dy dz c e * b qx dx) * g qy dy) * b qz dz),
      (\<Sum>dz<D1D. (\<Sum>dy<D1D. (\<Sum>dx<D1D. x dx dy dz c e * b qx dx) * b qy dy) * g qz dz))"

definition uvw3D ::
  "bool \<Rightarrow> (nat \<Rightarrow> nat \<Rightarrow> real) \<Rightarrow> (nat \<Rightarrow> nat \<Rightarrow> real) \<Rightarrow>
   (nat \<Rightarrow> nat \<Rightarrow> nat \<Rightarrow> nat \<Rightarrow> nat \<Rightarrow> nat \<Rightarrow> real) \<Rightarrow>
   (nat \<Rightarrow> nat \<Rightarrow> nat \<Rightarrow> nat \<Rightarrow> nat \<Rightarrow> real) \<Rightarrow> nat \<Rightarrow> nat \<Rightarrow> nat \<Rightarrow> nat \<Rightarrow> nat \<Rightarrow> nat \<Rightarrow>
   real \<times> real \<times> real" where
  "uvw3D GRAD_PHYS b g j x D1D qx qy qz c e =
     (let uvw = grad_ref3D b g x D1D qx qy qz c e
      in if GRAD_PHYS then phys3D j qx qy qz e uvw else uvw)"

text \<open>
  The 3D kernel as it runs: \<open>pass3D\<close> is what the first two passes of component \<open>c\<close> do
  to the arrays \<^verbatim>\<open>sm0\<close> and \<^verbatim>\<open>sm1\<close>, and \<open>val3D\<close> is the triple \<open>u\<close>, \<open>v\<close>, \<open>w\<close> that the
  third pass of component \<open>c\<close> of element \<open>e\<close> holds at a quadrature point when it
  stores it, in a run that starts the element with the shared arrays \<open>sm\<close>.
\<close>

definition pass3D ::
  "nat \<Rightarrow> nat \<Rightarrow> nat \<Rightarrow> nat \<Rightarrow> buffer \<Rightarrow> (nat \<Rightarrow> nat \<Rightarrow> nat \<Rightarrow> nat \<Rightarrow> nat \<Rightarrow> real) \<Rightarrow> nat \<Rightarrow> nat \<Rightarrow>
   buffer \<times> buffer \<Rightarrow> buffer \<times> buffer" where
  "pass3D n cap D1D Q1D BG x e c t =
     (case t of (s0, s1) \<Rightarrow>
        let s0 = LoadX3D e D1D c x cap s0;
            s0 = stage1_3D n cap D1D Q1D BG s0;
            s1 = stage2_3D n cap D1D Q1D BG s0 s1
        in (s0, s1))"

definition val3D ::
  "bool \<Rightarrow> nat \<Rightarrow> nat \<Rightarrow> nat \<Rightarrow> nat \<Rightarrow> (nat \<Rightarrow> nat \<Rightarrow> real) \<Rightarrow> (nat \<Rightarrow> nat \<Rightarrow> real) \<Rightarrow>
   (nat \<Rightarrow> nat \<Rightarrow> nat \<Rightarrow> nat \<Rightarrow> nat \<Rightarrow> nat \<Rightarrow> real) \<Rightarrow>
   (nat \<Rightarrow> nat \<Rightarrow> nat \<Rightarrow> nat \<Rightarrow> nat \<Rightarrow> real) \<Rightarrow> smem3D \<Rightarrow> nat \<Rightarrow> nat \<Rightarrow> nat \<Rightarrow> nat \<Rightarrow> nat \<Rightarrow>
   real \<times> real \<times> real" where
  "val3D GRAD_PHYS MD1 MQ1 D1D Q1D b g j x sm qx qy qz c e =
     (let n = MQ1 * MD1;
          cap = MQ1 * MQ1 * MQ1;
          BG = LoadBG3D MD1 MQ1 D1D Q1D b g (BG_3D sm);
          t = fold (pass3D n cap D1D Q1D BG x e) [0..<Suc c] (sm0_3D sm, sm1_3D sm);
          uvw = uvw_ref3D n cap D1D Q1D BG (snd t) qx qy qz
      in if GRAD_PHYS then phys3D j qx qy qz e uvw else uvw)"

text \<open>
  Two buffers hold the same values at the offsets of a set.
\<close>

definition eqon :: "nat set \<Rightarrow> buffer \<Rightarrow> buffer \<Rightarrow> bool" where
  "eqon W s t \<longleftrightarrow> (\<forall>a\<in>W. s a = t a)"

text \<open>The three derivative directions of a triple, as the stores of lines 350-361 use them.\<close>

definition comp3 :: "real \<times> real \<times> real \<Rightarrow> nat \<Rightarrow> real" where
  "comp3 uvw d = (case uvw of (u, v, w) \<Rightarrow> if d = 0 then u else if d = 1 then v else w)"

text \<open>
  A state transformer \<open>P\<close> on a buffer writes exactly the offsets in \<open>S\<close>, and the
  value it leaves at an offset \<open>a\<close> of \<open>S\<close> is \<open>v a\<close>, whatever the buffer held before.
\<close>

definition writes :: "(buffer \<Rightarrow> buffer) \<Rightarrow> nat set \<Rightarrow> buffer \<Rightarrow> bool" where
  "writes P S v \<longleftrightarrow> (\<forall>y a. P y a = (if a \<in> S then v a else y a))"

section \<open>Reading results, concrete buffers\<close>

text \<open>
  The value a kernel leaves at an offset of the output buffer, \<open>None\<close> when the kernel
  has failed.
\<close>

definition out_at :: "error + buffer \<Rightarrow> nat \<Rightarrow> real option" where
  "out_at r a = (case r of Inl err \<Rightarrow> None | Inr y \<Rightarrow> Some (y a))"

text \<open>A buffer that holds the given values, and zero beyond them.\<close>

definition buf_of :: "real list \<Rightarrow> buffer" where
  "buf_of xs = (\<lambda>a. if a < length xs then xs ! a else 0)"

text \<open>Shared arrays that all start with the content of one buffer.\<close>

definition smem2D_of :: "buffer \<Rightarrow> smem2D" where
  "smem2D_of t = \<lparr>BG0 = t, BG1 = t, XY = t, s_DQ0 = t, s_DQ1 = t\<rparr>"

definition smem3D_of :: "buffer \<Rightarrow> smem3D" where
  "smem3D_of t = \<lparr>BG_3D = t, sm0_3D = t, sm1_3D = t\<rparr>"

definition scratch2D :: "nat \<Rightarrow> smem2D" where
  "scratch2D = (\<lambda>e. smem2D_of (buf_of []))"

definition scratch3D :: "nat \<Rightarrow> smem3D" where
  "scratch3D = (\<lambda>e. smem3D_of (buf_of []))"

section \<open>The specification's side\<close>

text \<open>
  The direct, non-factorised evaluation of the gradient, in the words of the
  specification: in 2D \<open>du0(qx,qy)\<close> is the sum over \<open>dx, dy\<close> of
  \<open>G(dx,qx) * B(dy,qy) * X(dx,dy)\<close> and \<open>du1(qx,qy)\<close> the sum of
  \<open>B(dx,qx) * G(dy,qy) * X(dx,dy)\<close>; in 3D the analogous triple sums. \<open>B\<close>, \<open>G\<close>
  are indexed by (dof, quadrature point), \<open>X\<close> by the dofs of one component of one
  element.
\<close>

definition direct2D ::
  "(nat \<Rightarrow> nat \<Rightarrow> real) \<Rightarrow> (nat \<Rightarrow> nat \<Rightarrow> real) \<Rightarrow> (nat \<Rightarrow> nat \<Rightarrow> real) \<Rightarrow>
   nat \<Rightarrow> nat \<Rightarrow> nat \<Rightarrow> nat \<Rightarrow> real" where
  "direct2D B G X D1D qx qy d =
     (if d = 0 then (\<Sum>dx<D1D. \<Sum>dy<D1D. G dx qx * B dy qy * X dx dy)
      else (\<Sum>dx<D1D. \<Sum>dy<D1D. B dx qx * G dy qy * X dx dy))"

definition direct3D ::
  "(nat \<Rightarrow> nat \<Rightarrow> real) \<Rightarrow> (nat \<Rightarrow> nat \<Rightarrow> real) \<Rightarrow> (nat \<Rightarrow> nat \<Rightarrow> nat \<Rightarrow> real) \<Rightarrow>
   nat \<Rightarrow> nat \<Rightarrow> nat \<Rightarrow> nat \<Rightarrow> nat \<Rightarrow> real" where
  "direct3D B G X D1D qx qy qz d =
     (if d = 0 then (\<Sum>dx<D1D. \<Sum>dy<D1D. \<Sum>dz<D1D. G dx qx * B dy qy * B dz qz * X dx dy dz)
      else if d = 1 then (\<Sum>dx<D1D. \<Sum>dy<D1D. \<Sum>dz<D1D. B dx qx * G dy qy * B dz qz * X dx dy dz)
      else (\<Sum>dx<D1D. \<Sum>dy<D1D. \<Sum>dz<D1D. B dx qx * B dy qy * G dz qz * X dx dy dz))"

text \<open>
  Small matrices, indexed by (row, column), for the statement of the physical
  transform: product with inner dimension \<open>n\<close>, transpose, the determinant and the
  inverse of a 2 x 2 matrix, and the left pseudo-inverse \<open>(J\<^sup>T J)\<^sup>-\<^sup>1 J\<^sup>T\<close> of a 3 x 2
  matrix.
\<close>

type_synonym matrix = "nat \<Rightarrow> nat \<Rightarrow> real"

definition transpose_mat :: "matrix \<Rightarrow> matrix" where
  "transpose_mat M = (\<lambda>r c. M c r)"

definition mat_mul :: "nat \<Rightarrow> matrix \<Rightarrow> matrix \<Rightarrow> matrix" where
  "mat_mul n A B = (\<lambda>r c. \<Sum>k<n. A r k * B k c)"

definition mat_vec :: "nat \<Rightarrow> matrix \<Rightarrow> (nat \<Rightarrow> real) \<Rightarrow> nat \<Rightarrow> real" where
  "mat_vec n A v = (\<lambda>r. \<Sum>k<n. A r k * v k)"

definition det2 :: "matrix \<Rightarrow> real" where
  "det2 M = M 0 0 * M 1 1 - M 0 1 * M 1 0"

definition inverse2 :: "matrix \<Rightarrow> matrix" where
  "inverse2 M = (\<lambda>r c. (if r = c then M (1 - r) (1 - c) else - M r c) / det2 M)"

definition pinv32 :: "matrix \<Rightarrow> matrix" where
  "pinv32 J = mat_mul 2 (inverse2 (mat_mul 3 (transpose_mat J) J)) (transpose_mat J)"

text \<open>
  A concrete quadrature point for the physical transform: one element with one dof
  and one quadrature point per dimension, all tables and the nodal value equal to 1,
  so that both reference derivatives are 1, and the Jacobian \<open>((1, 1), (0, 1))\<close>,
  stored as \<open>[1, 0, 1, 1]\<close>.
\<close>

definition shear_J :: matrix where
  "shear_J = (\<lambda>r c. Reshape5 (buf_of [1, 0, 1, 1]) 1 1 2 2 1 0 0 r c 0)"

definition unit_du :: "nat \<Rightarrow> real" where
  "unit_du = direct2D (\<lambda>d q. Reshape2 (buf_of [1]) 1 1 q d) (\<lambda>d q. Reshape2 (buf_of [1]) 1 1 q d)
               (\<lambda>dx dy. Reshape4 (buf_of [1]) 1 1 1 1 dx dy 0 0) 1 0 0"

section \<open>Loops and buffers: general lemmas\<close>

text \<open>
  A loop whose body never fails is a fold; a loop over writes leaves at an offset the
  value of the one iteration that writes there (\<open>fold_hit\<close>) and leaves alone every offset
  that no iteration writes (\<open>fold_other\<close>).
\<close>

lemma for_err_pure:
  "(\<And>i s. i \<in> set is \<Longrightarrow> body i s = Inr (f i s)) \<Longrightarrow> for_err is body s = Inr (fold f is s)"
  by (induction "is" arbitrary: s) simp_all

lemma for_err_cong:
  "(\<And>i s. i \<in> set is \<Longrightarrow> f i s = g i s) \<Longrightarrow> for_err is f s = for_err is g s"
  by (induction "is" arbitrary: s) (simp_all split: sum.splits)

lemma fold_other:
  "(\<And>i s. i \<in> set is \<Longrightarrow> obs (P i s) = obs s) \<Longrightarrow> obs (fold P is s) = obs s"
  by (induction "is" arbitrary: s) simp_all

lemma fold_hit:
  assumes "distinct is" "i \<in> set is"
    and "\<And>s. obs (P i s) = v"
    and "\<And>k s. k \<in> set is \<Longrightarrow> k \<noteq> i \<Longrightarrow> obs (P k s) = obs s"
  shows "obs (fold P is s) = v"
  using assms
proof (induction "is" arbitrary: s)
  case Nil
  then show ?case by simp
next
  case (Cons k ks)
  show ?case
  proof (cases "k = i")
    case True
    then have "i \<notin> set ks" using Cons.prems(1) by simp
    then have "obs (fold P ks (P k s)) = obs (P k s)"
      using Cons.prems(4) by (intro fold_other) auto
    then show ?thesis using True Cons.prems(3) by simp
  next
    case False
    then have "i \<in> set ks" using Cons.prems(2) by simp
    then have "obs (fold P ks (P k s)) = v"
      using Cons.prems by (intro Cons.IH) auto
    then show ?thesis by simp
  qed
qed

text \<open>
  Offsets are mixed-radix numbers: with the low digit below its radix, two offsets are
  equal only if their digits are.
\<close>

lemma radix_eq:
  fixes i :: nat
  assumes "i < n" "i' < n"
  shows "(i + n * r = i' + n * r') = (i = i' \<and> r = r')"
proof
  assume eq: "i + n * r = i' + n * r'"
  have "(i + n * r) mod n = i" "(i' + n * r') mod n = i'" using assms by simp_all
  then have "i = i'" using eq by simp
  moreover have "(i + n * r) div n = r" "(i' + n * r') div n = r'" using assms by simp_all
  then have "r = r'" using eq by simp
  ultimately show "i = i' \<and> r = r'" by simp
qed simp

lemma radix_less:
  fixes i :: nat
  assumes "i < n" "r < m"
  shows "i + n * r < n * m"
proof -
  have "i + n * r < n + n * r" using assms by simp
  also have "\<dots> = n * Suc r" by simp
  also have "\<dots> \<le> n * m" using assms by (intro mult_le_mono2) simp
  finally show ?thesis .
qed

lemma nest4_other:
  assumes "\<And>e c q d. e < NE \<Longrightarrow> c < nc \<Longrightarrow> q < nq \<Longrightarrow> d < nd \<Longrightarrow> A e c q d \<noteq> a"
  shows "fold (\<lambda>e. fold (\<lambda>c. fold (\<lambda>q. fold (\<lambda>d (y::buffer). y(A e c q d := V e c q d))
           [0..<nd]) [0..<nq]) [0..<nc]) [0..<NE] y a = y a"
  apply (rule fold_other[where obs = "\<lambda>y. y a"])
  apply (rule fold_other[where obs = "\<lambda>y. y a"])
  apply (rule fold_other[where obs = "\<lambda>y. y a"])
  apply (rule fold_other[where obs = "\<lambda>y. y a"])
  apply (use assms in auto)
  done

lemma nest4_hit:
  assumes inj: "\<And>e' c' q' d'. e' < NE \<Longrightarrow> c' < nc \<Longrightarrow> q' < nq \<Longrightarrow> d' < nd \<Longrightarrow>
             (A e c q d = A e' c' q' d') = (e = e' \<and> c = c' \<and> q = q' \<and> d = d')"
    and "e < NE" "c < nc" "q < nq" "d < nd"
  shows "fold (\<lambda>e. fold (\<lambda>c. fold (\<lambda>q. fold (\<lambda>d (y::buffer). y(A e c q d := V e c q d))
           [0..<nd]) [0..<nq]) [0..<nc]) [0..<NE] y (A e c q d) = V e c q d"
proof (rule fold_hit[where obs = "\<lambda>y. y (A e c q d)" and i = e])
  fix s :: buffer
  show "fold (\<lambda>c. fold (\<lambda>q. fold (\<lambda>d y. y(A e c q d := V e c q d)) [0..<nd]) [0..<nq])
          [0..<nc] s (A e c q d) = V e c q d"
  proof (rule fold_hit[where obs = "\<lambda>y. y (A e c q d)" and i = c])
    fix s :: buffer
    show "fold (\<lambda>q. fold (\<lambda>d y. y(A e c q d := V e c q d)) [0..<nd]) [0..<nq] s (A e c q d)
           = V e c q d"
    proof (rule fold_hit[where obs = "\<lambda>y. y (A e c q d)" and i = q])
      fix s :: buffer
      show "fold (\<lambda>d y. y(A e c q d := V e c q d)) [0..<nd] s (A e c q d) = V e c q d"
      proof (rule fold_hit[where obs = "\<lambda>y. y (A e c q d)" and i = d])
        fix k and s :: buffer
        assume "k \<in> set [0..<nd]" "k \<noteq> d"
        then show "(s(A e c q k := V e c q k)) (A e c q d) = s (A e c q d)"
          using assms(2-) by (simp add: inj)
      qed (use assms in auto)
    next
      fix k and s :: buffer
      assume k: "k \<in> set [0..<nq]" "k \<noteq> q"
      show "fold (\<lambda>d y. y(A e c k d := V e c k d)) [0..<nd] s (A e c q d) = s (A e c q d)"
        apply (rule fold_other[where obs = "\<lambda>y. y (A e c q d)"])
        using assms(2-) k by (simp add: inj)
    qed (use assms in auto)
  next
    fix k and s :: buffer
    assume k: "k \<in> set [0..<nc]" "k \<noteq> c"
    show "fold (\<lambda>q. fold (\<lambda>d y. y(A e k q d := V e k q d)) [0..<nd]) [0..<nq] s (A e c q d)
            = s (A e c q d)"
      apply (rule fold_other[where obs = "\<lambda>y. y (A e c q d)"])
      apply (rule fold_other[where obs = "\<lambda>y. y (A e c q d)"])
      using assms(2-) k by (simp add: inj)
  qed (use assms in auto)
next
  fix k and s :: buffer
  assume k: "k \<in> set [0..<NE]" "k \<noteq> e"
  show "fold (\<lambda>c. fold (\<lambda>q. fold (\<lambda>d y. y(A k c q d := V k c q d)) [0..<nd]) [0..<nq])
          [0..<nc] s (A e c q d) = s (A e c q d)"
    apply (rule fold_other[where obs = "\<lambda>y. y (A e c q d)"])
    apply (rule fold_other[where obs = "\<lambda>y. y (A e c q d)"])
    apply (rule fold_other[where obs = "\<lambda>y. y (A e c q d)"])
    using assms(2-) k by (simp add: inj)
qed (use assms in auto)

text \<open>
  Nested loops of writes, for any depth: if each write stores what one function \<open>v\<close> of
  the offset says, so does the whole nest. Such a \<open>v\<close> exists when the offsets of the index
  tuples are pairwise different.
\<close>

lemma writes_fold:
  "(\<And>i. i \<in> set is \<Longrightarrow> writes (P i) (S i) v) \<Longrightarrow> writes (fold P is) (\<Union>i\<in>set is. S i) v"
proof (induction "is")
  case Nil
  then show ?case by (simp add: writes_def)
next
  case (Cons i "is")
  have 1: "writes (P i) (S i) v" and 2: "writes (fold P is) (\<Union>i\<in>set is. S i) v"
    using Cons by simp_all
  show ?case using 1 2 unfolding writes_def by auto
qed

lemma writes_upd: "v a = r \<Longrightarrow> writes (\<lambda>y. y(a := r)) {a} v"
  by (auto simp: writes_def)

lemma fold_sum2:
  "fold (\<lambda>i (u, v). (u + f i, v + h i)) [0..<n] (u0, v0) =
   (u0 + (\<Sum>i<n. f i), v0 + (\<Sum>i<n. h i :: real))"
  by (induction n) (simp_all add: add.assoc)

lemma fold_sum3:
  "fold (\<lambda>i (u, v, w). (u + f i, v + h i, w + k i)) [0..<n] (u0, v0, w0) =
   (u0 + (\<Sum>i<n. f i), v0 + (\<Sum>i<n. h i), w0 + (\<Sum>i<n. k i :: real))"
  by (induction n) (simp_all add: add.assoc)

lemma fold_pair:
  "fold (\<lambda>i (B, G). (F i B, H i G)) is (B, G) = (fold F is B, fold H is G)"
  by (induction "is" arbitrary: B G) simp_all

lemma fold_pair2:
  "fold (\<lambda>i. fold (\<lambda>k (B, G). (F i k B, H i k G)) ks) is (B, G) =
   (fold (\<lambda>i. fold (F i) ks) is B, fold (\<lambda>i. fold (H i) ks) is G)"
  by (induction "is" arbitrary: B G) (simp_all add: fold_pair)

lemma writes_in: "writes P S v \<Longrightarrow> a \<in> S \<Longrightarrow> P y a = v a"
  by (simp add: writes_def)

lemma ex_value_fun:
  assumes "inj_on A T"
  obtains v where "\<And>t. t \<in> T \<Longrightarrow> v (A t) = V t"
proof
  show "(\<lambda>a. V (the_inv_into T A a)) (A t) = V t" if "t \<in> T" for t
    using that assms by (simp add: the_inv_into_f_f)
qed

lemma tile2_hit:
  assumes inj: "inj_on (\<lambda>(i, k). A i k) ({..<n} \<times> {..<m})" and ik: "i < n" "k < m"
  shows "fold (\<lambda>i. fold (\<lambda>k (t::buffer). t(A i k := f i k)) [0..<m]) [0..<n] t (A i k) = f i k"
proof -
  obtain v :: buffer where "\<And>t. t \<in> {..<n} \<times> {..<m} \<Longrightarrow> v (case t of (i, k) \<Rightarrow> A i k) = (case t of (i, k) \<Rightarrow> f i k)"
    using ex_value_fun[OF inj] by blast
  then have v: "\<And>i k. i < n \<Longrightarrow> k < m \<Longrightarrow> v (A i k) = f i k" by force
  have "writes (fold (\<lambda>i. fold (\<lambda>k (t::buffer). t(A i k := f i k)) [0..<m]) [0..<n])
          (\<Union>i\<in>set [0..<n]. \<Union>k\<in>set [0..<m]. {A i k}) v"
    by (intro writes_fold writes_upd) (simp add: v)
  moreover have "A i k \<in> (\<Union>i\<in>set [0..<n]. \<Union>k\<in>set [0..<m]. {A i k})" using ik by fastforce
  ultimately show ?thesis using v[OF ik] by (simp add: writes_in)
qed

lemma inj_idx2: "inj_on (\<lambda>(i, k). idx2 n i k) ({..<n} \<times> {..<m})"
  by (auto simp: inj_on_def idx2_def radix_eq)

lemma inj_idx2_swap: "inj_on (\<lambda>(k, i). idx2 n i k) ({..<m} \<times> {..<n})"
  by (auto simp: inj_on_def idx2_def radix_eq)

lemma for_err_state:
  assumes "\<And>c s. c \<in> set cs \<Longrightarrow> \<exists>s'. body c s = Inr s' \<and> obs s' = W c (obs s)"
  shows "\<exists>s'. for_err cs body s = Inr s' \<and> obs s' = fold W cs (obs s)"
  using assms
proof (induction cs arbitrary: s)
  case Nil
  then show ?case by simp
next
  case (Cons c cs)
  obtain s1 where 1: "body c s = Inr s1" "obs s1 = W c (obs s)" using Cons.prems[of c s] by auto
  obtain s2 where "for_err cs body s1 = Inr s2" "obs s2 = fold W cs (obs s1)"
    using Cons.IH[of s1] Cons.prems by auto
  then show ?case using 1 by simp
qed

lemma fold_cong_state:
  "(\<And>i s. i \<in> set is \<Longrightarrow> f i s = g i s) \<Longrightarrow> fold f is a = fold g is a"
  by (induction "is" arbitrary: a) simp_all

lemma ex_value_fun':
  assumes "inj_on A T"
  shows "\<exists>v. \<forall>t\<in>T. v (A t) = V t"
  using assms by (intro exI[of _ "\<lambda>a. V (the_inv_into T A a)"]) (simp add: the_inv_into_f_f)

lemma nest5_fun:
  assumes inj: "inj_on (\<lambda>(e, c, q2, q1, d). A e c q2 q1 d)
                  ({..<NE} \<times> {..<nc} \<times> {..<n2} \<times> {..<n1} \<times> {..<nd})"
  shows "\<exists>v :: buffer. \<forall>e<NE. \<forall>c<nc. \<forall>q2<n2. \<forall>q1<n1. \<forall>d<nd.
       v (A e c q2 q1 d) = V e c q2 q1 d"
proof -
  from ex_value_fun'[OF inj, where V = "\<lambda>(e, c, q2, q1, d). V e c q2 q1 d"]
  obtain v :: buffer where h: "\<forall>t\<in>{..<NE} \<times> {..<nc} \<times> {..<n2} \<times> {..<n1} \<times> {..<nd}.
      v ((\<lambda>(e, c, q2, q1, d). A e c q2 q1 d) t) = (\<lambda>(e, c, q2, q1, d). V e c q2 q1 d) t" ..
  have "v (A e c q2 q1 d) = V e c q2 q1 d"
    if "e < NE" "c < nc" "q2 < n2" "q1 < n1" "d < nd" for e c q2 q1 d
    using bspec[OF h, of "(e, c, q2, q1, d)"] that by simp
  then show ?thesis by (intro exI[of _ v]) simp
qed

lemma nest5_writes:
  assumes v: "\<And>e c q2 q1 d. e < NE \<Longrightarrow> c < nc \<Longrightarrow> q2 < n2 \<Longrightarrow> q1 < n1 \<Longrightarrow> d < nd \<Longrightarrow>
       v (A e c q2 q1 d) = V e c q2 q1 d"
  shows "writes (fold (\<lambda>e. fold (\<lambda>c. fold (\<lambda>q2. fold (\<lambda>q1. fold (\<lambda>d y.
        y(A e c q2 q1 d := V e c q2 q1 d)) [0..<nd]) [0..<n1]) [0..<n2]) [0..<nc]) [0..<NE])
      (\<Union>e\<in>set [0..<NE]. \<Union>c\<in>set [0..<nc]. \<Union>q2\<in>set [0..<n2]. \<Union>q1\<in>set [0..<n1].
         \<Union>d\<in>set [0..<nd]. {A e c q2 q1 d}) v"
    by (intro writes_fold writes_upd) (simp add: v)

lemma nest5_hit:
  assumes inj: "inj_on (\<lambda>(e, c, q2, q1, d). A e c q2 q1 d)
                  ({..<NE} \<times> {..<nc} \<times> {..<n2} \<times> {..<n1} \<times> {..<nd})"
    and b: "e < NE" "c < nc" "q2 < n2" "q1 < n1" "d < nd"
  shows "fold (\<lambda>e. fold (\<lambda>c. fold (\<lambda>q2. fold (\<lambda>q1. fold (\<lambda>d (y::buffer).
        y(A e c q2 q1 d := V e c q2 q1 d)) [0..<nd]) [0..<n1]) [0..<n2]) [0..<nc]) [0..<NE] y
      (A e c q2 q1 d) = V e c q2 q1 d"
proof -
  from nest5_fun[OF inj, where V = V]
  obtain v :: buffer where "\<forall>e<NE. \<forall>c<nc. \<forall>q2<n2. \<forall>q1<n1. \<forall>d<nd.
       v (A e c q2 q1 d) = V e c q2 q1 d" ..
  then have v: "\<And>e c q2 q1 d. e < NE \<Longrightarrow> c < nc \<Longrightarrow> q2 < n2 \<Longrightarrow> q1 < n1 \<Longrightarrow> d < nd \<Longrightarrow>
       v (A e c q2 q1 d) = V e c q2 q1 d" by simp
  have "A e c q2 q1 d \<in> (\<Union>e\<in>set [0..<NE]. \<Union>c\<in>set [0..<nc]. \<Union>q2\<in>set [0..<n2].
          \<Union>q1\<in>set [0..<n1]. \<Union>d\<in>set [0..<nd]. {A e c q2 q1 d})"
    using b by (intro UN_I[of e] UN_I[of c] UN_I[of q2] UN_I[of q1] UN_I[of d]) simp_all
  then show ?thesis using writes_in[OF nest5_writes[of NE nc n2 n1 nd v A V]] v b by simp
qed

lemma nest5_other:
  assumes a: "\<And>e c q2 q1 d. e < NE \<Longrightarrow> c < nc \<Longrightarrow> q2 < n2 \<Longrightarrow> q1 < n1 \<Longrightarrow> d < nd \<Longrightarrow>
              a \<noteq> A e c q2 q1 d"
  shows "fold (\<lambda>e. fold (\<lambda>c. fold (\<lambda>q2. fold (\<lambda>q1. fold (\<lambda>d (y::buffer).
        y(A e c q2 q1 d := V e c q2 q1 d)) [0..<nd]) [0..<n1]) [0..<n2]) [0..<nc]) [0..<NE] y a = y a"
  apply (rule fold_other[where obs = "\<lambda>y. y a"])
  apply (rule fold_other[where obs = "\<lambda>y. y a"])
  apply (rule fold_other[where obs = "\<lambda>y. y a"])
  apply (rule fold_other[where obs = "\<lambda>y. y a"])
  apply (rule fold_other[where obs = "\<lambda>y. y a"])
  apply (use a in auto)
  done

lemma nest6_fun:
  assumes inj: "inj_on (\<lambda>(e, c, q3, q2, q1, d). A e c q3 q2 q1 d)
                  ({..<NE} \<times> {..<nc} \<times> {..<n3} \<times> {..<n2} \<times> {..<n1} \<times> {..<nd})"
  shows "\<exists>v :: buffer. \<forall>e<NE. \<forall>c<nc. \<forall>q3<n3. \<forall>q2<n2. \<forall>q1<n1. \<forall>d<nd.
       v (A e c q3 q2 q1 d) = V e c q3 q2 q1 d"
proof -
  from ex_value_fun'[OF inj, where V = "\<lambda>(e, c, q3, q2, q1, d). V e c q3 q2 q1 d"]
  obtain v :: buffer where
    h: "\<forall>t\<in>{..<NE} \<times> {..<nc} \<times> {..<n3} \<times> {..<n2} \<times> {..<n1} \<times> {..<nd}.
      v ((\<lambda>(e, c, q3, q2, q1, d). A e c q3 q2 q1 d) t) = (\<lambda>(e, c, q3, q2, q1, d). V e c q3 q2 q1 d) t" ..
  have "v (A e c q3 q2 q1 d) = V e c q3 q2 q1 d"
    if "e < NE" "c < nc" "q3 < n3" "q2 < n2" "q1 < n1" "d < nd" for e c q3 q2 q1 d
    using bspec[OF h, of "(e, c, q3, q2, q1, d)"] that by simp
  then show ?thesis by (intro exI[of _ v]) simp
qed

lemma nest6_writes:
  assumes v: "\<And>e c q3 q2 q1 d. e < NE \<Longrightarrow> c < nc \<Longrightarrow> q3 < n3 \<Longrightarrow> q2 < n2 \<Longrightarrow> q1 < n1 \<Longrightarrow> d < nd \<Longrightarrow>
       v (A e c q3 q2 q1 d) = V e c q3 q2 q1 d"
  shows "writes (fold (\<lambda>e. fold (\<lambda>c. fold (\<lambda>q3. fold (\<lambda>q2. fold (\<lambda>q1. fold (\<lambda>d y.
        y(A e c q3 q2 q1 d := V e c q3 q2 q1 d)) [0..<nd]) [0..<n1]) [0..<n2]) [0..<n3]) [0..<nc]) [0..<NE])
      (\<Union>e\<in>set [0..<NE]. \<Union>c\<in>set [0..<nc]. \<Union>q3\<in>set [0..<n3]. \<Union>q2\<in>set [0..<n2].
         \<Union>q1\<in>set [0..<n1]. \<Union>d\<in>set [0..<nd]. {A e c q3 q2 q1 d}) v"
    by (intro writes_fold writes_upd) (simp add: v)

lemma nest6_hit:
  assumes inj: "inj_on (\<lambda>(e, c, q3, q2, q1, d). A e c q3 q2 q1 d)
                  ({..<NE} \<times> {..<nc} \<times> {..<n3} \<times> {..<n2} \<times> {..<n1} \<times> {..<nd})"
    and b: "e < NE" "c < nc" "q3 < n3" "q2 < n2" "q1 < n1" "d < nd"
  shows "fold (\<lambda>e. fold (\<lambda>c. fold (\<lambda>q3. fold (\<lambda>q2. fold (\<lambda>q1. fold (\<lambda>d (y::buffer).
        y(A e c q3 q2 q1 d := V e c q3 q2 q1 d)) [0..<nd]) [0..<n1]) [0..<n2]) [0..<n3]) [0..<nc]) [0..<NE] y
      (A e c q3 q2 q1 d) = V e c q3 q2 q1 d"
proof -
  from nest6_fun[OF inj, where V = V]
  obtain v :: buffer where "\<forall>e<NE. \<forall>c<nc. \<forall>q3<n3. \<forall>q2<n2. \<forall>q1<n1. \<forall>d<nd.
       v (A e c q3 q2 q1 d) = V e c q3 q2 q1 d" ..
  then have v: "\<And>e c q3 q2 q1 d. e < NE \<Longrightarrow> c < nc \<Longrightarrow> q3 < n3 \<Longrightarrow> q2 < n2 \<Longrightarrow> q1 < n1 \<Longrightarrow> d < nd \<Longrightarrow>
       v (A e c q3 q2 q1 d) = V e c q3 q2 q1 d" by simp
  have "A e c q3 q2 q1 d \<in> (\<Union>e\<in>set [0..<NE]. \<Union>c\<in>set [0..<nc]. \<Union>q3\<in>set [0..<n3].
          \<Union>q2\<in>set [0..<n2]. \<Union>q1\<in>set [0..<n1]. \<Union>d\<in>set [0..<nd]. {A e c q3 q2 q1 d})"
    using b by (intro UN_I[of e] UN_I[of c] UN_I[of q3] UN_I[of q2] UN_I[of q1] UN_I[of d]) simp_all
  then show ?thesis using writes_in[OF nest6_writes[of NE nc n3 n2 n1 nd v A V]] v b by simp
qed

lemma nest6_other:
  assumes a: "\<And>e c q3 q2 q1 d. e < NE \<Longrightarrow> c < nc \<Longrightarrow> q3 < n3 \<Longrightarrow> q2 < n2 \<Longrightarrow> q1 < n1 \<Longrightarrow> d < nd \<Longrightarrow>
              a \<noteq> A e c q3 q2 q1 d"
  shows "fold (\<lambda>e. fold (\<lambda>c. fold (\<lambda>q3. fold (\<lambda>q2. fold (\<lambda>q1. fold (\<lambda>d (y::buffer).
        y(A e c q3 q2 q1 d := V e c q3 q2 q1 d)) [0..<nd]) [0..<n1]) [0..<n2]) [0..<n3]) [0..<nc]) [0..<NE] y a
      = y a"
  apply (rule fold_other[where obs = "\<lambda>y. y a"])
  apply (rule fold_other[where obs = "\<lambda>y. y a"])
  apply (rule fold_other[where obs = "\<lambda>y. y a"])
  apply (rule fold_other[where obs = "\<lambda>y. y a"])
  apply (rule fold_other[where obs = "\<lambda>y. y a"])
  apply (rule fold_other[where obs = "\<lambda>y. y a"])
  apply (use a in auto)
  done

section \<open>Offsets\<close>

text \<open>
  Every offset below the product of the sizes is the offset of exactly one index tuple
  within the sizes.
\<close>

lemma radix_split:
  fixes a :: nat
  assumes "a < n * m"
  obtains i r where "i < n" "r < m" "a = i + n * r"
proof -
  have n: "0 < n" using assms by (cases n) simp_all
  have "a mod n < n" using n by simp
  moreover have "a div n < m" using assms n by (simp add: less_mult_imp_div_less mult.commute)
  moreover have "a = a mod n + n * (a div n)" by simp
  ultimately show ?thesis using that by blast
qed

lemma idx4_less:
  assumes "i0 < n0" "i1 < n1" "i2 < n2" "i3 < n3"
  shows "idx4 n0 n1 n2 i0 i1 i2 i3 < n0 * n1 * n2 * n3"
  using radix_less[OF assms(1) radix_less[OF assms(2) radix_less[OF assms(3,4)]]]
  by (simp add: idx4_def mult.assoc)

lemma idx4_onto:
  assumes "a < n0 * n1 * n2 * n3"
  obtains i0 i1 i2 i3 where "i0 < n0" "i1 < n1" "i2 < n2" "i3 < n3"
    "a = idx4 n0 n1 n2 i0 i1 i2 i3"
proof -
  from assms have "a < n0 * (n1 * (n2 * n3))" by (simp add: mult.assoc)
  then obtain i0 r0 where 0: "i0 < n0" "r0 < n1 * (n2 * n3)" "a = i0 + n0 * r0"
    by (rule radix_split)
  from 0(2) obtain i1 r1 where 1: "i1 < n1" "r1 < n2 * n3" "r0 = i1 + n1 * r1"
    by (rule radix_split)
  from 1(2) obtain i2 i3 where 2: "i2 < n2" "i3 < n3" "r1 = i2 + n2 * i3"
    by (rule radix_split)
  show ?thesis using that[OF 0(1) 1(1) 2(1,2)] 0(3) 1(3) 2(3) by (simp add: idx4_def)
qed

lemma idx5_less:
  assumes "i0 < n0" "i1 < n1" "i2 < n2" "i3 < n3" "i4 < n4"
  shows "idx5 n0 n1 n2 n3 i0 i1 i2 i3 i4 < n0 * n1 * n2 * n3 * n4"
  using radix_less[OF assms(1) radix_less[OF assms(2) radix_less[OF assms(3) radix_less[OF assms(4,5)]]]]
  by (simp add: idx5_def mult.assoc)

lemma idx5_onto:
  assumes "a < n0 * n1 * n2 * n3 * n4"
  obtains i0 i1 i2 i3 i4 where "i0 < n0" "i1 < n1" "i2 < n2" "i3 < n3" "i4 < n4"
    "a = idx5 n0 n1 n2 n3 i0 i1 i2 i3 i4"
proof -
  from assms have "a < n0 * (n1 * (n2 * (n3 * n4)))" by (simp add: mult.assoc)
  then obtain i0 r0 where 0: "i0 < n0" "r0 < n1 * (n2 * (n3 * n4))" "a = i0 + n0 * r0"
    by (rule radix_split)
  from 0(2) obtain i1 r1 where 1: "i1 < n1" "r1 < n2 * (n3 * n4)" "r0 = i1 + n1 * r1"
    by (rule radix_split)
  from 1(2) obtain i2 r2 where 2: "i2 < n2" "r2 < n3 * n4" "r1 = i2 + n2 * r2"
    by (rule radix_split)
  from 2(2) obtain i3 i4 where 3: "i3 < n3" "i4 < n4" "r2 = i3 + n3 * i4"
    by (rule radix_split)
  show ?thesis using that[OF 0(1) 1(1) 2(1) 3(1,2)] 0(3) 1(3) 2(3) 3(3) by (simp add: idx5_def)
qed

lemma idx6_less:
  assumes "i0 < n0" "i1 < n1" "i2 < n2" "i3 < n3" "i4 < n4" "i5 < n5"
  shows "idx6 n0 n1 n2 n3 n4 i0 i1 i2 i3 i4 i5 < n0 * n1 * n2 * n3 * n4 * n5"
  using radix_less[OF assms(1) radix_less[OF assms(2) radix_less[OF assms(3)
          radix_less[OF assms(4) radix_less[OF assms(5,6)]]]]]
  by (simp add: idx6_def mult.assoc)

lemma idx6_onto:
  assumes "a < n0 * n1 * n2 * n3 * n4 * n5"
  obtains i0 i1 i2 i3 i4 i5 where "i0 < n0" "i1 < n1" "i2 < n2" "i3 < n3" "i4 < n4" "i5 < n5"
    "a = idx6 n0 n1 n2 n3 n4 i0 i1 i2 i3 i4 i5"
proof -
  from assms have "a < n0 * (n1 * (n2 * (n3 * (n4 * n5))))" by (simp add: mult.assoc)
  then obtain i0 r0 where 0: "i0 < n0" "r0 < n1 * (n2 * (n3 * (n4 * n5)))" "a = i0 + n0 * r0"
    by (rule radix_split)
  from 0(2) obtain i1 r1 where 1: "i1 < n1" "r1 < n2 * (n3 * (n4 * n5))" "r0 = i1 + n1 * r1"
    by (rule radix_split)
  from 1(2) obtain i2 r2 where 2: "i2 < n2" "r2 < n3 * (n4 * n5)" "r1 = i2 + n2 * r2"
    by (rule radix_split)
  from 2(2) obtain i3 r3 where 3: "i3 < n3" "r3 < n4 * n5" "r2 = i3 + n3 * r3"
    by (rule radix_split)
  from 3(2) obtain i4 i5 where 4: "i4 < n4" "i5 < n5" "r3 = i4 + n4 * i5"
    by (rule radix_split)
  show ?thesis using that[OF 0(1) 1(1) 2(1) 3(1) 4(1,2)] 0(3) 1(3) 2(3) 3(3) 4(3)
    by (simp add: idx6_def)
qed

lemma idx6_eq_iff:
  assumes "i0 < n0" "i1 < n1" "i2 < n2" "i3 < n3" "i4 < n4"
    "k0 < n0" "k1 < n1" "k2 < n2" "k3 < n3" "k4 < n4"
  shows "(idx6 n0 n1 n2 n3 n4 i0 i1 i2 i3 i4 i5 = idx6 n0 n1 n2 n3 n4 k0 k1 k2 k3 k4 k5) =
         (i0 = k0 \<and> i1 = k1 \<and> i2 = k2 \<and> i3 = k3 \<and> i4 = k4 \<and> i5 = k5)"
  using assms by (simp add: idx6_def radix_eq)

section \<open>What Derivatives1D stores\<close>

text \<open>
  If \<open>sdim \<le> 3\<close> no read of \<^verbatim>\<open>du\<close> fails, and the kernel is a nest of four loops of writes
  (\<open>Derivatives1D_pure\<close>); the value at the offset of \<open>(q, c, d, e)\<close> is entry \<open>d\<close> of the
  array \<^verbatim>\<open>du\<close> of \<open>(e, c, q)\<close>, every offset beyond the declared size is left alone.
\<close>

lemma fold_du0:
  "length du = 3 \<Longrightarrow>
   fold (\<lambda>d du. du[0 := du ! 0 + f d]) [0..<n] du = du[0 := du ! 0 + (\<Sum>d<n. f d)]"
  by (induction n) (simp_all add: add.assoc)

lemma du_ref1D_eq:
  "du_ref1D g x d1d q c e = [(\<Sum>d<d1d. g q d * x d c e), 0, 0]"
  by (simp add: du_ref1D_def fold_du0)

lemma length_phys1D: "length (phys1D j sdim q e du) = length du"
  by (simp add: phys1D_def Let_def)

lemma length_du1D: "length (du1D P g j x sdim d1d q c e) = 3"
  by (simp add: du1D_def Let_def length_phys1D du_ref1D_eq)

lemma store1D_pure:
  assumes "sdim \<le> length du"
  shows "store1D L q1d vdim sdim q c e du y =
         Inr (fold (\<lambda>d y. y(yidx1D L q1d vdim sdim q c d e := du ! d)) [0..<sdim] y)"
  unfolding store1D_def using assms by (intro for_err_pure) (simp add: rd_def)

lemma Derivatives1D_pure:
  assumes "sdim \<le> 3"
  shows "Derivatives1D L P NE g_buf j_buf x_buf y_buf sdim vdim d1d q1d =
     Inr (fold (\<lambda>e. fold (\<lambda>c. fold (\<lambda>q. fold (\<lambda>d y.
        y(yidx1D L q1d vdim sdim q c d e :=
            du1D P (Reshape2 g_buf q1d d1d) (Reshape3 j_buf q1d sdim NE)
              (Reshape3 x_buf d1d vdim NE) sdim d1d q c e ! d))
        [0..<sdim]) [0..<q1d]) [0..<vdim]) [0..<NE] y_buf)"
  unfolding Derivatives1D_def Let_def
  by (intro for_err_pure) (simp add: store1D_pure length_du1D assms)

lemma yidx1D_inj:
  assumes "q < q1d" "c < vdim" "d < sdim" "q' < q1d" "c' < vdim" "d' < sdim"
  shows "(yidx1D L q1d vdim sdim q c d e = yidx1D L q1d vdim sdim q' c' d' e') =
         (q = q' \<and> c = c' \<and> d = d' \<and> e = e')"
  using assms by (cases L) (auto simp: yidx1D_def idx4_def radix_eq)

lemma yidx1D_less:
  assumes "q < q1d" "c < vdim" "d < sdim" "e < NE"
  shows "yidx1D L q1d vdim sdim q c d e < q1d * vdim * sdim * NE"
proof (cases L)
  case byNODES
  then show ?thesis using idx4_less[OF assms] by (simp add: yidx1D_def)
next
  case byVDIM
  then show ?thesis using idx4_less[OF assms(2,3,1,4)] by (simp add: yidx1D_def mult.commute mult.left_commute)
qed

lemma yidx1D_onto:
  assumes "a < q1d * vdim * sdim * NE"
  obtains q c d e where "q < q1d" "c < vdim" "d < sdim" "e < NE" "a = yidx1D L q1d vdim sdim q c d e"
proof (cases L)
  case byNODES
  from assms obtain q c d e where "q < q1d" "c < vdim" "d < sdim" "e < NE" "a = idx4 q1d vdim sdim q c d e"
    by (rule idx4_onto)
  then show ?thesis using that byNODES by (simp add: yidx1D_def)
next
  case byVDIM
  from assms have "a < vdim * sdim * q1d * NE" by (simp add: mult.commute mult.left_commute)
  then obtain c d q e where "c < vdim" "d < sdim" "q < q1d" "e < NE" "a = idx4 vdim sdim q1d c d q e"
    by (rule idx4_onto)
  then show ?thesis using that byVDIM by (simp add: yidx1D_def)
qed

lemma Derivatives1D_at:
  assumes "sdim \<le> 3" "e < NE" "c < vdim" "q < q1d" "d < sdim"
  shows "\<exists>y. Derivatives1D L P NE g_buf j_buf x_buf y_buf sdim vdim d1d q1d = Inr y \<and>
     y (yidx1D L q1d vdim sdim q c d e) =
       du1D P (Reshape2 g_buf q1d d1d) (Reshape3 j_buf q1d sdim NE)
              (Reshape3 x_buf d1d vdim NE) sdim d1d q c e ! d"
proof -
  let ?V = "\<lambda>e c q d. du1D P (Reshape2 g_buf q1d d1d) (Reshape3 j_buf q1d sdim NE)
              (Reshape3 x_buf d1d vdim NE) sdim d1d q c e ! d"
  have "fold (\<lambda>e. fold (\<lambda>c. fold (\<lambda>q. fold (\<lambda>d y.
          y(yidx1D L q1d vdim sdim q c d e := ?V e c q d))
          [0..<sdim]) [0..<q1d]) [0..<vdim]) [0..<NE] y_buf (yidx1D L q1d vdim sdim q c d e)
        = ?V e c q d"
    using assms(2-)
    by (intro nest4_hit[where A = "\<lambda>e c q d. yidx1D L q1d vdim sdim q c d e" and V = ?V])
       (auto simp: yidx1D_inj)
  then show ?thesis unfolding Derivatives1D_pure[OF assms(1)] by simp
qed

lemma Derivatives1D_frame:
  assumes "sdim \<le> 3" "q1d * vdim * sdim * NE \<le> a"
  shows "\<exists>y. Derivatives1D L P NE g_buf j_buf x_buf y_buf sdim vdim d1d q1d = Inr y \<and>
     y a = y_buf a"
proof -
  have "yidx1D L q1d vdim sdim q c d e \<noteq> a" if "e < NE" "c < vdim" "q < q1d" "d < sdim" for e c q d
    using yidx1D_less[OF that(3,2,4,1), of L] assms(2) by simp
  then show ?thesis
    unfolding Derivatives1D_pure[OF assms(1)]
    by (simp add: nest4_other[where A = "\<lambda>e c q d. yidx1D L q1d vdim sdim q c d e" and a = a])
qed

section \<open>What Derivatives2D stores\<close>

text \<open>
  What the tiles hold after loading and after the first pass, at the entries the next
  pass reads; then the kernel as a nest of five loops of writes (\<open>forall2D_pure\<close>), whose
  values do not depend on what the shared arrays held.
\<close>

lemma LoadBG_B:
  assumes "d < D1D" "q < Q1D"
  shows "fst (LoadBG D1D Q1D b g BG) (idx2 D1D d q) = b q d"
    and "snd (LoadBG D1D Q1D b g BG) (idx2 D1D d q) = g q d"
  using assms by (cases BG; simp add: LoadBG_def fold_pair2 tile2_hit[OF inj_idx2])+

lemma LoadX2D_X:
  assumes "dx < D1D" "dy < D1D"
  shows "LoadX2D e D1D c x X0 (idx2 D1D dx dy) = x dx dy c e"
  unfolding LoadX2D_def
  using assms
  by (simp add: tile2_hit[where A = "\<lambda>dy dx. idx2 D1D dx dy" and f = "\<lambda>dy dx. x dx dy c e", OF inj_idx2_swap])

lemma stage1_2D_eq:
  "stage1_2D D1D Q1D B G X (DQ0, DQ1) =
    (fold (\<lambda>dy. fold (\<lambda>qx t. t(idx2 D1D dy qx :=
        (\<Sum>dx<D1D. X (idx2 D1D dx dy) * B (idx2 D1D dx qx)))) [0..<Q1D]) [0..<D1D] DQ0,
     fold (\<lambda>dy. fold (\<lambda>qx t. t(idx2 D1D dy qx :=
        (\<Sum>dx<D1D. X (idx2 D1D dx dy) * G (idx2 D1D dx qx)))) [0..<Q1D]) [0..<D1D] DQ1)"
  by (simp add: stage1_2D_def Let_def fold_sum2 fold_pair2)

lemma stage1_2D_DQ:
  assumes "dy < D1D" "qx < Q1D"
  shows "fst (stage1_2D D1D Q1D B G X DQ) (idx2 D1D dy qx) =
           (\<Sum>dx<D1D. X (idx2 D1D dx dy) * B (idx2 D1D dx qx))"
    and "snd (stage1_2D D1D Q1D B G X DQ) (idx2 D1D dy qx) =
           (\<Sum>dx<D1D. X (idx2 D1D dx dy) * G (idx2 D1D dx qx))"
  using assms by (cases DQ; simp add: stage1_2D_eq tile2_hit[OF inj_idx2])+

lemma fold_du01:
  "fold (\<lambda>i du. let du = du[0 := du ! 0 + f i] in du[1 := du ! 1 + h i]) [0..<n] [a, b, c] =
   [a + (\<Sum>i<n. f i), b + (\<Sum>i<n. h i), c :: real]"
  by (induction n) (simp_all add: Let_def add.assoc)

lemma du_ref2D_tiles:
  assumes BG: "BG' = LoadBG D1D Q1D b g BG"
    and X: "X = LoadX2D e D1D c x X0"
    and DQ: "DQ' = stage1_2D D1D Q1D (fst BG') (snd BG') X DQ"
    and q: "qx < Q1D" "qy < Q1D"
  shows "du_ref2D D1D (fst BG') (snd BG') (fst DQ') (snd DQ') qx qy = grad_ref2D b g x D1D qx qy c e"
  unfolding du_ref2D_def grad_ref2D_def fold_du01 BG X DQ
  using q by (simp add: stage1_2D_DQ LoadBG_B LoadX2D_X)

lemma length_phys2D: "length (phys2D j SDIM qx qy e du) = length du"
  by (simp add: phys2D_def Let_def)

lemma length_du2D: "length (du2D P b g j x D1D SDIM qx qy c e) = 3"
  by (simp add: du2D_def Let_def length_phys2D grad_ref2D_def)

lemma store2D_pure:
  assumes "SDIM \<le> length du"
  shows "store2D L Q1D VDIM SDIM qx qy c e du y =
         Inr (fold (\<lambda>d y. y(yidx2D L Q1D VDIM SDIM qx qy c d e := du ! d)) [0..<SDIM] y)"
  unfolding store2D_def using assms by (intro for_err_pure) (simp add: rd_def)

lemma stage2_2D_pure:
  assumes BG: "BG' = LoadBG D1D Q1D b g BG"
    and X: "X = LoadX2D e D1D c x X0"
    and DQ: "DQ' = stage1_2D D1D Q1D (fst BG') (snd BG') X DQ"
    and S: "SDIM \<le> 3"
  shows "stage2_2D L P D1D Q1D VDIM SDIM j (fst BG') (snd BG') (fst DQ') (snd DQ') c e y =
     Inr (fold (\<lambda>qy. fold (\<lambda>qx. fold (\<lambda>d y.
            y(yidx2D L Q1D VDIM SDIM qx qy c d e := du2D P b g j x D1D SDIM qx qy c e ! d))
          [0..<SDIM]) [0..<Q1D]) [0..<Q1D] y)"
  unfolding stage2_2D_def
proof (intro for_err_pure)
  fix qy qx and s :: buffer
  assume q: "qy \<in> set [0..<Q1D]" "qx \<in> set [0..<Q1D]"
  have "du_ref2D D1D (fst BG') (snd BG') (fst DQ') (snd DQ') qx qy = grad_ref2D b g x D1D qx qy c e"
    using q by (intro du_ref2D_tiles[OF BG X DQ]) simp_all
  then have "(let du = du_ref2D D1D (fst BG') (snd BG') (fst DQ') (snd DQ') qx qy;
                  du = if P then phys2D j SDIM qx qy e du else du
              in store2D L Q1D VDIM SDIM qx qy c e du s) =
             store2D L Q1D VDIM SDIM qx qy c e (du2D P b g j x D1D SDIM qx qy c e) s"
    by (simp add: du2D_def Let_def)
  then show "(let du = du_ref2D D1D (fst BG') (snd BG') (fst DQ') (snd DQ') qx qy;
                  du = if P then phys2D j SDIM qx qy e du else du
              in store2D L Q1D VDIM SDIM qx qy c e du s) =
      Inr (fold (\<lambda>d y. y(yidx2D L Q1D VDIM SDIM qx qy c d e := du2D P b g j x D1D SDIM qx qy c e ! d))
             [0..<SDIM] s)"
    by (simp add: store2D_pure length_du2D S)
qed

lemma elem2D_pure:
  assumes S: "SDIM \<le> 3"
  shows "elem2D L P D1D Q1D VDIM SDIM b g j x sm e y =
     Inr (fold (\<lambda>c. fold (\<lambda>qy. fold (\<lambda>qx. fold (\<lambda>d y.
            y(yidx2D L Q1D VDIM SDIM qx qy c d e := du2D P b g j x D1D SDIM qx qy c e ! d))
          [0..<SDIM]) [0..<Q1D]) [0..<Q1D]) [0..<VDIM] y)"
proof -
  define BG' where "BG' = LoadBG D1D Q1D b g (BG0 sm, BG1 sm)"
  let ?W = "\<lambda>c. fold (\<lambda>qy. fold (\<lambda>qx. fold (\<lambda>d y.
            y(yidx2D L Q1D VDIM SDIM qx qy c d e := du2D P b g j x D1D SDIM qx qy c e ! d))
          [0..<SDIM]) [0..<Q1D]) [0..<Q1D]"
  let ?body = "\<lambda>c (X0, DQ, y).
                let X = LoadX2D e D1D c x X0;
                    (DQ0, DQ1) = stage1_2D D1D Q1D (fst BG') (snd BG') X DQ
                in case stage2_2D L P D1D Q1D VDIM SDIM j (fst BG') (snd BG') DQ0 DQ1 c e y of
                     Inl err \<Rightarrow> Inl err
                   | Inr y' \<Rightarrow> Inr (X, (DQ0, DQ1), y')"
  let ?obs = "\<lambda>s :: buffer \<times> (buffer \<times> buffer) \<times> buffer. snd (snd s)"
  have "\<exists>s'. ?body c s = Inr s' \<and> ?obs s' = ?W c (?obs s)" for c s
  proof -
    obtain X0 DQ y where s: "s = (X0, DQ, y)" by (cases s)
    define X where "X = LoadX2D e D1D c x X0"
    define DQ' where "DQ' = stage1_2D D1D Q1D (fst BG') (snd BG') X DQ"
    show ?thesis
      using stage2_2D_pure[OF BG'_def X_def DQ'_def S, of L P VDIM j y]
      by (simp add: s Let_def X_def[symmetric] DQ'_def[symmetric] split_beta)
  qed
  then obtain s' where "for_err [0..<VDIM] ?body (XY sm, (s_DQ0 sm, s_DQ1 sm), y) = Inr s'"
      "?obs s' = fold ?W [0..<VDIM] y"
    using for_err_state[where body = ?body and W = ?W and obs = ?obs
        and s = "(XY sm, (s_DQ0 sm, s_DQ1 sm), y)" and cs = "[0..<VDIM]"] by auto
  then show ?thesis
    unfolding elem2D_def BG'_def[symmetric]
    by (simp add: split_beta)
qed

lemma forall2D_pure:
  assumes S: "SDIM \<le> 3"
  shows "forall2D L P D1D Q1D VDIM SDIM b g j x sm NE y =
     Inr (fold (\<lambda>e. fold (\<lambda>c. fold (\<lambda>qy. fold (\<lambda>qx. fold (\<lambda>d y.
            y(yidx2D L Q1D VDIM SDIM qx qy c d e := du2D P b g j x D1D SDIM qx qy c e ! d))
          [0..<SDIM]) [0..<Q1D]) [0..<Q1D]) [0..<VDIM]) [0..<NE] y)"
  unfolding forall2D_def by (intro for_err_pure) (simp add: elem2D_pure[OF S])

lemma yidx2D_eq_iff:
  assumes "qx < Q1D" "qy < Q1D" "c < VDIM" "d < SDIM" "qx' < Q1D" "qy' < Q1D" "c' < VDIM" "d' < SDIM"
  shows "(yidx2D L Q1D VDIM SDIM qx qy c d e = yidx2D L Q1D VDIM SDIM qx' qy' c' d' e') =
         (qx = qx' \<and> qy = qy' \<and> c = c' \<and> d = d' \<and> e = e')"
  using assms by (cases L) (auto simp: yidx2D_def idx5_def radix_eq)

lemma yidx2D_inj:
  "inj_on (\<lambda>(e, c, qy, qx, d). yidx2D L Q1D VDIM SDIM qx qy c d e)
     ({..<NE} \<times> {..<VDIM} \<times> {..<Q1D} \<times> {..<Q1D} \<times> {..<SDIM})"
  by (auto simp: inj_on_def yidx2D_eq_iff)

lemma yidx2D_less:
  assumes "qx < Q1D" "qy < Q1D" "c < VDIM" "d < SDIM" "e < NE"
  shows "yidx2D L Q1D VDIM SDIM qx qy c d e < Q1D * Q1D * VDIM * SDIM * NE"
proof (cases L)
  case byNODES
  then show ?thesis using idx5_less[OF assms] by (simp add: yidx2D_def)
next
  case byVDIM
  then show ?thesis using idx5_less[OF assms(3,4,1,2,5)]
    by (simp add: yidx2D_def mult.commute mult.left_commute)
qed

lemma yidx2D_onto:
  assumes "a < Q1D * Q1D * VDIM * SDIM * NE"
  obtains qx qy c d e where "qx < Q1D" "qy < Q1D" "c < VDIM" "d < SDIM" "e < NE"
    "a = yidx2D L Q1D VDIM SDIM qx qy c d e"
proof (cases L)
  case byNODES
  from assms obtain qx qy c d e where "qx < Q1D" "qy < Q1D" "c < VDIM" "d < SDIM" "e < NE"
    "a = idx5 Q1D Q1D VDIM SDIM qx qy c d e"
    by (rule idx5_onto)
  then show ?thesis using that byNODES by (simp add: yidx2D_def)
next
  case byVDIM
  from assms have "a < VDIM * SDIM * Q1D * Q1D * NE" by (simp add: mult.commute mult.left_commute)
  then obtain c d qx qy e where "c < VDIM" "d < SDIM" "qx < Q1D" "qy < Q1D" "e < NE"
    "a = idx5 VDIM SDIM Q1D Q1D c d qx qy e"
    by (rule idx5_onto)
  then show ?thesis using that byVDIM by (simp add: yidx2D_def)
qed

lemma forall2D_at:
  assumes "SDIM \<le> 3" "e < NE" "c < VDIM" "qy < Q1D" "qx < Q1D" "d < SDIM"
  shows "\<exists>y'. forall2D L P D1D Q1D VDIM SDIM b g j x sm NE y = Inr y' \<and>
     y' (yidx2D L Q1D VDIM SDIM qx qy c d e) = du2D P b g j x D1D SDIM qx qy c e ! d"
  unfolding forall2D_pure[OF assms(1)]
  using nest5_hit[where A = "\<lambda>e c qy qx d. yidx2D L Q1D VDIM SDIM qx qy c d e"
      and V = "\<lambda>e c qy qx d. du2D P b g j x D1D SDIM qx qy c e ! d", OF yidx2D_inj assms(2-)]
  by simp

lemma forall2D_frame:
  assumes "SDIM \<le> 3" "Q1D * Q1D * VDIM * SDIM * NE \<le> a"
  shows "\<exists>y'. forall2D L P D1D Q1D VDIM SDIM b g j x sm NE y = Inr y' \<and> y' a = y a"
proof -
  have "a \<noteq> yidx2D L Q1D VDIM SDIM qx qy c d e"
    if "e < NE" "c < VDIM" "qy < Q1D" "qx < Q1D" "d < SDIM" for e c qy qx d
    using yidx2D_less[OF that(4,3,2,5,1), of L] assms(2) by simp
  then show ?thesis
    unfolding forall2D_pure[OF assms(1)]
    using nest5_other[where A = "\<lambda>e c qy qx d. yidx2D L Q1D VDIM SDIM qx qy c d e"
      and V = "\<lambda>e c qy qx d. du2D P b g j x D1D SDIM qx qy c e ! d" and a = a]
    by simp
qed

section \<open>What Derivatives3D stores\<close>

text \<open>
  The 3D kernel is a nest of six loops of writes to the output buffer: the arrays
  \<^verbatim>\<open>sm0\<close> and \<^verbatim>\<open>sm1\<close> go through the components of an element on their own, and the
  third pass of component \<open>c\<close> stores the three directions of \<open>val3D\<close>; the three stores
  of a quadrature point are taken as a loop over the three directions.
\<close>

lemma fold_split_state:
  "fold (\<lambda>c (s0, s1, y). (fst (F c (s0, s1)), snd (F c (s0, s1)), S c (F c (s0, s1)) y))
     [0..<n] (a0, a1, y0) =
   (fst (fold F [0..<n] (a0, a1)), snd (fold F [0..<n] (a0, a1)),
    fold (\<lambda>c y. S c (fold F [0..<Suc c] (a0, a1)) y) [0..<n] y0)"
  by (induction n) simp_all

lemma store3_fold:
  "(case t of (u, v, w) \<Rightarrow> (y::buffer)(A 0 := u, A 1 := v, A 2 := w)) =
   fold (\<lambda>d y. y(A d := comp3 t d)) [0..<3] y"
proof -
  have "[0..<3] = [0, 1, 2]" by (simp add: upt_rec)
  then show ?thesis by (cases t) (simp add: comp3_def)
qed

lemma stage3_3D_writes:
  "stage3_3D L P n cap D1D Q1D VDIM j BG s1 c e y =
     fold (\<lambda>qz. fold (\<lambda>qy. fold (\<lambda>qx. fold (\<lambda>d y.
            y(yidx3D L Q1D VDIM qx qy qz c d e :=
                comp3 (let uvw = uvw_ref3D n cap D1D Q1D BG s1 qx qy qz
                       in if P then phys3D j qx qy qz e uvw else uvw) d))
          [0..<3]) [0..<Q1D]) [0..<Q1D]) [0..<Q1D] y"
  unfolding stage3_3D_def
proof (intro fold_cong_state)
  fix qz qy qx and s :: buffer
  show "(let uvw = uvw_ref3D n cap D1D Q1D BG s1 qx qy qz;
             (u, v, w) = if P then phys3D j qx qy qz e uvw else uvw
         in s(yidx3D L Q1D VDIM qx qy qz c 0 e := u, yidx3D L Q1D VDIM qx qy qz c 1 e := v,
              yidx3D L Q1D VDIM qx qy qz c 2 e := w)) =
        fold (\<lambda>d y. y(yidx3D L Q1D VDIM qx qy qz c d e :=
                comp3 (let uvw = uvw_ref3D n cap D1D Q1D BG s1 qx qy qz
                       in if P then phys3D j qx qy qz e uvw else uvw) d))
          [0..<3] s"
    by (simp add: Let_def
          store3_fold[where A = "\<lambda>d. yidx3D L Q1D VDIM qx qy qz c d e", symmetric])
qed

lemma elem3D_writes:
  "elem3D L P MD1 MQ1 D1D Q1D VDIM b g j x sm e y =
     fold (\<lambda>c. fold (\<lambda>qz. fold (\<lambda>qy. fold (\<lambda>qx. fold (\<lambda>d y.
            y(yidx3D L Q1D VDIM qx qy qz c d e :=
                comp3 (val3D P MD1 MQ1 D1D Q1D b g j x sm qx qy qz c e) d))
          [0..<3]) [0..<Q1D]) [0..<Q1D]) [0..<Q1D]) [0..<VDIM] y"
proof -
  define n where "n = MQ1 * MD1"
  define cap where "cap = MQ1 * MQ1 * MQ1"
  define BG where "BG = LoadBG3D MD1 MQ1 D1D Q1D b g (BG_3D sm)"
  let ?F = "pass3D n cap D1D Q1D BG x e"
  let ?S = "\<lambda>c (t :: buffer \<times> buffer) y. stage3_3D L P n cap D1D Q1D VDIM j BG (snd t) c e y"
  have "elem3D L P MD1 MQ1 D1D Q1D VDIM b g j x sm e y =
          (case fold (\<lambda>c (s0, s1, y). let t = ?F c (s0, s1) in (fst t, snd t, ?S c t y))
                  [0..<VDIM] (sm0_3D sm, sm1_3D sm, y) of
             (s0, s1, y') \<Rightarrow> y')"
    by (simp add: elem3D_def pass3D_def Let_def n_def cap_def BG_def)
  also have "\<dots> = fold (\<lambda>c y. ?S c (fold ?F [0..<Suc c] (sm0_3D sm, sm1_3D sm)) y) [0..<VDIM] y"
    using fold_split_state[of ?F ?S VDIM "sm0_3D sm" "sm1_3D sm" y]
    by (simp add: Let_def del: upt_Suc)
  also have "\<dots> = fold (\<lambda>c. fold (\<lambda>qz. fold (\<lambda>qy. fold (\<lambda>qx. fold (\<lambda>d y.
            y(yidx3D L Q1D VDIM qx qy qz c d e :=
                comp3 (val3D P MD1 MQ1 D1D Q1D b g j x sm qx qy qz c e) d))
          [0..<3]) [0..<Q1D]) [0..<Q1D]) [0..<Q1D]) [0..<VDIM] y"
    unfolding stage3_3D_writes val3D_def n_def[symmetric] cap_def[symmetric] Let_def BG_def[symmetric]
    by (rule refl)
  finally show ?thesis .
qed

lemma forall3D_writes:
  "forall3D L P MD1 MQ1 D1D Q1D VDIM b g j x sm NE y =
     fold (\<lambda>e. fold (\<lambda>c. fold (\<lambda>qz. fold (\<lambda>qy. fold (\<lambda>qx. fold (\<lambda>d y.
            y(yidx3D L Q1D VDIM qx qy qz c d e :=
                comp3 (val3D P MD1 MQ1 D1D Q1D b g j x (sm e) qx qy qz c e) d))
          [0..<3]) [0..<Q1D]) [0..<Q1D]) [0..<Q1D]) [0..<VDIM]) [0..<NE] y"
  unfolding forall3D_def by (intro fold_cong_state) (simp add: elem3D_writes)

lemma yidx3D_eq_iff:
  assumes "qx < Q1D" "qy < Q1D" "qz < Q1D" "c < VDIM" "d < 3"
    "qx' < Q1D" "qy' < Q1D" "qz' < Q1D" "c' < VDIM" "d' < 3"
  shows "(yidx3D L Q1D VDIM qx qy qz c d e = yidx3D L Q1D VDIM qx' qy' qz' c' d' e') =
         (qx = qx' \<and> qy = qy' \<and> qz = qz' \<and> c = c' \<and> d = d' \<and> e = e')"
  using assms by (cases L) (auto simp: yidx3D_def idx6_eq_iff)

lemma yidx3D_inj:
  "inj_on (\<lambda>(e, c, qz, qy, qx, d). yidx3D L Q1D VDIM qx qy qz c d e)
     ({..<NE} \<times> {..<VDIM} \<times> {..<Q1D} \<times> {..<Q1D} \<times> {..<Q1D} \<times> {..<3})"
  by (auto simp: inj_on_def yidx3D_eq_iff)

lemma yidx3D_less:
  assumes "qx < Q1D" "qy < Q1D" "qz < Q1D" "c < VDIM" "d < 3" "e < NE"
  shows "yidx3D L Q1D VDIM qx qy qz c d e < Q1D * Q1D * Q1D * VDIM * 3 * NE"
proof (cases L)
  case byNODES
  then show ?thesis using idx6_less[OF assms] by (simp add: yidx3D_def)
next
  case byVDIM
  then show ?thesis using idx6_less[OF assms(4,5,1,2,3,6)]
    by (simp add: yidx3D_def mult.commute mult.left_commute)
qed

lemma yidx3D_onto:
  assumes "a < Q1D * Q1D * Q1D * VDIM * 3 * NE"
  obtains qx qy qz c d e where "qx < Q1D" "qy < Q1D" "qz < Q1D" "c < VDIM" "d < 3" "e < NE"
    "a = yidx3D L Q1D VDIM qx qy qz c d e"
proof (cases L)
  case byNODES
  from assms obtain qx qy qz c d e where "qx < Q1D" "qy < Q1D" "qz < Q1D" "c < VDIM" "d < 3" "e < NE"
    "a = idx6 Q1D Q1D Q1D VDIM 3 qx qy qz c d e"
    by (rule idx6_onto)
  then show ?thesis using that byNODES by (simp add: yidx3D_def)
next
  case byVDIM
  from assms have "a < VDIM * 3 * Q1D * Q1D * Q1D * NE" by (simp add: mult.commute mult.left_commute)
  then obtain c d qx qy qz e where "c < VDIM" "d < 3" "qx < Q1D" "qy < Q1D" "qz < Q1D" "e < NE"
    "a = idx6 VDIM 3 Q1D Q1D Q1D c d qx qy qz e"
    by (rule idx6_onto)
  then show ?thesis using that byVDIM by (simp add: yidx3D_def)
qed

lemma forall3D_at:
  assumes "e < NE" "c < VDIM" "qz < Q1D" "qy < Q1D" "qx < Q1D" "d < 3"
  shows "forall3D L P MD1 MQ1 D1D Q1D VDIM b g j x sm NE y (yidx3D L Q1D VDIM qx qy qz c d e) =
           comp3 (val3D P MD1 MQ1 D1D Q1D b g j x (sm e) qx qy qz c e) d"
  unfolding forall3D_writes
  using nest6_hit[where A = "\<lambda>e c qz qy qx d. yidx3D L Q1D VDIM qx qy qz c d e"
      and V = "\<lambda>e c qz qy qx d. comp3 (val3D P MD1 MQ1 D1D Q1D b g j x (sm e) qx qy qz c e) d",
      OF yidx3D_inj assms]
  by simp

lemma forall3D_frame:
  assumes "Q1D * Q1D * Q1D * VDIM * 3 * NE \<le> a"
  shows "forall3D L P MD1 MQ1 D1D Q1D VDIM b g j x sm NE y a = y a"
proof -
  have "a \<noteq> yidx3D L Q1D VDIM qx qy qz c d e"
    if "e < NE" "c < VDIM" "qz < Q1D" "qy < Q1D" "qx < Q1D" "d < 3" for e c qz qy qx d
    using yidx3D_less[OF that(5,4,3,2,6,1), of L] assms by simp
  then show ?thesis
    unfolding forall3D_writes
    using nest6_other[where A = "\<lambda>e c qz qy qx d. yidx3D L Q1D VDIM qx qy qz c d e"
      and V = "\<lambda>e c qz qy qx d. comp3 (val3D P MD1 MQ1 D1D Q1D b g j x (sm e) qx qy qz c e) d"
      and a = a]
    by simp
qed

text \<open>
  The values do not depend on what the shared arrays hold when the element starts,
  whether the tiles fit their rows or not: every cell that a pass reads has been
  written before, by \<open>LoadBG\<close>, by \<open>LoadX\<close> or by the pass before it. Two runs are
  followed side by side; they agree on a growing set of cells.
\<close>

lemma fold_eqon:
  assumes "eqon W s t"
    and "\<And>i s t W'. i \<in> set xs \<Longrightarrow> W \<subseteq> W' \<Longrightarrow> eqon W' s t \<Longrightarrow> eqon (W' \<union> wr i) (f i s) (f' i t)"
  shows "eqon (W \<union> (\<Union>i\<in>set xs. wr i)) (fold f xs s) (fold f' xs t)"
  using assms
proof (induction xs arbitrary: W s t)
  case Nil
  then show ?case by simp
next
  case (Cons i xs)
  have 1: "eqon (W \<union> wr i) (f i s) (f' i t)"
    using Cons.prems(2)[of i W s t] Cons.prems(1) by simp
  have "eqon ((W \<union> wr i) \<union> (\<Union>k\<in>set xs. wr k)) (fold f xs (f i s)) (fold f' xs (f' i t))"
  proof (rule Cons.IH[OF 1])
    fix k s t W'
    assume "k \<in> set xs" "W \<union> wr i \<subseteq> W'" "eqon W' s t"
    then show "eqon (W' \<union> wr k) (f k s) (f' k t)"
      using Cons.prems(2)[of k W' s t] by simp
  qed
  then show ?case by (simp add: Un_assoc)
qed

lemma fold2_eqon:
  assumes 0: "eqon W s t"
    and step: "\<And>i k s t W'. i \<in> set is \<Longrightarrow> k \<in> set ks \<Longrightarrow> W \<subseteq> W' \<Longrightarrow> eqon W' s t \<Longrightarrow>
             eqon (W' \<union> wr i k) (f i k s) (f' i k t)"
  shows "eqon (W \<union> (\<Union>i\<in>set is. \<Union>k\<in>set ks. wr i k))
           (fold (\<lambda>i. fold (f i) ks) is s) (fold (\<lambda>i. fold (f' i) ks) is t)"
proof (rule fold_eqon[OF 0])
  fix i s t W'
  assume i: "i \<in> set is" and W: "W \<subseteq> W'" and e: "eqon W' s t"
  show "eqon (W' \<union> (\<Union>k\<in>set ks. wr i k)) (fold (f i) ks s) (fold (f' i) ks t)"
  proof (rule fold_eqon[OF e])
    fix k s t W''
    assume "k \<in> set ks" "W' \<subseteq> W''" "eqon W'' s t"
    then show "eqon (W'' \<union> wr i k) (f i k s) (f' i k t)"
      using step[of i k W'' s t] i W by simp
  qed
qed

lemma fold3_eqon:
  assumes 0: "eqon W s t"
    and step: "\<And>i k l s t W'. i \<in> set is \<Longrightarrow> k \<in> set ks \<Longrightarrow> l \<in> set ls \<Longrightarrow> W \<subseteq> W' \<Longrightarrow>
             eqon W' s t \<Longrightarrow> eqon (W' \<union> wr i k l) (f i k l s) (f' i k l t)"
  shows "eqon (W \<union> (\<Union>i\<in>set is. \<Union>k\<in>set ks. \<Union>l\<in>set ls. wr i k l))
           (fold (\<lambda>i. fold (\<lambda>k. fold (f i k) ls) ks) is s)
           (fold (\<lambda>i. fold (\<lambda>k. fold (f' i k) ls) ks) is t)"
proof (rule fold_eqon[OF 0])
  fix i s t W'
  assume i: "i \<in> set is" and W: "W \<subseteq> W'" and e: "eqon W' s t"
  show "eqon (W' \<union> (\<Union>k\<in>set ks. \<Union>l\<in>set ls. wr i k l))
          (fold (\<lambda>k. fold (f i k) ls) ks s) (fold (\<lambda>k. fold (f' i k) ls) ks t)"
  proof (rule fold2_eqon[OF e])
    fix k l s t W''
    assume "k \<in> set ks" "l \<in> set ls" "W' \<subseteq> W''" "eqon W'' s t"
    then show "eqon (W'' \<union> wr i k l) (f i k l s) (f' i k l t)"
      using step[of i k l W'' s t] i W by simp
  qed
qed

lemma eqon_UN2:
  assumes "eqon (W \<union> (\<Union>i\<in>set [0..<n]. \<Union>k\<in>set [0..<m]. A i k)) s t"
    and "i < n" "k < m" "a \<in> A i k"
  shows "s a = t a"
proof -
  have "a \<in> (\<Union>i\<in>set [0..<n]. \<Union>k\<in>set [0..<m]. A i k)"
    using assms(2-) by (intro UN_I[of i] UN_I[of k]) simp_all
  then show ?thesis using assms(1) by (simp add: eqon_def)
qed

lemma eqon_UN3:
  assumes "eqon (W \<union> (\<Union>i\<in>set [0..<n]. \<Union>k\<in>set [0..<m]. \<Union>l\<in>set [0..<p]. A i k l)) s t"
    and "i < n" "k < m" "l < p" "a \<in> A i k l"
  shows "s a = t a"
proof -
  have "a \<in> (\<Union>i\<in>set [0..<n]. \<Union>k\<in>set [0..<m]. \<Union>l\<in>set [0..<p]. A i k l)"
    using assms(2-) by (intro UN_I[of i] UN_I[of k] UN_I[of l]) simp_all
  then show ?thesis using assms(1) by (simp add: eqon_def)
qed

lemma eqon_upd2: "eqon W s t \<Longrightarrow> eqon (W \<union> {a0, a1}) (s(a0 := u, a1 := v)) (t(a0 := u, a1 := v))"
  by (simp add: eqon_def)

lemma eqon_upd3:
  "eqon W s t \<Longrightarrow> eqon (W \<union> {a0, a1, a2}) (s(a0 := u, a1 := v, a2 := w)) (t(a0 := u, a1 := v, a2 := w))"
  by (simp add: eqon_def)

lemma eqon_empty: "eqon {} s t"
  by (simp add: eqon_def)

lemma LoadBG3D_det:
  assumes "d < D1D" "q < Q1D"
  shows "LoadBG3D MD1 MQ1 D1D Q1D b g BG (tile (MQ1 * MD1) 0 (idx2 D1D d q)) =
         LoadBG3D MD1 MQ1 D1D Q1D b g BG' (tile (MQ1 * MD1) 0 (idx2 D1D d q))"
    and "LoadBG3D MD1 MQ1 D1D Q1D b g BG (tile (MQ1 * MD1) 1 (idx2 D1D d q)) =
         LoadBG3D MD1 MQ1 D1D Q1D b g BG' (tile (MQ1 * MD1) 1 (idx2 D1D d q))"
proof -
  have e: "eqon ({} \<union> (\<Union>d\<in>set [0..<D1D]. \<Union>q\<in>set [0..<Q1D].
                 {tile (MQ1 * MD1) 0 (idx2 D1D d q), tile (MQ1 * MD1) 1 (idx2 D1D d q)}))
             (LoadBG3D MD1 MQ1 D1D Q1D b g BG) (LoadBG3D MD1 MQ1 D1D Q1D b g BG')"
    unfolding LoadBG3D_def by (rule fold2_eqon[OF eqon_empty]) (rule eqon_upd2)
  show "LoadBG3D MD1 MQ1 D1D Q1D b g BG (tile (MQ1 * MD1) 0 (idx2 D1D d q)) =
         LoadBG3D MD1 MQ1 D1D Q1D b g BG' (tile (MQ1 * MD1) 0 (idx2 D1D d q))"
    by (rule eqon_UN2[OF e assms]) simp
  show "LoadBG3D MD1 MQ1 D1D Q1D b g BG (tile (MQ1 * MD1) 1 (idx2 D1D d q)) =
         LoadBG3D MD1 MQ1 D1D Q1D b g BG' (tile (MQ1 * MD1) 1 (idx2 D1D d q))"
    by (rule eqon_UN2[OF e assms]) simp
qed

lemma LoadX3D_eqon:
  "eqon ({} \<union> (\<Union>dz\<in>set [0..<D1D]. \<Union>dy\<in>set [0..<D1D]. \<Union>dx\<in>set [0..<D1D].
            {tile cap 2 (idx3 D1D D1D dx dy dz)}))
     (LoadX3D e D1D c x cap s) (LoadX3D e D1D c x cap t)"
  unfolding LoadX3D_def by (rule fold3_eqon[OF eqon_empty]) (simp add: eqon_def)

lemma stage1_3D_eqon:
  assumes X: "\<And>dx dy dz. dx < D1D \<Longrightarrow> dy < D1D \<Longrightarrow> dz < D1D \<Longrightarrow>
               tile cap 2 (idx3 D1D D1D dx dy dz) \<in> W"
    and BG: "\<And>d q. d < D1D \<Longrightarrow> q < Q1D \<Longrightarrow>
               BG (tile n 0 (idx2 D1D d q)) = BG' (tile n 0 (idx2 D1D d q)) \<and>
               BG (tile n 1 (idx2 D1D d q)) = BG' (tile n 1 (idx2 D1D d q))"
    and 0: "eqon W s t"
  shows "eqon (W \<union> (\<Union>dz\<in>set [0..<D1D]. \<Union>dy\<in>set [0..<D1D]. \<Union>qx\<in>set [0..<Q1D].
            {tile cap 0 (idx3 D1D D1D dz dy qx), tile cap 1 (idx3 D1D D1D dz dy qx)}))
     (stage1_3D n cap D1D Q1D BG s) (stage1_3D n cap D1D Q1D BG' t)"
  unfolding stage1_3D_def
proof (rule fold3_eqon[OF 0])
  fix dz dy qx W' and s t :: buffer
  assume i: "dz \<in> set [0..<D1D]" "dy \<in> set [0..<D1D]" "qx \<in> set [0..<Q1D]"
    and W: "W \<subseteq> W'" and e: "eqon W' s t"
  have "fold (\<lambda>dx (u, v).
               let input = s (tile cap 2 (idx3 D1D D1D dx dy dz))
               in (u + input * BG (tile n 0 (idx2 D1D dx qx)),
                   v + input * BG (tile n 1 (idx2 D1D dx qx)))) [0..<D1D] (0, 0) =
        fold (\<lambda>dx (u, v).
               let input = t (tile cap 2 (idx3 D1D D1D dx dy dz))
               in (u + input * BG' (tile n 0 (idx2 D1D dx qx)),
                   v + input * BG' (tile n 1 (idx2 D1D dx qx)))) [0..<D1D] (0, 0)"
  proof (rule fold_cong_state)
    fix dx and uv :: "real \<times> real"
    assume dx: "dx \<in> set [0..<D1D]"
    have "s (tile cap 2 (idx3 D1D D1D dx dy dz)) = t (tile cap 2 (idx3 D1D D1D dx dy dz))"
      using e W X[of dx dy dz] dx i by (auto simp: eqon_def)
    then show "(case uv of (u, v) \<Rightarrow>
               let input = s (tile cap 2 (idx3 D1D D1D dx dy dz))
               in (u + input * BG (tile n 0 (idx2 D1D dx qx)),
                   v + input * BG (tile n 1 (idx2 D1D dx qx)))) =
          (case uv of (u, v) \<Rightarrow>
               let input = t (tile cap 2 (idx3 D1D D1D dx dy dz))
               in (u + input * BG' (tile n 0 (idx2 D1D dx qx)),
                   v + input * BG' (tile n 1 (idx2 D1D dx qx))))"
      using BG[of dx qx] dx i by simp
  qed
  then show "eqon (W' \<union> {tile cap 0 (idx3 D1D D1D dz dy qx), tile cap 1 (idx3 D1D D1D dz dy qx)})
     (let (u, v) = fold (\<lambda>dx (u, v).
               let input = s (tile cap 2 (idx3 D1D D1D dx dy dz))
               in (u + input * BG (tile n 0 (idx2 D1D dx qx)),
                   v + input * BG (tile n 1 (idx2 D1D dx qx)))) [0..<D1D] (0, 0)
      in s(tile cap 0 (idx3 D1D D1D dz dy qx) := u, tile cap 1 (idx3 D1D D1D dz dy qx) := v))
     (let (u, v) = fold (\<lambda>dx (u, v).
               let input = t (tile cap 2 (idx3 D1D D1D dx dy dz))
               in (u + input * BG' (tile n 0 (idx2 D1D dx qx)),
                   v + input * BG' (tile n 1 (idx2 D1D dx qx)))) [0..<D1D] (0, 0)
      in t(tile cap 0 (idx3 D1D D1D dz dy qx) := u, tile cap 1 (idx3 D1D D1D dz dy qx) := v))"
    using eqon_upd2[OF e] by (simp add: Let_def split_beta)
qed

lemma stage2_3D_eqon:
  assumes DDQ: "\<And>dz dy qx. dz < D1D \<Longrightarrow> dy < D1D \<Longrightarrow> qx < Q1D \<Longrightarrow>
               s0 (tile cap 0 (idx3 D1D D1D dz dy qx)) = t0 (tile cap 0 (idx3 D1D D1D dz dy qx)) \<and>
               s0 (tile cap 1 (idx3 D1D D1D dz dy qx)) = t0 (tile cap 1 (idx3 D1D D1D dz dy qx))"
    and BG: "\<And>d q. d < D1D \<Longrightarrow> q < Q1D \<Longrightarrow>
               BG (tile n 0 (idx2 D1D d q)) = BG' (tile n 0 (idx2 D1D d q)) \<and>
               BG (tile n 1 (idx2 D1D d q)) = BG' (tile n 1 (idx2 D1D d q))"
  shows "eqon ({} \<union> (\<Union>dz\<in>set [0..<D1D]. \<Union>qy\<in>set [0..<Q1D]. \<Union>qx\<in>set [0..<Q1D].
            {tile cap 0 (idx3 D1D Q1D dz qy qx), tile cap 1 (idx3 D1D Q1D dz qy qx),
             tile cap 2 (idx3 D1D Q1D dz qy qx)}))
     (stage2_3D n cap D1D Q1D BG s0 s1) (stage2_3D n cap D1D Q1D BG' t0 t1)"
  unfolding stage2_3D_def
proof (rule fold3_eqon[OF eqon_empty])
  fix dz qy qx W' and s t :: buffer
  assume i: "dz \<in> set [0..<D1D]" "qy \<in> set [0..<Q1D]" "qx \<in> set [0..<Q1D]"
    and e: "eqon W' s t"
  have "fold (\<lambda>dy (u, v, w).
              (u + s0 (tile cap 1 (idx3 D1D D1D dz dy qx)) * BG (tile n 0 (idx2 D1D dy qy)),
               v + s0 (tile cap 0 (idx3 D1D D1D dz dy qx)) * BG (tile n 1 (idx2 D1D dy qy)),
               w + s0 (tile cap 0 (idx3 D1D D1D dz dy qx)) * BG (tile n 0 (idx2 D1D dy qy))))
          [0..<D1D] (0, 0, 0) =
        fold (\<lambda>dy (u, v, w).
              (u + t0 (tile cap 1 (idx3 D1D D1D dz dy qx)) * BG' (tile n 0 (idx2 D1D dy qy)),
               v + t0 (tile cap 0 (idx3 D1D D1D dz dy qx)) * BG' (tile n 1 (idx2 D1D dy qy)),
               w + t0 (tile cap 0 (idx3 D1D D1D dz dy qx)) * BG' (tile n 0 (idx2 D1D dy qy))))
          [0..<D1D] (0, 0, 0)"
  proof (rule fold_cong_state)
    fix dy and uvw :: "real \<times> real \<times> real"
    assume dy: "dy \<in> set [0..<D1D]"
    show "(case uvw of (u, v, w) \<Rightarrow>
              (u + s0 (tile cap 1 (idx3 D1D D1D dz dy qx)) * BG (tile n 0 (idx2 D1D dy qy)),
               v + s0 (tile cap 0 (idx3 D1D D1D dz dy qx)) * BG (tile n 1 (idx2 D1D dy qy)),
               w + s0 (tile cap 0 (idx3 D1D D1D dz dy qx)) * BG (tile n 0 (idx2 D1D dy qy)))) =
          (case uvw of (u, v, w) \<Rightarrow>
              (u + t0 (tile cap 1 (idx3 D1D D1D dz dy qx)) * BG' (tile n 0 (idx2 D1D dy qy)),
               v + t0 (tile cap 0 (idx3 D1D D1D dz dy qx)) * BG' (tile n 1 (idx2 D1D dy qy)),
               w + t0 (tile cap 0 (idx3 D1D D1D dz dy qx)) * BG' (tile n 0 (idx2 D1D dy qy))))"
      using BG[of dy qy] DDQ[of dz dy qx] dy i by simp
  qed
  then show "eqon (W' \<union> {tile cap 0 (idx3 D1D Q1D dz qy qx), tile cap 1 (idx3 D1D Q1D dz qy qx),
             tile cap 2 (idx3 D1D Q1D dz qy qx)})
     (let (u, v, w) = fold (\<lambda>dy (u, v, w).
              (u + s0 (tile cap 1 (idx3 D1D D1D dz dy qx)) * BG (tile n 0 (idx2 D1D dy qy)),
               v + s0 (tile cap 0 (idx3 D1D D1D dz dy qx)) * BG (tile n 1 (idx2 D1D dy qy)),
               w + s0 (tile cap 0 (idx3 D1D D1D dz dy qx)) * BG (tile n 0 (idx2 D1D dy qy))))
          [0..<D1D] (0, 0, 0)
      in s(tile cap 0 (idx3 D1D Q1D dz qy qx) := u, tile cap 1 (idx3 D1D Q1D dz qy qx) := v,
           tile cap 2 (idx3 D1D Q1D dz qy qx) := w))
     (let (u, v, w) = fold (\<lambda>dy (u, v, w).
              (u + t0 (tile cap 1 (idx3 D1D D1D dz dy qx)) * BG' (tile n 0 (idx2 D1D dy qy)),
               v + t0 (tile cap 0 (idx3 D1D D1D dz dy qx)) * BG' (tile n 1 (idx2 D1D dy qy)),
               w + t0 (tile cap 0 (idx3 D1D D1D dz dy qx)) * BG' (tile n 0 (idx2 D1D dy qy))))
          [0..<D1D] (0, 0, 0)
      in t(tile cap 0 (idx3 D1D Q1D dz qy qx) := u, tile cap 1 (idx3 D1D Q1D dz qy qx) := v,
           tile cap 2 (idx3 D1D Q1D dz qy qx) := w))"
    using eqon_upd3[OF e] by (simp add: Let_def split_beta)
qed

lemma uvw_ref3D_det:
  assumes DQQ: "\<And>dz qy qx. dz < D1D \<Longrightarrow> qy < Q1D \<Longrightarrow> qx < Q1D \<Longrightarrow>
               s1 (tile cap 0 (idx3 D1D Q1D dz qy qx)) = t1 (tile cap 0 (idx3 D1D Q1D dz qy qx)) \<and>
               s1 (tile cap 1 (idx3 D1D Q1D dz qy qx)) = t1 (tile cap 1 (idx3 D1D Q1D dz qy qx)) \<and>
               s1 (tile cap 2 (idx3 D1D Q1D dz qy qx)) = t1 (tile cap 2 (idx3 D1D Q1D dz qy qx))"
    and BG: "\<And>d q. d < D1D \<Longrightarrow> q < Q1D \<Longrightarrow>
               BG (tile n 0 (idx2 D1D d q)) = BG' (tile n 0 (idx2 D1D d q)) \<and>
               BG (tile n 1 (idx2 D1D d q)) = BG' (tile n 1 (idx2 D1D d q))"
    and q: "qx < Q1D" "qy < Q1D" "qz < Q1D"
  shows "uvw_ref3D n cap D1D Q1D BG s1 qx qy qz = uvw_ref3D n cap D1D Q1D BG' t1 qx qy qz"
  unfolding uvw_ref3D_def
proof (rule fold_cong_state)
  fix dz and uvw :: "real \<times> real \<times> real"
  assume dz: "dz \<in> set [0..<D1D]"
  show "(case uvw of (u, v, w) \<Rightarrow>
          (u + s1 (tile cap 0 (idx3 D1D Q1D dz qy qx)) * BG (tile n 0 (idx2 D1D dz qz)),
           v + s1 (tile cap 1 (idx3 D1D Q1D dz qy qx)) * BG (tile n 0 (idx2 D1D dz qz)),
           w + s1 (tile cap 2 (idx3 D1D Q1D dz qy qx)) * BG (tile n 1 (idx2 D1D dz qz)))) =
        (case uvw of (u, v, w) \<Rightarrow>
          (u + t1 (tile cap 0 (idx3 D1D Q1D dz qy qx)) * BG' (tile n 0 (idx2 D1D dz qz)),
           v + t1 (tile cap 1 (idx3 D1D Q1D dz qy qx)) * BG' (tile n 0 (idx2 D1D dz qz)),
           w + t1 (tile cap 2 (idx3 D1D Q1D dz qy qx)) * BG' (tile n 1 (idx2 D1D dz qz))))"
    using BG[of dz qz] DQQ[of dz qy qx] dz q by simp
qed

lemma pass3D_det:
  assumes BG: "\<And>d q. d < D1D \<Longrightarrow> q < Q1D \<Longrightarrow>
               BG (tile n 0 (idx2 D1D d q)) = BG' (tile n 0 (idx2 D1D d q)) \<and>
               BG (tile n 1 (idx2 D1D d q)) = BG' (tile n 1 (idx2 D1D d q))"
    and i: "dz < D1D" "qy < Q1D" "qx < Q1D"
  shows "snd (pass3D n cap D1D Q1D BG x e c s) (tile cap 0 (idx3 D1D Q1D dz qy qx)) =
         snd (pass3D n cap D1D Q1D BG' x e c t) (tile cap 0 (idx3 D1D Q1D dz qy qx)) \<and>
         snd (pass3D n cap D1D Q1D BG x e c s) (tile cap 1 (idx3 D1D Q1D dz qy qx)) =
         snd (pass3D n cap D1D Q1D BG' x e c t) (tile cap 1 (idx3 D1D Q1D dz qy qx)) \<and>
         snd (pass3D n cap D1D Q1D BG x e c s) (tile cap 2 (idx3 D1D Q1D dz qy qx)) =
         snd (pass3D n cap D1D Q1D BG' x e c t) (tile cap 2 (idx3 D1D Q1D dz qy qx))"
proof -
  obtain s0 s1 where s: "s = (s0, s1)" by (cases s)
  obtain t0 t1 where t: "t = (t0, t1)" by (cases t)
  let ?XW = "{} \<union> (\<Union>dz\<in>set [0..<D1D]. \<Union>dy\<in>set [0..<D1D]. \<Union>dx\<in>set [0..<D1D].
            {tile cap 2 (idx3 D1D D1D dx dy dz)})"
  define sa where "sa = stage1_3D n cap D1D Q1D BG (LoadX3D e D1D c x cap s0)"
  define ta where "ta = stage1_3D n cap D1D Q1D BG' (LoadX3D e D1D c x cap t0)"
  have XW: "tile cap 2 (idx3 D1D D1D dx dy dz) \<in> ?XW" if "dx < D1D" "dy < D1D" "dz < D1D" for dx dy dz
    using that by (intro UnI2 UN_I[of dz] UN_I[of dy] UN_I[of dx]) simp_all
  have 1: "eqon (?XW \<union> (\<Union>dz\<in>set [0..<D1D]. \<Union>dy\<in>set [0..<D1D]. \<Union>qx\<in>set [0..<Q1D].
            {tile cap 0 (idx3 D1D D1D dz dy qx), tile cap 1 (idx3 D1D D1D dz dy qx)})) sa ta"
    unfolding sa_def ta_def by (rule stage1_3D_eqon[OF XW BG LoadX3D_eqon])
  have DDQ: "sa (tile cap 0 (idx3 D1D D1D dz dy qx)) = ta (tile cap 0 (idx3 D1D D1D dz dy qx)) \<and>
             sa (tile cap 1 (idx3 D1D D1D dz dy qx)) = ta (tile cap 1 (idx3 D1D D1D dz dy qx))"
    if "dz < D1D" "dy < D1D" "qx < Q1D" for dz dy qx
    using eqon_UN3[OF 1 that] by simp
  have 2: "eqon ({} \<union> (\<Union>dz\<in>set [0..<D1D]. \<Union>qy\<in>set [0..<Q1D]. \<Union>qx\<in>set [0..<Q1D].
            {tile cap 0 (idx3 D1D Q1D dz qy qx), tile cap 1 (idx3 D1D Q1D dz qy qx),
             tile cap 2 (idx3 D1D Q1D dz qy qx)}))
          (stage2_3D n cap D1D Q1D BG sa s1) (stage2_3D n cap D1D Q1D BG' ta t1)"
    by (rule stage2_3D_eqon[OF DDQ BG])
  show ?thesis
    using eqon_UN3[OF 2 i] by (simp add: s t pass3D_def Let_def sa_def ta_def)
qed

lemma val3D_det:
  assumes q: "qx < Q1D" "qy < Q1D" "qz < Q1D"
  shows "val3D P MD1 MQ1 D1D Q1D b g j x sm qx qy qz c e =
         val3D P MD1 MQ1 D1D Q1D b g j x sm' qx qy qz c e"
proof -
  define n where "n = MQ1 * MD1"
  define cap where "cap = MQ1 * MQ1 * MQ1"
  define BG where "BG = LoadBG3D MD1 MQ1 D1D Q1D b g (BG_3D sm)"
  define BG' where "BG' = LoadBG3D MD1 MQ1 D1D Q1D b g (BG_3D sm')"
  define s where "s = fold (pass3D n cap D1D Q1D BG x e) [0..<c] (sm0_3D sm, sm1_3D sm)"
  define t where "t = fold (pass3D n cap D1D Q1D BG' x e) [0..<c] (sm0_3D sm', sm1_3D sm')"
  have BGeq: "BG (tile n 0 (idx2 D1D d q)) = BG' (tile n 0 (idx2 D1D d q)) \<and>
              BG (tile n 1 (idx2 D1D d q)) = BG' (tile n 1 (idx2 D1D d q))"
    if "d < D1D" "q < Q1D" for d q
    unfolding BG_def BG'_def n_def using LoadBG3D_det[OF that] by simp
  have "uvw_ref3D n cap D1D Q1D BG (snd (pass3D n cap D1D Q1D BG x e c s)) qx qy qz =
        uvw_ref3D n cap D1D Q1D BG' (snd (pass3D n cap D1D Q1D BG' x e c t)) qx qy qz"
    by (rule uvw_ref3D_det[OF pass3D_det[OF BGeq] BGeq q])
  then show ?thesis
    by (simp add: val3D_def Let_def n_def cap_def BG_def BG'_def s_def t_def)
qed

text \<open>
  Where the tiles fit their rows, no tile shares a cell with another one, and the
  passes compute the nested sums of \<open>grad_ref3D\<close>. The run is followed side by side
  with a buffer that holds, in every cell of a tile, the value that the cell is to
  receive.
\<close>

lemma fold_eqon_fix:
  assumes "eqon W s t"
    and "\<And>i s W'. i \<in> set xs \<Longrightarrow> W \<subseteq> W' \<Longrightarrow> eqon W' s t \<Longrightarrow> eqon (W' \<union> wr i) (f i s) t"
  shows "eqon (W \<union> (\<Union>i\<in>set xs. wr i)) (fold f xs s) t"
  using assms
proof (induction xs arbitrary: W s)
  case Nil
  then show ?case by simp
next
  case (Cons i xs)
  have 1: "eqon (W \<union> wr i) (f i s) t"
    using Cons.prems(2)[of i W s] Cons.prems(1) by simp
  have "eqon ((W \<union> wr i) \<union> (\<Union>k\<in>set xs. wr k)) (fold f xs (f i s)) t"
  proof (rule Cons.IH[OF 1])
    fix k s W'
    assume "k \<in> set xs" "W \<union> wr i \<subseteq> W'" "eqon W' s t"
    then show "eqon (W' \<union> wr k) (f k s) t"
      using Cons.prems(2)[of k W' s] by simp
  qed
  then show ?case by (simp add: Un_assoc)
qed

lemma fold2_eqon_fix:
  assumes 0: "eqon W s t"
    and step: "\<And>i k s W'. i \<in> set is \<Longrightarrow> k \<in> set ks \<Longrightarrow> W \<subseteq> W' \<Longrightarrow> eqon W' s t \<Longrightarrow>
             eqon (W' \<union> wr i k) (f i k s) t"
  shows "eqon (W \<union> (\<Union>i\<in>set is. \<Union>k\<in>set ks. wr i k)) (fold (\<lambda>i. fold (f i) ks) is s) t"
proof (rule fold_eqon_fix[OF 0])
  fix i s W'
  assume i: "i \<in> set is" and W: "W \<subseteq> W'" and e: "eqon W' s t"
  show "eqon (W' \<union> (\<Union>k\<in>set ks. wr i k)) (fold (f i) ks s) t"
  proof (rule fold_eqon_fix[OF e])
    fix k s W''
    assume "k \<in> set ks" "W' \<subseteq> W''" "eqon W'' s t"
    then show "eqon (W'' \<union> wr i k) (f i k s) t"
      using step[of i k W'' s] i W by simp
  qed
qed

lemma fold3_eqon_fix:
  assumes 0: "eqon W s t"
    and step: "\<And>i k l s W'. i \<in> set is \<Longrightarrow> k \<in> set ks \<Longrightarrow> l \<in> set ls \<Longrightarrow> W \<subseteq> W' \<Longrightarrow>
             eqon W' s t \<Longrightarrow> eqon (W' \<union> wr i k l) (f i k l s) t"
  shows "eqon (W \<union> (\<Union>i\<in>set is. \<Union>k\<in>set ks. \<Union>l\<in>set ls. wr i k l))
           (fold (\<lambda>i. fold (\<lambda>k. fold (f i k) ls) ks) is s) t"
proof (rule fold_eqon_fix[OF 0])
  fix i s W'
  assume i: "i \<in> set is" and W: "W \<subseteq> W'" and e: "eqon W' s t"
  show "eqon (W' \<union> (\<Union>k\<in>set ks. \<Union>l\<in>set ls. wr i k l)) (fold (\<lambda>k. fold (f i k) ls) ks s) t"
  proof (rule fold2_eqon_fix[OF e])
    fix k l s W''
    assume "k \<in> set ks" "l \<in> set ls" "W' \<subseteq> W''" "eqon W'' s t"
    then show "eqon (W'' \<union> wr i k l) (f i k l s) t"
      using step[of i k l W'' s] i W by simp
  qed
qed

lemma eqon_fix1: "eqon W s m \<Longrightarrow> m a = u \<Longrightarrow> eqon (W \<union> {a}) (s(a := u)) m"
  by (auto simp: eqon_def)

lemma eqon_fix2:
  "eqon W s m \<Longrightarrow> m a0 = u \<Longrightarrow> m a1 = v \<Longrightarrow> eqon (W \<union> {a0, a1}) (s(a0 := u, a1 := v)) m"
  by (auto simp: eqon_def)

lemma eqon_fix3:
  "eqon W s m \<Longrightarrow> m a0 = u \<Longrightarrow> m a1 = v \<Longrightarrow> m a2 = w \<Longrightarrow>
   eqon (W \<union> {a0, a1, a2}) (s(a0 := u, a1 := v, a2 := w)) m"
  by (auto simp: eqon_def)

lemma inj_idx3: "inj_on (\<lambda>(i, k, l). idx3 n m i k l) ({..<n} \<times> {..<m} \<times> {..<p})"
  by (auto simp: inj_on_def idx3_def radix_eq)

lemma idx2_less:
  assumes "i0 < n0" "i1 < n1"
  shows "idx2 n0 i0 i1 < n0 * n1"
  using radix_less[OF assms] by (simp add: idx2_def)

lemma idx3_less:
  assumes "i0 < n0" "i1 < n1" "i2 < n2"
  shows "idx3 n0 n1 i0 i1 i2 < n0 * n1 * n2"
  using radix_less[OF assms(1) radix_less[OF assms(2,3)]] by (simp add: idx3_def mult.assoc)

lemma tile_fun2: "\<exists>f :: buffer. \<forall>i<n0. \<forall>k<n1. f (idx2 n0 i k) = V i k"
proof -
  from ex_value_fun'[OF inj_idx2[of n0 n1], where V = "\<lambda>(i, k). V i k"]
  obtain f :: buffer where h: "\<forall>t\<in>{..<n0} \<times> {..<n1}.
      f ((\<lambda>(i, k). idx2 n0 i k) t) = (\<lambda>(i, k). V i k) t" ..
  have "f (idx2 n0 i k) = V i k" if "i < n0" "k < n1" for i k
    using bspec[OF h, of "(i, k)"] that by simp
  then show ?thesis by (intro exI[of _ f]) simp
qed

lemma tile_fun3: "\<exists>f :: buffer. \<forall>i<n0. \<forall>k<n1. \<forall>l<n2. f (idx3 n0 n1 i k l) = V i k l"
proof -
  from ex_value_fun'[OF inj_idx3[of n0 n1 n2], where V = "\<lambda>(i, k, l). V i k l"]
  obtain f :: buffer where h: "\<forall>t\<in>{..<n0} \<times> {..<n1} \<times> {..<n2}.
      f ((\<lambda>(i, k, l). idx3 n0 n1 i k l) t) = (\<lambda>(i, k, l). V i k l) t" ..
  have "f (idx3 n0 n1 i k l) = V i k l" if "i < n0" "k < n1" "l < n2" for i k l
    using bspec[OF h, of "(i, k, l)"] that by simp
  then show ?thesis by (intro exI[of _ f]) simp
qed

lemma rows2:
  "\<exists>m :: buffer. (\<forall>i<n. m (tile n 0 i) = f0 i) \<and> (\<forall>i. m (tile n 1 i) = f1 i)"
  by (intro exI[of _ "\<lambda>a. if a < n then f0 a else f1 (a - n)"]) (simp add: tile_def)

lemma rows3:
  "\<exists>m :: buffer. (\<forall>i<n. m (tile n 0 i) = f0 i) \<and> (\<forall>i<n. m (tile n 1 i) = f1 i) \<and>
                 (\<forall>i. m (tile n 2 i) = f2 i)"
  by (intro exI[of _ "\<lambda>a. if a < n then f0 a else if a < 2 * n then f1 (a - n) else f2 (a - 2 * n)"])
     (simp add: tile_def)

lemma LoadBG3D_fit:
  assumes fit: "D1D * Q1D \<le> MQ1 * MD1" and dq: "d < D1D" "q < Q1D"
  shows "LoadBG3D MD1 MQ1 D1D Q1D b g BG (tile (MQ1 * MD1) 0 (idx2 D1D d q)) = b q d"
    and "LoadBG3D MD1 MQ1 D1D Q1D b g BG (tile (MQ1 * MD1) 1 (idx2 D1D d q)) = g q d"
proof -
  obtain f0 :: buffer where f0: "\<forall>d<D1D. \<forall>q<Q1D. f0 (idx2 D1D d q) = b q d"
    using tile_fun2[of D1D Q1D "\<lambda>d q. b q d"] ..
  obtain f1 :: buffer where f1: "\<forall>d<D1D. \<forall>q<Q1D. f1 (idx2 D1D d q) = g q d"
    using tile_fun2[of D1D Q1D "\<lambda>d q. g q d"] ..
  obtain m :: buffer where m: "\<forall>i<MQ1 * MD1. m (tile (MQ1 * MD1) 0 i) = f0 i"
      "\<forall>i. m (tile (MQ1 * MD1) 1 i) = f1 i"
    using rows2[of "MQ1 * MD1" f0 f1] by blast
  have m0: "m (tile (MQ1 * MD1) 0 (idx2 D1D d q)) = b q d" if "d < D1D" "q < Q1D" for d q
    using m(1) f0 idx2_less[OF that] fit that by simp
  have m1: "m (tile (MQ1 * MD1) 1 (idx2 D1D d q)) = g q d" if "d < D1D" "q < Q1D" for d q
    using m(2) f1 that by simp
  have e: "eqon ({} \<union> (\<Union>d\<in>set [0..<D1D]. \<Union>q\<in>set [0..<Q1D].
                 {tile (MQ1 * MD1) 0 (idx2 D1D d q), tile (MQ1 * MD1) 1 (idx2 D1D d q)}))
             (LoadBG3D MD1 MQ1 D1D Q1D b g BG) m"
    unfolding LoadBG3D_def
  proof (rule fold2_eqon_fix[OF eqon_empty])
    fix d q W' and s :: buffer
    assume "d \<in> set [0..<D1D]" "q \<in> set [0..<Q1D]" "eqon W' s m"
    then show "eqon (W' \<union> {tile (MQ1 * MD1) 0 (idx2 D1D d q), tile (MQ1 * MD1) 1 (idx2 D1D d q)})
                 (s(tile (MQ1 * MD1) 0 (idx2 D1D d q) := b q d,
                    tile (MQ1 * MD1) 1 (idx2 D1D d q) := g q d)) m"
      using m0[of d q] m1[of d q] by (intro eqon_fix2) simp_all
  qed
  show "LoadBG3D MD1 MQ1 D1D Q1D b g BG (tile (MQ1 * MD1) 0 (idx2 D1D d q)) = b q d"
    using eqon_UN2[OF e dq, of "tile (MQ1 * MD1) 0 (idx2 D1D d q)"] m0[OF dq] by simp
  show "LoadBG3D MD1 MQ1 D1D Q1D b g BG (tile (MQ1 * MD1) 1 (idx2 D1D d q)) = g q d"
    using eqon_UN2[OF e dq, of "tile (MQ1 * MD1) 1 (idx2 D1D d q)"] m1[OF dq] by simp
qed

lemma pass3D_fit:
  assumes fit: "D1D * D1D * Q1D \<le> cap" "D1D * Q1D * Q1D \<le> cap"
    and BG: "\<And>d q. d < D1D \<Longrightarrow> q < Q1D \<Longrightarrow>
               BG (tile n 0 (idx2 D1D d q)) = b q d \<and> BG (tile n 1 (idx2 D1D d q)) = g q d"
    and i: "dz < D1D" "qy < Q1D" "qx < Q1D"
  shows "snd (pass3D n cap D1D Q1D BG x e c s) (tile cap 0 (idx3 D1D Q1D dz qy qx)) =
           (\<Sum>dy<D1D. (\<Sum>dx<D1D. x dx dy dz c e * g qx dx) * b qy dy) \<and>
         snd (pass3D n cap D1D Q1D BG x e c s) (tile cap 1 (idx3 D1D Q1D dz qy qx)) =
           (\<Sum>dy<D1D. (\<Sum>dx<D1D. x dx dy dz c e * b qx dx) * g qy dy) \<and>
         snd (pass3D n cap D1D Q1D BG x e c s) (tile cap 2 (idx3 D1D Q1D dz qy qx)) =
           (\<Sum>dy<D1D. (\<Sum>dx<D1D. x dx dy dz c e * b qx dx) * b qy dy)"
proof -
  obtain s0 s1 where s: "s = (s0, s1)" by (cases s)
  define xb where "xb = (\<lambda>dz dy qx. \<Sum>dx<D1D. x dx dy dz c e * b qx dx)"
  define xg where "xg = (\<lambda>dz dy qx. \<Sum>dx<D1D. x dx dy dz c e * g qx dx)"
  obtain f0 :: buffer where f0: "\<forall>dz<D1D. \<forall>dy<D1D. \<forall>qx<Q1D. f0 (idx3 D1D D1D dz dy qx) = xb dz dy qx"
    using tile_fun3[of D1D D1D Q1D xb] ..
  obtain f1 :: buffer where f1: "\<forall>dz<D1D. \<forall>dy<D1D. \<forall>qx<Q1D. f1 (idx3 D1D D1D dz dy qx) = xg dz dy qx"
    using tile_fun3[of D1D D1D Q1D xg] ..
  obtain f2 :: buffer where f2: "\<forall>dx<D1D. \<forall>dy<D1D. \<forall>dz<D1D. f2 (idx3 D1D D1D dx dy dz) = x dx dy dz c e"
    using tile_fun3[of D1D D1D D1D "\<lambda>dx dy dz. x dx dy dz c e"] ..
  obtain m0 :: buffer where m0: "\<forall>i<cap. m0 (tile cap 0 i) = f0 i"
      "\<forall>i<cap. m0 (tile cap 1 i) = f1 i" "\<forall>i. m0 (tile cap 2 i) = f2 i"
    using rows3[of cap f0 f1 f2] by blast
  have mX: "m0 (tile cap 2 (idx3 D1D D1D dx dy dz)) = x dx dy dz c e"
    if "dx < D1D" "dy < D1D" "dz < D1D" for dx dy dz
    using m0(3) f2 that by simp
  have mD0: "m0 (tile cap 0 (idx3 D1D D1D dz dy qx)) = xb dz dy qx"
    if "dz < D1D" "dy < D1D" "qx < Q1D" for dz dy qx
    using m0(1) f0 idx3_less[OF that] fit(1) that by simp
  have mD1: "m0 (tile cap 1 (idx3 D1D D1D dz dy qx)) = xg dz dy qx"
    if "dz < D1D" "dy < D1D" "qx < Q1D" for dz dy qx
    using m0(2) f1 idx3_less[OF that] fit(1) that by simp
  let ?XW = "{} \<union> (\<Union>dz\<in>set [0..<D1D]. \<Union>dy\<in>set [0..<D1D]. \<Union>dx\<in>set [0..<D1D].
            {tile cap 2 (idx3 D1D D1D dx dy dz)})"
  have XW: "tile cap 2 (idx3 D1D D1D dx dy dz) \<in> ?XW" if "dx < D1D" "dy < D1D" "dz < D1D" for dx dy dz
    using that by (intro UnI2 UN_I[of dz] UN_I[of dy] UN_I[of dx]) simp_all
  define sx where "sx = LoadX3D e D1D c x cap s0"
  have 1: "eqon ?XW sx m0"
    unfolding sx_def LoadX3D_def
  proof (rule fold3_eqon_fix[OF eqon_empty])
    fix dz dy dx W' and s :: buffer
    assume "dz \<in> set [0..<D1D]" "dy \<in> set [0..<D1D]" "dx \<in> set [0..<D1D]" "eqon W' s m0"
    then show "eqon (W' \<union> {tile cap 2 (idx3 D1D D1D dx dy dz)})
                 (s(tile cap 2 (idx3 D1D D1D dx dy dz) := x dx dy dz c e)) m0"
      using mX[of dx dy dz] by (intro eqon_fix1) simp_all
  qed
  define sa where "sa = stage1_3D n cap D1D Q1D BG sx"
  have 2: "eqon (?XW \<union> (\<Union>dz\<in>set [0..<D1D]. \<Union>dy\<in>set [0..<D1D]. \<Union>qx\<in>set [0..<Q1D].
            {tile cap 0 (idx3 D1D D1D dz dy qx), tile cap 1 (idx3 D1D D1D dz dy qx)})) sa m0"
    unfolding sa_def stage1_3D_def
  proof (rule fold3_eqon_fix[OF 1])
    fix dz dy qx W' and s :: buffer
    assume i: "dz \<in> set [0..<D1D]" "dy \<in> set [0..<D1D]" "qx \<in> set [0..<Q1D]"
      and W: "?XW \<subseteq> W'" and e: "eqon W' s m0"
    have "fold (\<lambda>dx (u, v).
               let input = s (tile cap 2 (idx3 D1D D1D dx dy dz))
               in (u + input * BG (tile n 0 (idx2 D1D dx qx)),
                   v + input * BG (tile n 1 (idx2 D1D dx qx)))) [0..<D1D] (0, 0) =
          fold (\<lambda>dx (u, v). (u + x dx dy dz c e * b qx dx, v + x dx dy dz c e * g qx dx))
            [0..<D1D] (0, 0)"
    proof (rule fold_cong_state)
      fix dx and uv :: "real \<times> real"
      assume dx: "dx \<in> set [0..<D1D]"
      have "tile cap 2 (idx3 D1D D1D dx dy dz) \<in> W'" using W XW[of dx dy dz] dx i by auto
      then have "s (tile cap 2 (idx3 D1D D1D dx dy dz)) = x dx dy dz c e"
        using e mX[of dx dy dz] dx i by (simp add: eqon_def)
      then show "(case uv of (u, v) \<Rightarrow>
               let input = s (tile cap 2 (idx3 D1D D1D dx dy dz))
               in (u + input * BG (tile n 0 (idx2 D1D dx qx)),
                   v + input * BG (tile n 1 (idx2 D1D dx qx)))) =
            (case uv of (u, v) \<Rightarrow> (u + x dx dy dz c e * b qx dx, v + x dx dy dz c e * g qx dx))"
        using BG[of dx qx] dx i by (simp add: Let_def)
    qed
    also have "\<dots> = (xb dz dy qx, xg dz dy qx)"
      by (simp add: fold_sum2 xb_def xg_def)
    finally show "eqon (W' \<union> {tile cap 0 (idx3 D1D D1D dz dy qx), tile cap 1 (idx3 D1D D1D dz dy qx)})
       (let (u, v) = fold (\<lambda>dx (u, v).
               let input = s (tile cap 2 (idx3 D1D D1D dx dy dz))
               in (u + input * BG (tile n 0 (idx2 D1D dx qx)),
                   v + input * BG (tile n 1 (idx2 D1D dx qx)))) [0..<D1D] (0, 0)
        in s(tile cap 0 (idx3 D1D D1D dz dy qx) := u, tile cap 1 (idx3 D1D D1D dz dy qx) := v)) m0"
      using eqon_fix2[OF e mD0[of dz dy qx] mD1[of dz dy qx]] i by simp
  qed
  have sD0: "sa (tile cap 0 (idx3 D1D D1D dz dy qx)) = xb dz dy qx"
    and sD1: "sa (tile cap 1 (idx3 D1D D1D dz dy qx)) = xg dz dy qx"
    if "dz < D1D" "dy < D1D" "qx < Q1D" for dz dy qx
    using eqon_UN3[OF 2 that, of "tile cap 0 (idx3 D1D D1D dz dy qx)"]
      eqon_UN3[OF 2 that, of "tile cap 1 (idx3 D1D D1D dz dy qx)"] mD0[OF that] mD1[OF that]
    by simp_all
  define u where "u = (\<lambda>dz qy qx. \<Sum>dy<D1D. xg dz dy qx * b qy dy)"
  define v where "v = (\<lambda>dz qy qx. \<Sum>dy<D1D. xb dz dy qx * g qy dy)"
  define w where "w = (\<lambda>dz qy qx. \<Sum>dy<D1D. xb dz dy qx * b qy dy)"
  obtain h0 :: buffer where h0: "\<forall>dz<D1D. \<forall>qy<Q1D. \<forall>qx<Q1D. h0 (idx3 D1D Q1D dz qy qx) = u dz qy qx"
    using tile_fun3[of D1D Q1D Q1D u] ..
  obtain h1 :: buffer where h1: "\<forall>dz<D1D. \<forall>qy<Q1D. \<forall>qx<Q1D. h1 (idx3 D1D Q1D dz qy qx) = v dz qy qx"
    using tile_fun3[of D1D Q1D Q1D v] ..
  obtain h2 :: buffer where h2: "\<forall>dz<D1D. \<forall>qy<Q1D. \<forall>qx<Q1D. h2 (idx3 D1D Q1D dz qy qx) = w dz qy qx"
    using tile_fun3[of D1D Q1D Q1D w] ..
  obtain m1 :: buffer where m1: "\<forall>i<cap. m1 (tile cap 0 i) = h0 i"
      "\<forall>i<cap. m1 (tile cap 1 i) = h1 i" "\<forall>i. m1 (tile cap 2 i) = h2 i"
    using rows3[of cap h0 h1 h2] by blast
  have mQ: "m1 (tile cap 0 (idx3 D1D Q1D dz qy qx)) = u dz qy qx"
       "m1 (tile cap 1 (idx3 D1D Q1D dz qy qx)) = v dz qy qx"
       "m1 (tile cap 2 (idx3 D1D Q1D dz qy qx)) = w dz qy qx"
    if "dz < D1D" "qy < Q1D" "qx < Q1D" for dz qy qx
    using m1 h0 h1 h2 idx3_less[OF that] fit(2) that by simp_all
  have 3: "eqon ({} \<union> (\<Union>dz\<in>set [0..<D1D]. \<Union>qy\<in>set [0..<Q1D]. \<Union>qx\<in>set [0..<Q1D].
            {tile cap 0 (idx3 D1D Q1D dz qy qx), tile cap 1 (idx3 D1D Q1D dz qy qx),
             tile cap 2 (idx3 D1D Q1D dz qy qx)}))
          (stage2_3D n cap D1D Q1D BG sa s1) m1"
    unfolding stage2_3D_def
  proof (rule fold3_eqon_fix[OF eqon_empty])
    fix dz qy qx W' and s :: buffer
    assume i: "dz \<in> set [0..<D1D]" "qy \<in> set [0..<Q1D]" "qx \<in> set [0..<Q1D]"
      and e: "eqon W' s m1"
    have "fold (\<lambda>dy (u, v, w).
              (u + sa (tile cap 1 (idx3 D1D D1D dz dy qx)) * BG (tile n 0 (idx2 D1D dy qy)),
               v + sa (tile cap 0 (idx3 D1D D1D dz dy qx)) * BG (tile n 1 (idx2 D1D dy qy)),
               w + sa (tile cap 0 (idx3 D1D D1D dz dy qx)) * BG (tile n 0 (idx2 D1D dy qy))))
            [0..<D1D] (0, 0, 0) =
          fold (\<lambda>dy (u, v, w).
              (u + xg dz dy qx * b qy dy, v + xb dz dy qx * g qy dy, w + xb dz dy qx * b qy dy))
            [0..<D1D] (0, 0, 0)"
    proof (rule fold_cong_state)
      fix dy and uvw :: "real \<times> real \<times> real"
      assume dy: "dy \<in> set [0..<D1D]"
      show "(case uvw of (u, v, w) \<Rightarrow>
              (u + sa (tile cap 1 (idx3 D1D D1D dz dy qx)) * BG (tile n 0 (idx2 D1D dy qy)),
               v + sa (tile cap 0 (idx3 D1D D1D dz dy qx)) * BG (tile n 1 (idx2 D1D dy qy)),
               w + sa (tile cap 0 (idx3 D1D D1D dz dy qx)) * BG (tile n 0 (idx2 D1D dy qy)))) =
            (case uvw of (u, v, w) \<Rightarrow>
              (u + xg dz dy qx * b qy dy, v + xb dz dy qx * g qy dy, w + xb dz dy qx * b qy dy))"
        using BG[of dy qy] sD0[of dz dy qx] sD1[of dz dy qx] dy i by simp
    qed
    also have "\<dots> = (u dz qy qx, v dz qy qx, w dz qy qx)"
      by (simp add: fold_sum3 u_def v_def w_def)
    finally show "eqon (W' \<union> {tile cap 0 (idx3 D1D Q1D dz qy qx), tile cap 1 (idx3 D1D Q1D dz qy qx),
             tile cap 2 (idx3 D1D Q1D dz qy qx)})
       (let (u, v, w) = fold (\<lambda>dy (u, v, w).
              (u + sa (tile cap 1 (idx3 D1D D1D dz dy qx)) * BG (tile n 0 (idx2 D1D dy qy)),
               v + sa (tile cap 0 (idx3 D1D D1D dz dy qx)) * BG (tile n 1 (idx2 D1D dy qy)),
               w + sa (tile cap 0 (idx3 D1D D1D dz dy qx)) * BG (tile n 0 (idx2 D1D dy qy))))
            [0..<D1D] (0, 0, 0)
        in s(tile cap 0 (idx3 D1D Q1D dz qy qx) := u, tile cap 1 (idx3 D1D Q1D dz qy qx) := v,
             tile cap 2 (idx3 D1D Q1D dz qy qx) := w)) m1"
      using eqon_fix3[OF e mQ[of dz qy qx]] i by simp
  qed
  have "snd (pass3D n cap D1D Q1D BG x e c s) = stage2_3D n cap D1D Q1D BG sa s1"
    by (simp add: s pass3D_def Let_def sa_def sx_def)
  then show ?thesis
    using eqon_UN3[OF 3 i, of "tile cap 0 (idx3 D1D Q1D dz qy qx)"]
      eqon_UN3[OF 3 i, of "tile cap 1 (idx3 D1D Q1D dz qy qx)"]
      eqon_UN3[OF 3 i, of "tile cap 2 (idx3 D1D Q1D dz qy qx)"] mQ[OF i]
    by (simp add: u_def v_def w_def xb_def xg_def)
qed

lemma val3D_fit:
  assumes fit: "D1D * Q1D \<le> MQ1 * MD1" "D1D * D1D * Q1D \<le> MQ1 * MQ1 * MQ1"
      "D1D * Q1D * Q1D \<le> MQ1 * MQ1 * MQ1"
    and q: "qx < Q1D" "qy < Q1D" "qz < Q1D"
  shows "val3D P MD1 MQ1 D1D Q1D b g j x sm qx qy qz c e = uvw3D P b g j x D1D qx qy qz c e"
proof -
  define n where "n = MQ1 * MD1"
  define cap where "cap = MQ1 * MQ1 * MQ1"
  define BG where "BG = LoadBG3D MD1 MQ1 D1D Q1D b g (BG_3D sm)"
  define s where "s = fold (pass3D n cap D1D Q1D BG x e) [0..<c] (sm0_3D sm, sm1_3D sm)"
  define s1 where "s1 = snd (pass3D n cap D1D Q1D BG x e c s)"
  have BGv: "BG (tile n 0 (idx2 D1D d q)) = b q d \<and> BG (tile n 1 (idx2 D1D d q)) = g q d"
    if "d < D1D" "q < Q1D" for d q
    unfolding BG_def n_def using LoadBG3D_fit[OF fit(1) that] by simp
  have DQQ: "s1 (tile cap 0 (idx3 D1D Q1D dz qy qx)) =
           (\<Sum>dy<D1D. (\<Sum>dx<D1D. x dx dy dz c e * g qx dx) * b qy dy) \<and>
         s1 (tile cap 1 (idx3 D1D Q1D dz qy qx)) =
           (\<Sum>dy<D1D. (\<Sum>dx<D1D. x dx dy dz c e * b qx dx) * g qy dy) \<and>
         s1 (tile cap 2 (idx3 D1D Q1D dz qy qx)) =
           (\<Sum>dy<D1D. (\<Sum>dx<D1D. x dx dy dz c e * b qx dx) * b qy dy)"
    if "dz < D1D" for dz
    unfolding s1_def
    by (rule pass3D_fit[OF fit(2,3)[folded cap_def] BGv that q(2,1)])
  have "uvw_ref3D n cap D1D Q1D BG s1 qx qy qz =
        fold (\<lambda>dz (u, v, w).
          (u + (\<Sum>dy<D1D. (\<Sum>dx<D1D. x dx dy dz c e * g qx dx) * b qy dy) * b qz dz,
           v + (\<Sum>dy<D1D. (\<Sum>dx<D1D. x dx dy dz c e * b qx dx) * g qy dy) * b qz dz,
           w + (\<Sum>dy<D1D. (\<Sum>dx<D1D. x dx dy dz c e * b qx dx) * b qy dy) * g qz dz))
          [0..<D1D] (0, 0, 0)"
    unfolding uvw_ref3D_def
  proof (rule fold_cong_state)
    fix dz and uvw :: "real \<times> real \<times> real"
    assume dz: "dz \<in> set [0..<D1D]"
    show "(case uvw of (u, v, w) \<Rightarrow>
          (u + s1 (tile cap 0 (idx3 D1D Q1D dz qy qx)) * BG (tile n 0 (idx2 D1D dz qz)),
           v + s1 (tile cap 1 (idx3 D1D Q1D dz qy qx)) * BG (tile n 0 (idx2 D1D dz qz)),
           w + s1 (tile cap 2 (idx3 D1D Q1D dz qy qx)) * BG (tile n 1 (idx2 D1D dz qz)))) =
        (case uvw of (u, v, w) \<Rightarrow>
          (u + (\<Sum>dy<D1D. (\<Sum>dx<D1D. x dx dy dz c e * g qx dx) * b qy dy) * b qz dz,
           v + (\<Sum>dy<D1D. (\<Sum>dx<D1D. x dx dy dz c e * b qx dx) * g qy dy) * b qz dz,
           w + (\<Sum>dy<D1D. (\<Sum>dx<D1D. x dx dy dz c e * b qx dx) * b qy dy) * g qz dz))"
      using BGv[of dz qz] DQQ[of dz] dz q by simp
  qed
  also have "\<dots> = grad_ref3D b g x D1D qx qy qz c e"
    by (simp add: fold_sum3 grad_ref3D_def)
  finally have "uvw_ref3D n cap D1D Q1D BG s1 qx qy qz = grad_ref3D b g x D1D qx qy qz c e" .
  then show ?thesis
    by (simp add: val3D_def uvw3D_def Let_def n_def cap_def BG_def s_def s1_def)
qed

text \<open>
  Where the tiles do not fit, the kernel follows the address arithmetic of the source.
  With \<^verbatim>\<open>T_D1D = 2\<close> and \<^verbatim>\<open>T_Q1D = 1\<close> the rows of \<^verbatim>\<open>sm0\<close> and \<^verbatim>\<open>sm1\<close> have one entry,
  the tiles \<open>DDQ0\<close>, \<open>DDQ1\<close> and \<open>X\<close> share cells, and for the trilinear function
  \<open>2x + 3y + 7z\<close>, whose gradient is \<open>(2, 3, 7)\<close>, the kernel stores \<open>(23/4, 5/2, 13/2)\<close>.
\<close>

lemma upt2: "[0..<2] = [0, 1]"
  by (simp add: upt_rec)

lemma val3D_overlap:
  "val3D False 2 1 2 1 (Reshape2 (buf_of [1/2, 1/2]) 1 2) (Reshape2 (buf_of [-1, 1]) 1 2) j
     (Reshape5 (buf_of [0, 2, 3, 5, 7, 9, 10, 12]) 2 2 2 1 1) (smem3D_of (buf_of [])) 0 0 0 0 0 =
   (23 / 4, 5 / 2, 13 / 2)"
  by (simp add: val3D_def Let_def LoadBG3D_def pass3D_def LoadX3D_def stage1_3D_def stage2_3D_def
        uvw_ref3D_def tile_def idx2_def idx3_def idx5_def Reshape2_def Reshape5_def buf_of_def
        smem3D_of_def upt2)

lemma tiles_overlap_example:
  "Derivatives3D byNODES False 1 2 1 0 0 scratch3D 1 (buf_of [1/2, 1/2]) (buf_of [-1, 1]) (buf_of [])
     (buf_of [0, 2, 3, 5, 7, 9, 10, 12]) (buf_of []) 0 0 0 (yidx3D byNODES 1 1 0 0 0 0 0 0) = 23 / 4 \<and>
   Derivatives3D byNODES False 1 2 1 0 0 scratch3D 1 (buf_of [1/2, 1/2]) (buf_of [-1, 1]) (buf_of [])
     (buf_of [0, 2, 3, 5, 7, 9, 10, 12]) (buf_of []) 0 0 0 (yidx3D byNODES 1 1 0 0 0 0 1 0) = 5 / 2 \<and>
   Derivatives3D byNODES False 1 2 1 0 0 scratch3D 1 (buf_of [1/2, 1/2]) (buf_of [-1, 1]) (buf_of [])
     (buf_of [0, 2, 3, 5, 7, 9, 10, 12]) (buf_of []) 0 0 0 (yidx3D byNODES 1 1 0 0 0 0 2 0) = 13 / 2"
proof -
  have "forall3D byNODES False 2 1 2 1 1 (Reshape2 (buf_of [1/2, 1/2]) 1 2) (Reshape2 (buf_of [-1, 1]) 1 2)
          (Reshape6 (buf_of []) 1 1 1 3 3 1) (Reshape5 (buf_of [0, 2, 3, 5, 7, 9, 10, 12]) 2 2 2 1 1)
          scratch3D 1 (buf_of []) (yidx3D byNODES 1 1 0 0 0 0 d 0) =
        comp3 (23 / 4, 5 / 2, 13 / 2) d" if "d < 3" for d
    using forall3D_at[where e = 0 and NE = 1 and c = 0 and VDIM = 1 and qz = 0 and qy = 0
        and qx = 0 and ?Q1D.0 = 1 and d = d and L = byNODES and P = False and ?MD1.0 = 2
        and ?MQ1.0 = 1 and ?D1D.0 = 2 and b = "Reshape2 (buf_of [1/2, 1/2]) 1 2"
        and g = "Reshape2 (buf_of [-1, 1]) 1 2" and j = "Reshape6 (buf_of []) 1 1 1 3 3 1"
        and x = "Reshape5 (buf_of [0, 2, 3, 5, 7, 9, 10, 12]) 2 2 2 1 1" and sm = scratch3D
        and y = "buf_of []"] that
    by (simp add: val3D_overlap[unfolded One_nat_def] scratch3D_def)
  from this[of 0] this[of 1] this[of 2] show ?thesis
    by (simp add: Derivatives3D_def Let_def tsel_def comp3_def)
qed

section \<open>The stored values in closed form\<close>

text \<open>
  The closed forms against the specification's side: the factorised sums are the direct
  sums, the physical transform applies the transposed inverse or pseudo-inverse, the
  identity Jacobian changes nothing, and a constant field has derivative 0.
\<close>

lemma out_atI: "\<exists>y. r = Inr y \<and> y a = v \<Longrightarrow> out_at r a = Some v"
  by (auto simp: out_at_def)

lemma du1D_ref_nth:
  assumes "d < 3"
  shows "du1D False g j x sdim d1d q c e ! d = (if d = 0 then (\<Sum>k<d1d. g q k * x k c e) else 0)"
proof -
  from assms have "d = 0 \<or> d = 1 \<or> d = 2" by auto
  then show ?thesis by (auto simp: du1D_def du_ref1D_eq)
qed

lemma sum_swap2:
  fixes f :: "nat \<Rightarrow> nat \<Rightarrow> real"
  shows "(\<Sum>dy<D1D. (\<Sum>dx<D1D. f dx dy) * p dy) = (\<Sum>dx<D1D. \<Sum>dy<D1D. f dx dy * p dy)"
proof -
  have "(\<Sum>dy<D1D. (\<Sum>dx<D1D. f dx dy) * p dy) = (\<Sum>dy<D1D. \<Sum>dx<D1D. f dx dy * p dy)"
    by (simp add: sum_distrib_right)
  also have "\<dots> = (\<Sum>dx<D1D. \<Sum>dy<D1D. f dx dy * p dy)"
    by (rule sum.swap)
  finally show ?thesis .
qed

lemma sum_swap3:
  fixes f :: "nat \<Rightarrow> nat \<Rightarrow> nat \<Rightarrow> real"
  shows "(\<Sum>dz<D1D. (\<Sum>dy<D1D. (\<Sum>dx<D1D. f dx dy dz) * p dy) * r dz) =
         (\<Sum>dx<D1D. \<Sum>dy<D1D. \<Sum>dz<D1D. f dx dy dz * p dy * r dz)"
proof -
  have "(\<Sum>dz<D1D. (\<Sum>dy<D1D. (\<Sum>dx<D1D. f dx dy dz) * p dy) * r dz) =
        (\<Sum>dz<D1D. (\<Sum>dx<D1D. \<Sum>dy<D1D. f dx dy dz * p dy) * r dz)"
    by (simp only: sum_swap2)
  also have "\<dots> = (\<Sum>dx<D1D. \<Sum>dz<D1D. (\<Sum>dy<D1D. f dx dy dz * p dy) * r dz)"
    by (rule sum_swap2)
  also have "\<dots> = (\<Sum>dx<D1D. \<Sum>dy<D1D. \<Sum>dz<D1D. f dx dy dz * p dy * r dz)"
    by (simp only: sum_swap2)
  finally show ?thesis .
qed

lemma grad_ref2D_direct:
  assumes "d < 2"
  shows "grad_ref2D b g x D1D qx qy c e ! d =
         direct2D (\<lambda>d q. b q d) (\<lambda>d q. g q d) (\<lambda>dx dy. x dx dy c e) D1D qx qy d"
proof -
  from assms have "d = 0 \<or> d = 1" by auto
  then show ?thesis
    unfolding grad_ref2D_def direct2D_def sum_swap2
    by (auto simp: mult_ac)
qed

lemma grad_ref3D_direct:
  assumes "d < 3"
  shows "comp3 (grad_ref3D b g x D1D qx qy qz c e) d =
         direct3D (\<lambda>d q. b q d) (\<lambda>d q. g q d) (\<lambda>dx dy dz. x dx dy dz c e) D1D qx qy qz d"
proof -
  from assms have "d = 0 \<or> d = 1 \<or> d = 2" by auto
  then show ?thesis
    unfolding grad_ref3D_def direct3D_def comp3_def sum_swap3
    by (auto simp: mult_ac)
qed

lemma lessThan_2: "{..<2::nat} = {0, 1}"
  by auto

lemma lessThan_3: "{..<3::nat} = {0, 1, 2}"
  by auto

lemma inverse2_left_inverse:
  assumes "det2 M \<noteq> 0" "r < 2" "c < 2"
  shows "mat_mul 2 (inverse2 M) M r c = (if r = c then 1 else 0)"
proof -
  define D where "D = det2 M"
  have D: "M 0 0 * M 1 1 - M 0 1 * M 1 0 = D" by (simp add: D_def det2_def)
  have nz: "D \<noteq> 0" using assms(1) by (simp add: D_def)
  have inv: "inverse2 M r c = (if r = c then M (1 - r) (1 - c) else - M r c) / D" for r c
    by (simp add: inverse2_def D_def)
  have 1: "M 1 1 / D * M 0 0 + - M 0 1 / D * M 1 0 = 1"
  proof -
    have "M 1 1 / D * M 0 0 + - M 0 1 / D * M 1 0 = (M 0 0 * M 1 1 - M 0 1 * M 1 0) / D"
      by (simp add: diff_divide_distrib mult.commute)
    then show ?thesis using nz D by simp
  qed
  have 2: "M 1 1 / D * M 0 1 + - M 0 1 / D * M 1 1 = 0"
    by (simp add: mult.commute)
  have 3: "- M 1 0 / D * M 0 0 + M 0 0 / D * M 1 0 = 0"
    by (simp add: mult.commute)
  have 4: "- M 1 0 / D * M 0 1 + M 0 0 / D * M 1 1 = 1"
  proof -
    have "- M 1 0 / D * M 0 1 + M 0 0 / D * M 1 1 = (M 0 0 * M 1 1 - M 0 1 * M 1 0) / D"
      by (simp add: diff_divide_distrib mult.commute)
    then show ?thesis using nz D by simp
  qed
  from assms(2,3) have "(r = 0 \<or> r = 1) \<and> (c = 0 \<or> c = 1)" by auto
  then show ?thesis
    using 1 2 3 4 by (auto simp: mat_mul_def lessThan_2 inv)
qed

lemma phys2D_sdim2:
  assumes "k < 2"
  shows "phys2D j 2 qx qy e [u0, u1, u2] ! k =
         mat_vec 2 (transpose_mat (inverse2 (\<lambda>r c. j qx qy r c e))) (\<lambda>i. [u0, u1, u2] ! i) k"
proof -
  define D where "D = j qx qy 0 0 e * j qx qy 1 1 e - j qx qy 1 0 e * j qx qy 0 1 e"
  have D: "det2 (\<lambda>r c. j qx qy r c e) = D" by (simp add: D_def det2_def mult.commute)
  have C: "CalcInverse_2 [j qx qy 0 0 e, j qx qy 1 0 e, j qx qy 0 1 e, j qx qy 1 1 e] =
           [j qx qy 1 1 e / D, - j qx qy 1 0 e / D, - j qx qy 0 1 e / D, j qx qy 0 0 e / D]"
    by (simp add: CalcInverse_2_def D_def)
  from assms have "k = 0 \<or> k = 1" by auto
  then show ?thesis
    by (auto simp: phys2D_def C[unfolded One_nat_def] mat_vec_def transpose_mat_def inverse2_def
          D[unfolded One_nat_def] lessThan_2 Let_def)
qed


lemma phys2D_sdim3:
  assumes "k < 3"
  shows "phys2D j 3 qx qy e [u0, u1, u2] ! k =
         mat_vec 2 (transpose_mat (pinv32 (\<lambda>r c. j qx qy r c e))) (\<lambda>i. [u0, u1, u2] ! i) k"
proof -
  define J where "J = (\<lambda>r c. j qx qy r c e)"
  define E where "E = J 0 0 * J 0 0 + J 1 0 * J 1 0 + J 2 0 * J 2 0"
  define G where "G = J 0 1 * J 0 1 + J 1 1 * J 1 1 + J 2 1 * J 2 1"
  define F where "F = J 0 0 * J 0 1 + J 1 0 * J 1 1 + J 2 0 * J 2 1"
  define D where "D = E * G - F * F"
  have gram: "mat_mul 3 (transpose_mat J) J 0 0 = E" "mat_mul 3 (transpose_mat J) J 1 1 = G"
    "mat_mul 3 (transpose_mat J) J 0 1 = F" "mat_mul 3 (transpose_mat J) J 1 0 = F"
    by (simp_all add: mat_mul_def transpose_mat_def lessThan_3 E_def G_def F_def mult.commute)
  have det: "det2 (mat_mul 3 (transpose_mat J) J) = D"
    by (simp add: det2_def gram[unfolded One_nat_def] D_def)
  have C: "CalcLeftInverse_3_2 [J 0 0, J 1 0, J 2 0, J 0 1, J 1 1, J 2 1] =
       [(J 0 0 * G - J 0 1 * F) / D, (J 0 1 * E - J 0 0 * F) / D,
        (J 1 0 * G - J 1 1 * F) / D, (J 1 1 * E - J 1 0 * F) / D,
        (J 2 0 * G - J 2 1 * F) / D, (J 2 1 * E - J 2 0 * F) / D]"
    by (simp add: CalcLeftInverse_3_2_def Let_def E_def G_def F_def D_def)
  have P: "pinv32 J r c = (inverse2 (mat_mul 3 (transpose_mat J) J) r 0 * J c 0
                         + inverse2 (mat_mul 3 (transpose_mat J) J) r 1 * J c 1)" for r c
    by (simp add: pinv32_def mat_mul_def[of 2] transpose_mat_def lessThan_2)
  have I: "inverse2 (mat_mul 3 (transpose_mat J) J) 0 0 = G / D"
          "inverse2 (mat_mul 3 (transpose_mat J) J) 0 1 = - F / D"
          "inverse2 (mat_mul 3 (transpose_mat J) J) 1 0 = - F / D"
          "inverse2 (mat_mul 3 (transpose_mat J) J) 1 1 = E / D"
    by (simp_all add: inverse2_def det gram[unfolded One_nat_def])
  have ph: "phys2D j 3 qx qy e [u0, u1, u2] =
        (let Jinv = CalcLeftInverse_3_2 [J 0 0, J 1 0, J 2 0, J 0 1, J 1 1, J 2 1]
         in [Jinv ! 0 * u0 + Jinv ! 1 * u1, Jinv ! 2 * u0 + Jinv ! 3 * u1,
             Jinv ! 4 * u0 + Jinv ! 5 * u1])"
    by (simp add: phys2D_def Let_def J_def)
  from assms have "k = 0 \<or> k = 1 \<or> k = 2" by auto
  then show ?thesis
    unfolding ph C J_def[symmetric]
    by (auto simp: mat_vec_def transpose_mat_def lessThan_2 P
          I[unfolded transpose_mat_def One_nat_def]
          diff_divide_distrib add_divide_distrib mult.commute)
qed

text \<open>
  The matrices of the specification's side are what their names say: \<open>inverse2\<close> and
  \<open>pinv32\<close> are left inverses, and the determinant of \<open>J\<^sup>T J\<close> is the sum of the squares of
  the 2 x 2 minors of \<open>J\<close>, so it is not 0 exactly when \<open>J\<close> has full column rank.
\<close>

lemma pinv32_left_inverse:
  assumes "det2 (mat_mul 3 (transpose_mat J) J) \<noteq> 0" "r < 2" "c < 2"
  shows "mat_mul 3 (pinv32 J) J r c = (if r = c then 1 else 0)"
proof -
  define N where "N = inverse2 (mat_mul 3 (transpose_mat J) J)"
  have P: "pinv32 J r k = N r 0 * J k 0 + N r 1 * J k 1" for r k
    by (simp add: pinv32_def mat_mul_def[of 2] transpose_mat_def lessThan_2 N_def)
  have G: "mat_mul 3 (transpose_mat J) J m c = J 0 m * J 0 c + J 1 m * J 1 c + J 2 m * J 2 c" for m c
    by (simp add: mat_mul_def transpose_mat_def lessThan_3)
  have "mat_mul 3 (pinv32 J) J r c = 
        N r 0 * mat_mul 3 (transpose_mat J) J 0 c + N r 1 * mat_mul 3 (transpose_mat J) J 1 c"
    unfolding G by (simp add: mat_mul_def[of 3] lessThan_3 P algebra_simps)
  also have "\<dots> = mat_mul 2 N (mat_mul 3 (transpose_mat J) J) r c"
    by (simp add: mat_mul_def[of 2] lessThan_2)
  finally show ?thesis using inverse2_left_inverse[OF assms] by (simp add: N_def)
qed

lemma gram_det_minors:
  "det2 (mat_mul 3 (transpose_mat J) J) =
     (J 0 0 * J 1 1 - J 1 0 * J 0 1)\<^sup>2 + (J 0 0 * J 2 1 - J 2 0 * J 0 1)\<^sup>2
     + (J 1 0 * J 2 1 - J 2 0 * J 1 1)\<^sup>2"
  by (simp add: det2_def mat_mul_def transpose_mat_def lessThan_3 power2_eq_square algebra_simps)

lemma du1D_identity:
  assumes "j q 0 e = 1"
  shows "du1D True g j x 1 d1d q c e = du1D False g j x 1 d1d q c e"
  using assms by (simp add: du1D_def phys1D_def du_ref1D_eq)

lemma du2D_identity:
  assumes "j qx qy 0 0 e = 1" "j qx qy 1 0 e = 0" "j qx qy 0 1 e = 0" "j qx qy 1 1 e = 1"
  shows "du2D True b g j x D1D 2 qx qy c e = du2D False b g j x D1D 2 qx qy c e"
  using assms by (simp add: du2D_def phys2D_def grad_ref2D_def CalcInverse_2_def)

lemma phys3D_identity:
  assumes "\<And>r k. r < 3 \<Longrightarrow> k < 3 \<Longrightarrow> j qx qy qz r k e = (if r = k then 1 else 0)"
  shows "phys3D j qx qy qz e uvw = uvw"
proof -
  have "j qx qy qz 0 0 e = 1" "j qx qy qz 1 0 e = 0" "j qx qy qz 2 0 e = 0"
       "j qx qy qz 0 1 e = 0" "j qx qy qz 1 1 e = 1" "j qx qy qz 2 1 e = 0"
       "j qx qy qz 0 2 e = 0" "j qx qy qz 1 2 e = 0" "j qx qy qz 2 2 e = 1"
    by (simp_all add: assms)
  then show ?thesis
    by (cases uvw) (simp add: phys3D_def CalcInverse_3_def)
qed

lemma val3D_identity:
  assumes "\<And>r k. r < 3 \<Longrightarrow> k < 3 \<Longrightarrow> j qx qy qz r k e = (if r = k then 1 else 0)"
  shows "val3D True MD1 MQ1 D1D Q1D b g j x sm qx qy qz c e =
         val3D False MD1 MQ1 D1D Q1D b g j x sm qx qy qz c e"
proof -
  have "phys3D j qx qy qz e uvw = uvw" for uvw
    by (rule phys3D_identity) (rule assms)
  then show ?thesis by (simp add: val3D_def Let_def)
qed

lemma mat_vec_cong: "(\<And>i. i < n \<Longrightarrow> v i = w i) \<Longrightarrow> mat_vec n A v = mat_vec n A w"
  by (simp add: mat_vec_def)

lemma du2D_phys_sdim2:
  assumes "k < 2"
  shows "du2D True b g j x D1D 2 qx qy c e ! k =
         mat_vec 2 (transpose_mat (inverse2 (\<lambda>r c. j qx qy r c e)))
           (direct2D (\<lambda>d q. b q d) (\<lambda>d q. g q d) (\<lambda>dx dy. x dx dy c e) D1D qx qy) k"
proof -
  have "mat_vec 2 (transpose_mat (inverse2 (\<lambda>r c. j qx qy r c e)))
          (\<lambda>i. grad_ref2D b g x D1D qx qy c e ! i) =
        mat_vec 2 (transpose_mat (inverse2 (\<lambda>r c. j qx qy r c e)))
          (direct2D (\<lambda>d q. b q d) (\<lambda>d q. g q d) (\<lambda>dx dy. x dx dy c e) D1D qx qy)"
    by (intro mat_vec_cong grad_ref2D_direct)
  then show ?thesis
    using phys2D_sdim2[OF assms, of j qx qy e] by (simp add: du2D_def grad_ref2D_def)
qed

lemma du2D_phys_sdim3:
  assumes "k < 3"
  shows "du2D True b g j x D1D 3 qx qy c e ! k =
         mat_vec 2 (transpose_mat (pinv32 (\<lambda>r c. j qx qy r c e)))
           (direct2D (\<lambda>d q. b q d) (\<lambda>d q. g q d) (\<lambda>dx dy. x dx dy c e) D1D qx qy) k"
proof -
  have "mat_vec 2 (transpose_mat (pinv32 (\<lambda>r c. j qx qy r c e)))
          (\<lambda>i. grad_ref2D b g x D1D qx qy c e ! i) =
        mat_vec 2 (transpose_mat (pinv32 (\<lambda>r c. j qx qy r c e)))
          (direct2D (\<lambda>d q. b q d) (\<lambda>d q. g q d) (\<lambda>dx dy. x dx dy c e) D1D qx qy)"
    by (intro mat_vec_cong grad_ref2D_direct)
  then show ?thesis
    using phys2D_sdim3[OF assms, of j qx qy e] by (simp add: du2D_def grad_ref2D_def)
qed

lemma Derivatives1D_out:
  assumes "sdim \<le> 3" "e < NE" "c < vdim" "q < q1d" "d < sdim"
  shows "out_at (Derivatives1D L P NE g_buf j_buf x_buf y_buf sdim vdim d1d q1d)
           (yidx1D L q1d vdim sdim q c d e) =
         Some (du1D P (Reshape2 g_buf q1d d1d) (Reshape3 j_buf q1d sdim NE)
                 (Reshape3 x_buf d1d vdim NE) sdim d1d q c e ! d)"
  by (intro out_atI Derivatives1D_at assms)

lemma Derivatives1D_out_frame:
  assumes "sdim \<le> 3" "q1d * vdim * sdim * NE \<le> a"
  shows "out_at (Derivatives1D L P NE g_buf j_buf x_buf y_buf sdim vdim d1d q1d) a = Some (y_buf a)"
  by (intro out_atI Derivatives1D_frame assms)

lemma Derivatives2D_at:
  assumes "D1D = tsel T_D1D d1d" "Q1D = tsel T_Q1D q1d" "VDIM = tsel T_VDIM vdim"
    and "SDIM = (if P then sdim else 2)" "SDIM \<le> 3"
    and "e < NE" "c < VDIM" "qx < Q1D" "qy < Q1D" "d < SDIM"
  shows "out_at (Derivatives2D L P T_VDIM T_D1D T_Q1D sm NE b_buf g_buf j_buf x_buf y_buf
                   sdim vdim d1d q1d) (yidx2D L Q1D VDIM SDIM qx qy c d e) =
         Some (du2D P (Reshape2 b_buf Q1D D1D) (Reshape2 g_buf Q1D D1D)
                 (Reshape5 j_buf Q1D Q1D SDIM 2 NE) (Reshape4 x_buf D1D D1D VDIM NE)
                 D1D SDIM qx qy c e ! d)"
  using forall2D_at[OF assms(5,6,7,9,8,10), of L P D1D "Reshape2 b_buf Q1D D1D"
      "Reshape2 g_buf Q1D D1D" "Reshape5 j_buf Q1D Q1D SDIM 2 NE" "Reshape4 x_buf D1D D1D VDIM NE"
      sm y_buf]
  unfolding Derivatives2D_def Let_def assms(1-4)[symmetric]
  by (rule out_atI)

lemma Derivatives2D_out_frame:
  assumes "Q1D = tsel T_Q1D q1d" "VDIM = tsel T_VDIM vdim"
    and "SDIM = (if P then sdim else 2)" "SDIM \<le> 3"
    and "Q1D * Q1D * VDIM * SDIM * NE \<le> a"
  shows "out_at (Derivatives2D L P T_VDIM T_D1D T_Q1D sm NE b_buf g_buf j_buf x_buf y_buf
                   sdim vdim d1d q1d) a = Some (y_buf a)"
  using forall2D_frame[OF assms(4,5), of L P "tsel T_D1D d1d"
      "Reshape2 b_buf Q1D (tsel T_D1D d1d)" "Reshape2 g_buf Q1D (tsel T_D1D d1d)"
      "Reshape5 j_buf Q1D Q1D SDIM 2 NE"
      "Reshape4 x_buf (tsel T_D1D d1d) (tsel T_D1D d1d) VDIM NE" sm y_buf]
  unfolding Derivatives2D_def Let_def assms(1-3)[symmetric]
  by (rule out_atI)

lemma Derivatives3D_at:
  assumes "D1D = tsel T_D1D d1d" "Q1D = tsel T_Q1D q1d" "VDIM = tsel T_VDIM vdim"
    and "MD1 = tsel T_D1D MAX_D1D" "MQ1 = tsel T_Q1D MAX_Q1D"
    and "e < NE" "c < VDIM" "qx < Q1D" "qy < Q1D" "qz < Q1D" "d < 3"
  shows "Derivatives3D L P T_VDIM T_D1D T_Q1D MAX_D1D MAX_Q1D sm NE b_buf g_buf j_buf x_buf y_buf
           vdim d1d q1d (yidx3D L Q1D VDIM qx qy qz c d e) =
         comp3 (val3D P MD1 MQ1 D1D Q1D (Reshape2 b_buf Q1D D1D) (Reshape2 g_buf Q1D D1D)
                  (Reshape6 j_buf Q1D Q1D Q1D 3 3 NE) (Reshape5 x_buf D1D D1D D1D VDIM NE)
                  (sm e) qx qy qz c e) d"
  unfolding Derivatives3D_def Let_def assms(1-5)[symmetric]
  by (intro forall3D_at assms)

lemma Derivatives3D_at_fit:
  assumes "D1D = tsel T_D1D d1d" "Q1D = tsel T_Q1D q1d" "VDIM = tsel T_VDIM vdim"
    and "MD1 = tsel T_D1D MAX_D1D" "MQ1 = tsel T_Q1D MAX_Q1D"
    and "e < NE" "c < VDIM" "qx < Q1D" "qy < Q1D" "qz < Q1D" "d < 3"
    and fit: "tiles_fit MD1 MQ1 D1D Q1D"
  shows "Derivatives3D L P T_VDIM T_D1D T_Q1D MAX_D1D MAX_Q1D sm NE b_buf g_buf j_buf x_buf y_buf
           vdim d1d q1d (yidx3D L Q1D VDIM qx qy qz c d e) =
         comp3 (uvw3D P (Reshape2 b_buf Q1D D1D) (Reshape2 g_buf Q1D D1D)
                  (Reshape6 j_buf Q1D Q1D Q1D 3 3 NE) (Reshape5 x_buf D1D D1D D1D VDIM NE)
                  D1D qx qy qz c e) d"
proof -
  have "val3D P MD1 MQ1 D1D Q1D (Reshape2 b_buf Q1D D1D) (Reshape2 g_buf Q1D D1D)
          (Reshape6 j_buf Q1D Q1D Q1D 3 3 NE) (Reshape5 x_buf D1D D1D D1D VDIM NE)
          (sm e) qx qy qz c e =
        uvw3D P (Reshape2 b_buf Q1D D1D) (Reshape2 g_buf Q1D D1D)
          (Reshape6 j_buf Q1D Q1D Q1D 3 3 NE) (Reshape5 x_buf D1D D1D D1D VDIM NE)
          D1D qx qy qz c e"
    using fit assms(8-10) by (intro val3D_fit) (simp_all add: tiles_fit_def)
  then show ?thesis using Derivatives3D_at[OF assms(1-11)] by simp
qed

lemma Derivatives3D_out_frame:
  assumes "Q1D = tsel T_Q1D q1d" "VDIM = tsel T_VDIM vdim"
    and "Q1D * Q1D * Q1D * VDIM * 3 * NE \<le> a"
  shows "Derivatives3D L P T_VDIM T_D1D T_Q1D MAX_D1D MAX_Q1D sm NE b_buf g_buf j_buf x_buf y_buf
           vdim d1d q1d a = y_buf a"
  unfolding Derivatives3D_def Let_def assms(1-2)[symmetric]
  by (intro forall3D_frame assms)

lemma const_sum:
  fixes f :: "nat \<Rightarrow> real"
  assumes "\<And>i. i < n \<Longrightarrow> f i = k"
  shows "(\<Sum>i<n. f i * w i) = k * (\<Sum>i<n. w i)"
proof -
  have "(\<Sum>i<n. f i * w i) = (\<Sum>i<n. k * w i)" by (intro sum.cong) (simp_all add: assms)
  then show ?thesis by (simp add: sum_distrib_left)
qed

lemma du1D_const:
  assumes "\<And>k. k < d1d \<Longrightarrow> x k c e = kk" "(\<Sum>k<d1d. g q k) = 0" "d < 3"
  shows "du1D False g j x sdim d1d q c e ! d = 0"
proof -
  have "(\<Sum>k<d1d. g q k * x k c e) = (\<Sum>k<d1d. x k c e * g q k)" by (simp add: mult.commute)
  also have "\<dots> = kk * (\<Sum>k<d1d. g q k)" by (intro const_sum assms)
  finally show ?thesis using assms(2,3) by (simp add: du1D_ref_nth)
qed

lemma grad_ref2D_const:
  assumes x: "\<And>dx dy. dx < D1D \<Longrightarrow> dy < D1D \<Longrightarrow> x dx dy c e = kk"
    and g: "(\<Sum>k<D1D. g qx k) = 0" "(\<Sum>k<D1D. g qy k) = 0" and d: "d < 3"
  shows "grad_ref2D b g x D1D qx qy c e ! d = 0"
proof -
  have in0: "(\<Sum>dx<D1D. x dx dy c e * g qx dx) = 0" if "dy < D1D" for dy
    using const_sum[of D1D "\<lambda>dx. x dx dy c e" kk "g qx"] x that g by simp
  have in1: "(\<Sum>dx<D1D. x dx dy c e * b qx dx) = kk * (\<Sum>dx<D1D. b qx dx)" if "dy < D1D" for dy
    using const_sum[of D1D "\<lambda>dx. x dx dy c e" kk "b qx"] x that by simp
  have 0: "(\<Sum>dy<D1D. (\<Sum>dx<D1D. x dx dy c e * g qx dx) * b qy dy) = 0"
    using const_sum[of D1D "\<lambda>dy. \<Sum>dx<D1D. x dx dy c e * g qx dx" 0 "b qy"] in0 by simp
  have 1: "(\<Sum>dy<D1D. (\<Sum>dx<D1D. x dx dy c e * b qx dx) * g qy dy) = 0"
    using const_sum[of D1D "\<lambda>dy. \<Sum>dx<D1D. x dx dy c e * b qx dx" "kk * (\<Sum>dx<D1D. b qx dx)" "g qy"]
      in1 g by simp
  from d have "d = 0 \<or> d = 1 \<or> d = 2" by auto
  then show ?thesis by (auto simp: grad_ref2D_def 0 1)
qed

lemma grad_ref3D_const:
  assumes x: "\<And>dx dy dz. dx < D1D \<Longrightarrow> dy < D1D \<Longrightarrow> dz < D1D \<Longrightarrow> x dx dy dz c e = kk"
    and g: "(\<Sum>k<D1D. g qx k) = 0" "(\<Sum>k<D1D. g qy k) = 0" "(\<Sum>k<D1D. g qz k) = 0"
  shows "comp3 (grad_ref3D b g x D1D qx qy qz c e) d = 0"
proof -
  have xg: "(\<Sum>dx<D1D. x dx dy dz c e * g qx dx) = 0" if "dy < D1D" "dz < D1D" for dy dz
    using const_sum[of D1D "\<lambda>dx. x dx dy dz c e" kk "g qx"] x that g by simp
  have xb: "(\<Sum>dx<D1D. x dx dy dz c e * b qx dx) = kk * (\<Sum>dx<D1D. b qx dx)"
    if "dy < D1D" "dz < D1D" for dy dz
    using const_sum[of D1D "\<lambda>dx. x dx dy dz c e" kk "b qx"] x that by simp
  have u1: "(\<Sum>dy<D1D. (\<Sum>dx<D1D. x dx dy dz c e * g qx dx) * b qy dy) = 0" if "dz < D1D" for dz
    using const_sum[of D1D "\<lambda>dy. \<Sum>dx<D1D. x dx dy dz c e * g qx dx" 0 "b qy"] xg that by simp
  have v1: "(\<Sum>dy<D1D. (\<Sum>dx<D1D. x dx dy dz c e * b qx dx) * g qy dy) = 0" if "dz < D1D" for dz
    using const_sum[of D1D "\<lambda>dy. \<Sum>dx<D1D. x dx dy dz c e * b qx dx"
        "kk * (\<Sum>dx<D1D. b qx dx)" "g qy"] xb that g by simp
  have w1: "(\<Sum>dy<D1D. (\<Sum>dx<D1D. x dx dy dz c e * b qx dx) * b qy dy) =
            kk * (\<Sum>dx<D1D. b qx dx) * (\<Sum>dy<D1D. b qy dy)" if "dz < D1D" for dz
    using const_sum[of D1D "\<lambda>dy. \<Sum>dx<D1D. x dx dy dz c e * b qx dx"
        "kk * (\<Sum>dx<D1D. b qx dx)" "b qy"] xb that by simp
  have u: "(\<Sum>dz<D1D. (\<Sum>dy<D1D. (\<Sum>dx<D1D. x dx dy dz c e * g qx dx) * b qy dy) * b qz dz) = 0"
    using const_sum[of D1D "\<lambda>dz. \<Sum>dy<D1D. (\<Sum>dx<D1D. x dx dy dz c e * g qx dx) * b qy dy" 0 "b qz"]
      u1 by simp
  have v: "(\<Sum>dz<D1D. (\<Sum>dy<D1D. (\<Sum>dx<D1D. x dx dy dz c e * b qx dx) * g qy dy) * b qz dz) = 0"
    using const_sum[of D1D "\<lambda>dz. \<Sum>dy<D1D. (\<Sum>dx<D1D. x dx dy dz c e * b qx dx) * g qy dy" 0 "b qz"]
      v1 by simp
  have w: "(\<Sum>dz<D1D. (\<Sum>dy<D1D. (\<Sum>dx<D1D. x dx dy dz c e * b qx dx) * b qy dy) * g qz dz) = 0"
    using const_sum[of D1D "\<lambda>dz. \<Sum>dy<D1D. (\<Sum>dx<D1D. x dx dy dz c e * b qx dx) * b qy dy"
        "kk * (\<Sum>dx<D1D. b qx dx) * (\<Sum>dy<D1D. b qy dy)" "g qz"] w1 g by simp
  show ?thesis by (simp add: grad_ref3D_def comp3_def u v w)
qed


text \<open>
  Rounding to double precision, evaluated: a number whose absolute value lies between
  \<open>2\<^sup>k\<close> and \<open>2\<^sup>k\<^sup>+\<^sup>1\<close> is rounded to a multiple of \<open>2\<^sup>k\<^sup>-\<^sup>5\<^sup>2\<close>. Between \<open>2\<^sup>5\<^sup>3\<close> and \<open>2\<^sup>5\<^sup>4\<close>
  the doubles are the even integers, so \<open>10\<^sup>1\<^sup>6 + 1\<close> is a tie and goes to \<open>10\<^sup>1\<^sup>6\<close>.
\<close>

lemma round_double_eval:
  assumes "2 powr of_int k \<le> \<bar>x\<bar>" "\<bar>x\<bar> < 2 powr (of_int k + 1)"
  shows "round_double x = of_int (round_even (x / 2 powr of_int (k - 52))) * 2 powr of_int (k - 52)"
proof -
  have "0 < \<bar>x\<bar>" using assms(1) by (smt (verit) powr_gt_zero)
  then have "\<lfloor>log 2 \<bar>x\<bar>\<rfloor> = k" using assms by (simp add: floor_log_eq_powr_iff)
  moreover have "x \<noteq> 0" using \<open>0 < \<bar>x\<bar>\<close> by simp
  ultimately show ?thesis by (simp add: round_double_def Let_def)
qed

lemma rd_big: "round_double 10000000000000000 = 10000000000000000"
  using round_double_eval[of 53 10000000000000000] by (simp add: round_even_def Let_def)

lemma rd_nbig: "round_double (- 10000000000000000) = - 10000000000000000"
  using round_double_eval[of 53 "- 10000000000000000"] by (simp add: round_even_def Let_def)

lemma rd_tie: "round_double 10000000000000001 = 10000000000000000"
  using round_double_eval[of 53 10000000000000001] by (simp add: round_even_def Let_def)

lemma rd_one: "round_double 1 = 1"
  using round_double_eval[of 0 1] by (simp add: round_even_def Let_def powr_minus_divide)

lemma rd_none: "round_double (- 1) = - 1"
  using round_double_eval[of 0 "- 1"] by (simp add: round_even_def Let_def powr_minus_divide)

lemma rd_zero: "round_double 0 = 0"
  by (simp add: round_double_def)

lemma upt4: "[0..<4] = [0, 1, 2, 3]"
  by (simp add: upt_rec)

lemma du_ref1D_double_example:
  "du_ref1D_double (Reshape2 (buf_of [10000000000000000, 1, - 10000000000000000, - 1]) 1 4)
     (Reshape3 (buf_of [1, 1, 1, 1]) 4 1 1) 4 0 0 0 = [- 1, 0, 0]"
  by (simp add: du_ref1D_double_def upt4 Reshape2_def Reshape3_def buf_of_def idx2_def idx3_def
        rd_big rd_nbig rd_tie rd_one rd_none rd_zero)

section \<open>The claims\<close>

text \<open>
  In the statements below \<open>D1D\<close>, \<open>Q1D\<close>, \<open>VDIM\<close> are the dimensions the 2D and 3D
  kernels select from their template and runtime arguments; the 1D kernel, which has no
  template dimensions, is called with the same values. \<open>sdim \<le> 3\<close> is assumed wherever
  the store loop reads \<^verbatim>\<open>du[d]\<close> for \<open>d < sdim\<close>: the array has three entries. \<open>MD1\<close>
  and \<open>MQ1\<close> are the capacities the 3D kernel selects from \<^verbatim>\<open>T_D1D\<close>, \<^verbatim>\<open>MAX_D1D\<close> and
  \<^verbatim>\<open>T_Q1D\<close>, \<^verbatim>\<open>MAX_Q1D\<close>.
\<close>

subsection \<open>C1\<close>

text \<open>
  Claim C1. With the physical transform off, what \<open>Derivatives2D\<close> and \<open>Derivatives3D\<close>
  store for element \<open>e\<close>, component \<open>c\<close>, quadrature point \<open>(qx, qy)\<close> or \<open>(qx, qy, qz)\<close> and
  derivative direction \<open>d\<close> is the direct, non-factorised tensor contraction of the
  specification, in exact real arithmetic, for either layout and any content of the
  shared arrays; for \<open>Derivatives3D\<close>, whose tiles are views of rows of the arrays
  \<^verbatim>\<open>BG\<close>, \<^verbatim>\<open>sm0\<close> and \<^verbatim>\<open>sm1\<close>, for dimensions with which every tile fits its row.
\<close>

theorem sum_factorization_is_direct_contraction:
  assumes dims: "D1D = tsel T_D1D d1d" "Q1D = tsel T_Q1D q1d" "VDIM = tsel T_VDIM vdim"
    and caps: "MD1 = tsel T_D1D MAX_D1D" "MQ1 = tsel T_Q1D MAX_Q1D"
    and bounds: "e < NE" "c < VDIM" "qx < Q1D" "qy < Q1D" "qz < Q1D"
  shows "(d < 2 \<longrightarrow>
           out_at (Derivatives2D L False T_VDIM T_D1D T_Q1D sm2 NE b_buf g_buf j_buf x2 y_buf
                     sdim vdim d1d q1d) (yidx2D L Q1D VDIM 2 qx qy c d e) =
           Some (direct2D (\<lambda>d q. Reshape2 b_buf Q1D D1D q d) (\<lambda>d q. Reshape2 g_buf Q1D D1D q d)
                   (\<lambda>dx dy. Reshape4 x2 D1D D1D VDIM NE dx dy c e) D1D qx qy d)) \<and>
         (d < 3 \<and> tiles_fit MD1 MQ1 D1D Q1D \<longrightarrow>
           Derivatives3D L False T_VDIM T_D1D T_Q1D MAX_D1D MAX_Q1D sm3 NE b_buf g_buf j_buf x3 y_buf
             vdim d1d q1d (yidx3D L Q1D VDIM qx qy qz c d e) =
           direct3D (\<lambda>d q. Reshape2 b_buf Q1D D1D q d) (\<lambda>d q. Reshape2 g_buf Q1D D1D q d)
             (\<lambda>dx dy dz. Reshape5 x3 D1D D1D D1D VDIM NE dx dy dz c e) D1D qx qy qz d)"
proof (intro conjI impI)
  assume d: "d < 2"
  have "out_at (forall2D L False D1D Q1D VDIM 2 (Reshape2 b_buf Q1D D1D) (Reshape2 g_buf Q1D D1D)
                  (Reshape5 j_buf Q1D Q1D 2 2 NE) (Reshape4 x2 D1D D1D VDIM NE) sm2 NE y_buf)
          (yidx2D L Q1D VDIM 2 qx qy c d e) =
        Some (du2D False (Reshape2 b_buf Q1D D1D) (Reshape2 g_buf Q1D D1D)
                (Reshape5 j_buf Q1D Q1D 2 2 NE) (Reshape4 x2 D1D D1D VDIM NE) D1D 2 qx qy c e ! d)"
    using bounds d by (intro out_atI forall2D_at) simp_all
  then show "out_at (Derivatives2D L False T_VDIM T_D1D T_Q1D sm2 NE b_buf g_buf j_buf x2 y_buf
                     sdim vdim d1d q1d) (yidx2D L Q1D VDIM 2 qx qy c d e) =
           Some (direct2D (\<lambda>d q. Reshape2 b_buf Q1D D1D q d) (\<lambda>d q. Reshape2 g_buf Q1D D1D q d)
                   (\<lambda>dx dy. Reshape4 x2 D1D D1D VDIM NE dx dy c e) D1D qx qy d)"
    using d by (simp add: Derivatives2D_def Let_def dims du2D_def grad_ref2D_direct)
next
  assume "d < 3 \<and> tiles_fit MD1 MQ1 D1D Q1D"
  then have d: "d < 3" and fit: "tiles_fit MD1 MQ1 D1D Q1D" by simp_all
  show "Derivatives3D L False T_VDIM T_D1D T_Q1D MAX_D1D MAX_Q1D sm3 NE b_buf g_buf j_buf x3 y_buf
             vdim d1d q1d (yidx3D L Q1D VDIM qx qy qz c d e) =
           direct3D (\<lambda>d q. Reshape2 b_buf Q1D D1D q d) (\<lambda>d q. Reshape2 g_buf Q1D D1D q d)
             (\<lambda>dx dy dz. Reshape5 x3 D1D D1D D1D VDIM NE dx dy dz c e) D1D qx qy qz d"
    using d Derivatives3D_at_fit[OF dims caps bounds d fit, of L False sm3 b_buf g_buf j_buf x3 y_buf]
    by (simp add: uvw3D_def grad_ref3D_direct)
qed

text \<open>
  The bilinear and the trilinear element with one quadrature point at the centre: for
  \<open>f = 2x + 3y\<close> and \<open>f = 2x + 3y + 7z\<close> the derivative in direction 0 is 2. The 3D
  kernel is taken with runtime dimensions and the capacities \<^verbatim>\<open>MAX_D1D = MAX_Q1D = 2\<close>.
\<close>

theorem sum_factorization_is_direct_contraction_witness:
  "out_at (Derivatives2D byNODES False 0 0 0 scratch2D 1
             (buf_of [1/2, 1/2]) (buf_of [-1, 1]) (buf_of []) (buf_of [0, 2, 3, 5]) (buf_of [])
             2 1 2 1) (yidx2D byNODES 1 1 2 0 0 0 0 0) = Some 2 \<and>
   Derivatives3D byNODES False 0 0 0 2 2 scratch3D 1
     (buf_of [1/2, 1/2]) (buf_of [-1, 1]) (buf_of []) (buf_of [0, 2, 3, 5, 7, 9, 10, 12])
     (buf_of []) 1 2 1 (yidx3D byNODES 1 1 0 0 0 0 0 0) = 2"
  using sum_factorization_is_direct_contraction[where D1D = 2 and T_D1D = 0 and d1d = 2
      and Q1D = 1 and T_Q1D = 0 and q1d = 1 and VDIM = 1 and T_VDIM = 0 and vdim = 1
      and ?MD1.0 = 2 and MAX_D1D = 2 and ?MQ1.0 = 2 and MAX_Q1D = 2
      and e = 0 and NE = 1 and c = 0 and qx = 0 and qy = 0 and qz = 0 and d = 0
      and L = byNODES and ?sm2.0 = scratch2D and ?sm3.0 = scratch3D
      and b_buf = "buf_of [1/2, 1/2]" and g_buf = "buf_of [-1, 1]" and j_buf = "buf_of []"
      and ?x2.0 = "buf_of [0, 2, 3, 5]" and ?x3.0 = "buf_of [0, 2, 3, 5, 7, 9, 10, 12]"
      and y_buf = "buf_of []" and sdim = 2]
  by (simp add: tsel_def tiles_fit_def direct2D_def direct3D_def Reshape2_def Reshape4_def
        Reshape5_def buf_of_def idx2_def idx4_def idx5_def lessThan_Suc numeral_2_eq_2)

subsection \<open>C2\<close>



subsection \<open>C3\<close>

text \<open>
  Claim C3, amended. In \<open>Derivatives2D\<close> with the physical transform on, for an element
  and quadrature point whose 3 x 2 Jacobian \<open>J\<close> has full column rank (the determinant
  of \<open>J\<^sup>T J\<close> is not 0), the three components stored for \<open>sdim = 3\<close> are the transpose of
  the left pseudo-inverse \<open>(J\<^sup>T J)\<^sup>-\<^sup>1 J\<^sup>T\<close> applied to the two reference derivatives: component
  \<open>k\<close> is the sum over \<open>i\<close> of \<open>pinv(i,k) * du(i)\<close>. For \<open>sdim = 2\<close> and an invertible \<open>J\<close>
  the two components are the transpose of \<open>J\<^sup>-\<^sup>1\<close> applied to the reference derivatives.
  The matrix returned by the inverse helpers is stored like \<^verbatim>\<open>Jloc\<close>, column by column,
  and the kernel multiplies its stored columns with \<open>du\<close>.
\<close>

theorem physical_transform_2D:
  assumes dims: "D1D = tsel T_D1D d1d" "Q1D = tsel T_Q1D q1d" "VDIM = tsel T_VDIM vdim"
    and bounds: "e < NE" "c < VDIM" "qx < Q1D" "qy < Q1D"
    and J3: "J3 = (\<lambda>r c. Reshape5 j3 Q1D Q1D 3 2 NE qx qy r c e)"
    and J2: "J2 = (\<lambda>r c. Reshape5 j2 Q1D Q1D 2 2 NE qx qy r c e)"
    and du: "du = direct2D (\<lambda>d q. Reshape2 b_buf Q1D D1D q d) (\<lambda>d q. Reshape2 g_buf Q1D D1D q d)
                    (\<lambda>dx dy. Reshape4 x_buf D1D D1D VDIM NE dx dy c e) D1D qx qy"
  shows "(k < 3 \<and> det2 (mat_mul 3 (transpose_mat J3) J3) \<noteq> 0 \<longrightarrow>
            out_at (Derivatives2D L True T_VDIM T_D1D T_Q1D sm NE b_buf g_buf j3 x_buf y_buf
                      3 vdim d1d q1d) (yidx2D L Q1D VDIM 3 qx qy c k e) =
            Some (mat_vec 2 (transpose_mat (pinv32 J3)) du k)) \<and>
         (k < 2 \<and> det2 J2 \<noteq> 0 \<longrightarrow>
            out_at (Derivatives2D L True T_VDIM T_D1D T_Q1D sm NE b_buf g_buf j2 x_buf y_buf
                      2 vdim d1d q1d) (yidx2D L Q1D VDIM 2 qx qy c k e) =
            Some (mat_vec 2 (transpose_mat (inverse2 J2)) du k))"
proof (intro conjI impI)
  assume "k < 3 \<and> det2 (mat_mul 3 (transpose_mat J3) J3) \<noteq> 0"
  then have k: "k < 3" by simp
  show "out_at (Derivatives2D L True T_VDIM T_D1D T_Q1D sm NE b_buf g_buf j3 x_buf y_buf
                      3 vdim d1d q1d) (yidx2D L Q1D VDIM 3 qx qy c k e) =
            Some (mat_vec 2 (transpose_mat (pinv32 J3)) du k)"
    using Derivatives2D_at[OF dims _ _ bounds k, of True 3 L sm b_buf g_buf j3 x_buf y_buf]
    by (simp add: du2D_phys_sdim3[OF k] J3 du)
next
  assume "k < 2 \<and> det2 J2 \<noteq> 0"
  then have k: "k < 2" by simp
  show "out_at (Derivatives2D L True T_VDIM T_D1D T_Q1D sm NE b_buf g_buf j2 x_buf y_buf
                      2 vdim d1d q1d) (yidx2D L Q1D VDIM 2 qx qy c k e) =
            Some (mat_vec 2 (transpose_mat (inverse2 J2)) du k)"
    using Derivatives2D_at[OF dims _ _ bounds k, of True 2 L sm b_buf g_buf j2 x_buf y_buf]
    by (simp add: du2D_phys_sdim2[OF k] J2 du)
qed

text \<open>
  One quadrature point with reference derivatives \<open>(1, 1)\<close>: for the Jacobian with
  columns \<open>(1, 0, 0)\<close> and \<open>(1, 1, 0)\<close>, and for the Jacobian \<open>((1, 1), (0, 1))\<close>, the
  component 0 of the physical derivative is 1.
\<close>

theorem physical_transform_2D_witness:
  "det2 (mat_mul 3 (transpose_mat (\<lambda>r c. Reshape5 (buf_of [1, 0, 0, 1, 1, 0]) 1 1 3 2 1 0 0 r c 0))
                     (\<lambda>r c. Reshape5 (buf_of [1, 0, 0, 1, 1, 0]) 1 1 3 2 1 0 0 r c 0)) \<noteq> 0 \<and>
   out_at (Derivatives2D byVDIM True 0 0 0 scratch2D 1 (buf_of [1]) (buf_of [1])
             (buf_of [1, 0, 0, 1, 1, 0]) (buf_of [1]) (buf_of []) 3 1 1 1)
     (yidx2D byVDIM 1 1 3 0 0 0 0 0) = Some 1 \<and>
   det2 shear_J \<noteq> 0 \<and>
   out_at (Derivatives2D byVDIM True 0 0 0 scratch2D 1 (buf_of [1]) (buf_of [1])
             (buf_of [1, 0, 1, 1]) (buf_of [1]) (buf_of []) 2 1 1 1)
     (yidx2D byVDIM 1 1 2 0 0 0 0 0) = Some 1"
  using physical_transform_2D[where D1D = 1 and T_D1D = 0 and d1d = 1 and Q1D = 1 and T_Q1D = 0
      and q1d = 1 and VDIM = 1 and T_VDIM = 0 and vdim = 1 and e = 0 and NE = 1 and c = 0
      and qx = 0 and qy = 0 and k = 0 and L = byVDIM and sm = scratch2D
      and b_buf = "buf_of [1]" and g_buf = "buf_of [1]" and x_buf = "buf_of [1]"
      and y_buf = "buf_of []" and ?j3.0 = "buf_of [1, 0, 0, 1, 1, 0]" and ?j2.0 = "buf_of [1, 0, 1, 1]"
      and ?J3.0 = "\<lambda>r c. Reshape5 (buf_of [1, 0, 0, 1, 1, 0]) 1 1 3 2 1 0 0 r c 0"
      and ?J2.0 = "\<lambda>r c. Reshape5 (buf_of [1, 0, 1, 1]) 1 1 2 2 1 0 0 r c 0"
      and du = unit_du]
  by (simp add: tsel_def unit_du_def shear_J_def direct2D_def mat_vec_def mat_mul_def
        transpose_mat_def pinv32_def inverse2_def det2_def Reshape2_def Reshape4_def Reshape5_def
        buf_of_def idx2_def idx4_def idx5_def lessThan_2 lessThan_3)

text \<open>
  Claim C3 as stated fails for \<open>sdim = 2\<close>: for the invertible Jacobian
  \<open>((1, 1), (0, 1))\<close> and the reference derivatives \<open>(1, 1)\<close> the kernel stores 1 in
  direction 0, whereas \<open>J\<^sup>-\<^sup>1\<close> applied to the reference derivatives has 0 there.
\<close>

theorem inverse_applied_untransposed_counterexample:
  "out_at (Derivatives2D byNODES True 0 0 0 scratch2D 1 (buf_of [1]) (buf_of [1])
             (buf_of [1, 0, 1, 1]) (buf_of [1]) (buf_of []) 2 1 1 1)
     (yidx2D byNODES 1 1 2 0 0 0 0 0) = Some 1 \<and>
   det2 shear_J \<noteq> 0 \<and> unit_du 0 = 1 \<and> unit_du 1 = 1 \<and>
   mat_vec 2 (inverse2 shear_J) unit_du 0 = 0 \<and>
   out_at (Derivatives2D byNODES True 0 0 0 scratch2D 1 (buf_of [1]) (buf_of [1])
             (buf_of [1, 0, 1, 1]) (buf_of [1]) (buf_of []) 2 1 1 1)
     (yidx2D byNODES 1 1 2 0 0 0 0 0) \<noteq> Some (mat_vec 2 (inverse2 shear_J) unit_du 0)"
proof -
  have inv: "mat_vec 2 (inverse2 shear_J) unit_du 0 = 0"
    by (simp add: mat_vec_def inverse2_def det2_def shear_J_def unit_du_def direct2D_def
          Reshape2_def Reshape4_def Reshape5_def buf_of_def idx2_def idx4_def idx5_def lessThan_2)
  have out: "out_at (Derivatives2D byNODES True 0 0 0 scratch2D 1 (buf_of [1]) (buf_of [1])
             (buf_of [1, 0, 1, 1]) (buf_of [1]) (buf_of []) 2 1 1 1)
     (yidx2D byNODES 1 1 2 0 0 0 0 0) = Some 1"
  proof -
    have "out_at (Derivatives2D byNODES True 0 0 0 scratch2D 1 (buf_of [1]) (buf_of [1])
             (buf_of [1, 0, 1, 1]) (buf_of [1]) (buf_of []) 2 1 1 1)
       (yidx2D byNODES 1 1 2 0 0 0 0 0) =
       Some (du2D True (Reshape2 (buf_of [1]) 1 1) (Reshape2 (buf_of [1]) 1 1)
                 (Reshape5 (buf_of [1, 0, 1, 1]) 1 1 2 2 1) (Reshape4 (buf_of [1]) 1 1 1 1)
                 1 2 0 0 0 0 ! 0)"
      by (rule Derivatives2D_at) (simp_all add: tsel_def)
    then show ?thesis
      by (simp add: du2D_def grad_ref2D_def phys2D_def CalcInverse_2_def Reshape2_def Reshape4_def
            Reshape5_def buf_of_def idx2_def idx4_def idx5_def)
  qed
  have det: "det2 shear_J \<noteq> 0"
    by (simp add: det2_def shear_J_def Reshape5_def buf_of_def idx5_def)
  have du: "unit_du 0 = 1" "unit_du 1 = 1"
    by (simp_all add: unit_du_def direct2D_def Reshape2_def Reshape4_def buf_of_def idx2_def idx4_def)
  show ?thesis unfolding inv out using det du by simp
qed

subsection \<open>C4\<close>

text \<open>
  Claim C4. For each of the three kernels, with the physical transform on, \<open>sdim\<close> equal
  to the reference dimension of the kernel, and the identity matrix stored as the
  Jacobian of every quadrature point of every element, the result is the result of
  the same call with the physical transform off.
\<close>

theorem identity_jacobian:
  assumes i1: "\<And>q e. q < q1d \<Longrightarrow> e < NE \<Longrightarrow> Reshape3 j1 q1d 1 NE q 0 e = 1"
    and i2: "\<And>qx qy r k e. qx < tsel T_Q1D q1d \<Longrightarrow> qy < tsel T_Q1D q1d \<Longrightarrow> r < 2 \<Longrightarrow> k < 2 \<Longrightarrow>
               e < NE \<Longrightarrow>
               Reshape5 j2 (tsel T_Q1D q1d) (tsel T_Q1D q1d) 2 2 NE qx qy r k e = (if r = k then 1 else 0)"
    and i3: "\<And>qx qy qz r k e. qx < tsel T_Q1D q1d \<Longrightarrow> qy < tsel T_Q1D q1d \<Longrightarrow> qz < tsel T_Q1D q1d \<Longrightarrow>
               r < 3 \<Longrightarrow> k < 3 \<Longrightarrow> e < NE \<Longrightarrow>
               Reshape6 j3 (tsel T_Q1D q1d) (tsel T_Q1D q1d) (tsel T_Q1D q1d) 3 3 NE qx qy qz r k e
                 = (if r = k then 1 else 0)"
  shows "Derivatives1D L True NE g_buf j1 x1 y_buf 1 vdim d1d q1d =
         Derivatives1D L False NE g_buf j1 x1 y_buf 1 vdim d1d q1d \<and>
         Derivatives2D L True T_VDIM T_D1D T_Q1D sm2 NE b_buf g_buf j2 x2 y_buf 2 vdim d1d q1d =
         Derivatives2D L False T_VDIM T_D1D T_Q1D sm2 NE b_buf g_buf j2 x2 y_buf 2 vdim d1d q1d \<and>
         Derivatives3D L True T_VDIM T_D1D T_Q1D MAX_D1D MAX_Q1D sm3 NE b_buf g_buf j3 x3 y_buf
           vdim d1d q1d =
         Derivatives3D L False T_VDIM T_D1D T_Q1D MAX_D1D MAX_Q1D sm3 NE b_buf g_buf j3 x3 y_buf
           vdim d1d q1d"
proof (intro conjI)
  show "Derivatives1D L True NE g_buf j1 x1 y_buf 1 vdim d1d q1d =
        Derivatives1D L False NE g_buf j1 x1 y_buf 1 vdim d1d q1d"
    unfolding Derivatives1D_def Let_def
  proof (intro for_err_cong)
    fix e c q and s1 s2 s :: buffer
    assume "e \<in> set [0..<NE]" "c \<in> set [0..<vdim]" "q \<in> set [0..<q1d]"
    then have "du1D True (Reshape2 g_buf q1d d1d) (Reshape3 j1 q1d 1 NE) (Reshape3 x1 d1d vdim NE)
                 1 d1d q c e =
               du1D False (Reshape2 g_buf q1d d1d) (Reshape3 j1 q1d 1 NE) (Reshape3 x1 d1d vdim NE)
                 1 d1d q c e"
      by (intro du1D_identity i1) simp_all
    then show "store1D L q1d vdim 1 q c e
                 (du1D True (Reshape2 g_buf q1d d1d) (Reshape3 j1 q1d 1 NE) (Reshape3 x1 d1d vdim NE)
                    1 d1d q c e) s =
               store1D L q1d vdim 1 q c e
                 (du1D False (Reshape2 g_buf q1d d1d) (Reshape3 j1 q1d 1 NE) (Reshape3 x1 d1d vdim NE)
                    1 d1d q c e) s"
      by (simp only:)
  qed
next
  show "Derivatives2D L True T_VDIM T_D1D T_Q1D sm2 NE b_buf g_buf j2 x2 y_buf 2 vdim d1d q1d =
        Derivatives2D L False T_VDIM T_D1D T_Q1D sm2 NE b_buf g_buf j2 x2 y_buf 2 vdim d1d q1d"
    unfolding Derivatives2D_def Let_def
    by (simp add: forall2D_pure, intro fold_cong_state) (simp add: du2D_identity i2)
next
  show "Derivatives3D L True T_VDIM T_D1D T_Q1D MAX_D1D MAX_Q1D sm3 NE b_buf g_buf j3 x3 y_buf
          vdim d1d q1d =
        Derivatives3D L False T_VDIM T_D1D T_Q1D MAX_D1D MAX_Q1D sm3 NE b_buf g_buf j3 x3 y_buf
          vdim d1d q1d"
    unfolding Derivatives3D_def Let_def forall3D_writes
    by (intro fold_cong_state) (simp add: val3D_identity i3)
qed

text \<open>
  One element with one quadrature point and the Jacobians \<open>[1]\<close>, \<open>[1, 0, 0, 1]\<close> and
  \<open>[1, 0, 0, 0, 1, 0, 0, 0, 1]\<close>.
\<close>

theorem identity_jacobian_witness:
  "Derivatives1D byNODES True 1 (buf_of [-1, 1]) (buf_of [1]) (buf_of [3, 5]) (buf_of []) 1 1 2 1 =
   Derivatives1D byNODES False 1 (buf_of [-1, 1]) (buf_of [1]) (buf_of [3, 5]) (buf_of []) 1 1 2 1 \<and>
   Derivatives2D byNODES True 0 0 0 scratch2D 1 (buf_of [1/2, 1/2]) (buf_of [-1, 1])
     (buf_of [1, 0, 0, 1]) (buf_of [0, 2, 3, 5]) (buf_of []) 2 1 2 1 =
   Derivatives2D byNODES False 0 0 0 scratch2D 1 (buf_of [1/2, 1/2]) (buf_of [-1, 1])
     (buf_of [1, 0, 0, 1]) (buf_of [0, 2, 3, 5]) (buf_of []) 2 1 2 1 \<and>
   Derivatives3D byNODES True 0 0 0 2 2 scratch3D 1 (buf_of [1/2, 1/2]) (buf_of [-1, 1])
     (buf_of [1, 0, 0, 0, 1, 0, 0, 0, 1]) (buf_of [0, 2, 3, 5, 7, 9, 10, 12]) (buf_of []) 1 2 1 =
   Derivatives3D byNODES False 0 0 0 2 2 scratch3D 1 (buf_of [1/2, 1/2]) (buf_of [-1, 1])
     (buf_of [1, 0, 0, 0, 1, 0, 0, 0, 1]) (buf_of [0, 2, 3, 5, 7, 9, 10, 12]) (buf_of []) 1 2 1"
proof -
  have 1: "Reshape3 (buf_of [1]) 1 1 1 q 0 e = 1" if "q < 1" "e < 1" for q e
    using that by (simp add: Reshape3_def buf_of_def idx3_def)
  have 2: "Reshape5 (buf_of [1, 0, 0, 1]) (tsel 0 1) (tsel 0 1) 2 2 1 qx qy r k e =
             (if r = k then 1 else 0)"
    if "qx < tsel 0 1" "qy < tsel 0 1" "r < 2" "k < 2" "e < 1" for qx qy r k e
  proof -
    from that have "(r = 0 \<or> r = 1) \<and> (k = 0 \<or> k = 1)" by auto
    then show ?thesis using that by (auto simp: Reshape5_def buf_of_def idx5_def tsel_def)
  qed
  have 3: "Reshape6 (buf_of [1, 0, 0, 0, 1, 0, 0, 0, 1]) (tsel 0 1) (tsel 0 1) (tsel 0 1) 3 3 1
             qx qy qz r k e = (if r = k then 1 else 0)"
    if "qx < tsel 0 1" "qy < tsel 0 1" "qz < tsel 0 1" "r < 3" "k < 3" "e < 1" for qx qy qz r k e
  proof -
    from that have "(r = 0 \<or> r = 1 \<or> r = 2) \<and> (k = 0 \<or> k = 1 \<or> k = 2)" by auto
    then show ?thesis using that by (auto simp: Reshape6_def buf_of_def idx6_def tsel_def)
  qed
  show ?thesis by (rule identity_jacobian[OF 1 2 3])
qed

subsection \<open>C5\<close>

text \<open>
  Claim C5. For each of the three kernels with the physical transform off: if the
  nodal coefficients of component \<open>c\<close> of element \<open>e\<close> all have one value \<open>k\<close> and every
  row of the derivative table sums to 0, then, in exact real arithmetic, every value
  stored for \<open>(e, c)\<close> is 0, at every quadrature point and in every derivative direction
  (for \<open>Derivatives3D\<close>: with dimensions for which every tile fits its row). In the
  double-precision arithmetic of the source the value is 0 only up to the rounding of
  the accumulation, as the theorem after the next one shows.
\<close>

theorem constant_field_zero_gradient:
  assumes dims: "D1D = tsel T_D1D d1d" "Q1D = tsel T_Q1D q1d" "VDIM = tsel T_VDIM vdim"
    and caps: "MD1 = tsel T_D1D MAX_D1D" "MQ1 = tsel T_Q1D MAX_Q1D"
    and bounds: "e < NE" "c < VDIM" "qx < Q1D" "qy < Q1D" "qz < Q1D" "sdim \<le> 3"
    and rows: "\<And>q. q < Q1D \<Longrightarrow> (\<Sum>d<D1D. Reshape2 g_buf Q1D D1D q d) = 0"
    and c1: "\<And>d. d < D1D \<Longrightarrow> Reshape3 x1 D1D VDIM NE d c e = k"
    and c2: "\<And>dx dy. dx < D1D \<Longrightarrow> dy < D1D \<Longrightarrow> Reshape4 x2 D1D D1D VDIM NE dx dy c e = k"
    and c3: "\<And>dx dy dz. dx < D1D \<Longrightarrow> dy < D1D \<Longrightarrow> dz < D1D \<Longrightarrow>
               Reshape5 x3 D1D D1D D1D VDIM NE dx dy dz c e = k"
  shows "(d < sdim \<longrightarrow>
            out_at (Derivatives1D L False NE g_buf j_buf x1 y_buf sdim VDIM D1D Q1D)
              (yidx1D L Q1D VDIM sdim qx c d e) = Some 0) \<and>
         (d < 2 \<longrightarrow>
            out_at (Derivatives2D L False T_VDIM T_D1D T_Q1D sm2 NE b_buf g_buf j_buf x2 y_buf
                      sdim vdim d1d q1d) (yidx2D L Q1D VDIM 2 qx qy c d e) = Some 0) \<and>
         (d < 3 \<and> tiles_fit MD1 MQ1 D1D Q1D \<longrightarrow>
            Derivatives3D L False T_VDIM T_D1D T_Q1D MAX_D1D MAX_Q1D sm3 NE b_buf g_buf j_buf x3 y_buf
              vdim d1d q1d (yidx3D L Q1D VDIM qx qy qz c d e) = 0)"
proof (intro conjI impI)
  assume d: "d < sdim"
  then have "d < 3" using bounds by simp
  then show "out_at (Derivatives1D L False NE g_buf j_buf x1 y_buf sdim VDIM D1D Q1D)
              (yidx1D L Q1D VDIM sdim qx c d e) = Some 0"
    using Derivatives1D_out[OF bounds(6,1,2,3) d, of L False g_buf j_buf x1 y_buf D1D]
      du1D_const[of D1D "Reshape3 x1 D1D VDIM NE" c e k "Reshape2 g_buf Q1D D1D" qx d
        "Reshape3 j_buf Q1D sdim NE" sdim] c1 rows[OF bounds(3)]
    by simp
next
  assume d: "d < 2"
  then have "d < 3" by simp
  then show "out_at (Derivatives2D L False T_VDIM T_D1D T_Q1D sm2 NE b_buf g_buf j_buf x2 y_buf
                      sdim vdim d1d q1d) (yidx2D L Q1D VDIM 2 qx qy c d e) = Some 0"
    using Derivatives2D_at[OF dims _ _ bounds(1,2,3,4) d, of False sdim L sm2 b_buf g_buf j_buf x2 y_buf]
      grad_ref2D_const[of D1D "Reshape4 x2 D1D D1D VDIM NE" c e k "Reshape2 g_buf Q1D D1D" qx qy d
        "Reshape2 b_buf Q1D D1D"] c2 rows[OF bounds(3)] rows[OF bounds(4)]
    by (simp add: du2D_def)
next
  assume "d < 3 \<and> tiles_fit MD1 MQ1 D1D Q1D"
  then have d: "d < 3" and fit: "tiles_fit MD1 MQ1 D1D Q1D" by simp_all
  show "Derivatives3D L False T_VDIM T_D1D T_Q1D MAX_D1D MAX_Q1D sm3 NE b_buf g_buf j_buf x3 y_buf
              vdim d1d q1d (yidx3D L Q1D VDIM qx qy qz c d e) = 0"
    using Derivatives3D_at_fit[OF dims caps bounds(1,2,3,4,5) d fit,
        of L False sm3 b_buf g_buf j_buf x3 y_buf]
      grad_ref3D_const[of D1D "Reshape5 x3 D1D D1D D1D VDIM NE" c e k "Reshape2 g_buf Q1D D1D"
        qx qy qz "Reshape2 b_buf Q1D D1D" d] c3 rows[OF bounds(3)] rows[OF bounds(4)] rows[OF bounds(5)]
    by (simp add: uvw3D_def)
qed

text \<open>
  Two dofs and one quadrature point per dimension, the derivative row \<open>(-1, 1)\<close> and
  all nodal coefficients equal to 5.
\<close>

theorem constant_field_zero_gradient_witness:
  "out_at (Derivatives1D byNODES False 1 (buf_of [-1, 1]) (buf_of []) (buf_of [5, 5]) (buf_of [])
             2 1 2 1) (yidx1D byNODES 1 1 2 0 0 1 0) = Some 0 \<and>
   out_at (Derivatives2D byNODES False 0 0 0 scratch2D 1 (buf_of [1/2, 1/2]) (buf_of [-1, 1])
             (buf_of []) (buf_of [5, 5, 5, 5]) (buf_of []) 2 1 2 1)
     (yidx2D byNODES 1 1 2 0 0 0 1 0) = Some 0 \<and>
   Derivatives3D byNODES False 0 0 0 2 2 scratch3D 1 (buf_of [1/2, 1/2]) (buf_of [-1, 1])
     (buf_of []) (buf_of [5, 5, 5, 5, 5, 5, 5, 5]) (buf_of []) 1 2 1
     (yidx3D byNODES 1 1 0 0 0 0 1 0) = 0"
proof -
  have rows: "(\<Sum>d<2. Reshape2 (buf_of [-1, 1]) 1 2 q d) = 0" if "q < 1" for q
    using that by (simp add: Reshape2_def buf_of_def idx2_def lessThan_2)
  have c1: "Reshape3 (buf_of [5, 5]) 2 1 1 d 0 0 = 5" if "d < 2" for d
    using that by (simp add: Reshape3_def buf_of_def idx3_def nth_Cons')
  have c2: "Reshape4 (buf_of [5, 5, 5, 5]) 2 2 1 1 dx dy 0 0 = 5" if "dx < 2" "dy < 2" for dx dy
  proof -
    from that have "idx4 2 2 1 dx dy 0 0 < 4" by (simp add: idx4_def)
    then show ?thesis by (simp add: Reshape4_def buf_of_def nth_Cons')
  qed
  have c3: "Reshape5 (buf_of [5, 5, 5, 5, 5, 5, 5, 5]) 2 2 2 1 1 dx dy dz 0 0 = 5"
    if "dx < 2" "dy < 2" "dz < 2" for dx dy dz
  proof -
    from that have "idx5 2 2 2 1 dx dy dz 0 0 < 8" by (simp add: idx5_def)
    then show ?thesis by (simp add: Reshape5_def buf_of_def nth_Cons')
  qed
  show ?thesis
    using constant_field_zero_gradient[where D1D = 2 and T_D1D = 0 and d1d = 2 and Q1D = 1
        and T_Q1D = 0 and q1d = 1 and VDIM = 1 and T_VDIM = 0 and vdim = 1 and e = 0 and NE = 1
        and ?MD1.0 = 2 and MAX_D1D = 2 and ?MQ1.0 = 2 and MAX_Q1D = 2
        and c = 0 and qx = 0 and qy = 0 and qz = 0 and sdim = 2 and d = 1 and k = 5
        and L = byNODES and g_buf = "buf_of [-1, 1]" and b_buf = "buf_of [1/2, 1/2]"
        and j_buf = "buf_of []" and y_buf = "buf_of []" and ?sm2.0 = scratch2D
        and ?sm3.0 = scratch3D and ?x1.0 = "buf_of [5, 5]" and ?x2.0 = "buf_of [5, 5, 5, 5]"
        and ?x3.0 = "buf_of [5, 5, 5, 5, 5, 5, 5, 5]", OF _ _ _ _ _ _ _ _ _ _ _ rows c1 c2 c3]
    by (simp add: tsel_def tiles_fit_def)
qed

text \<open>
  The claim as the specification words it, without the exact arithmetic, fails in double
  precision. One element, one component, one quadrature point, four dofs with the
  nodal coefficients \<open>1, 1, 1, 1\<close>, and the derivative row \<open>10\<^sup>1\<^sup>6, 1, -10\<^sup>1\<^sup>6, -1\<close>, which
  sums to 0: the accumulation of lines 54-58 goes through \<open>10\<^sup>1\<^sup>6\<close>, \<open>10\<^sup>1\<^sup>6\<close> (the sum
  \<open>10\<^sup>1\<^sup>6 + 1\<close> is rounded), \<open>0\<close> and \<open>-1\<close>, and \<open>Derivatives1D\<close> stores \<open>-1\<close>. All four
  products are exact, so that it makes no difference whether a product and the
  addition that follows it are rounded one after the other or together.
\<close>

theorem constant_field_rounding_counterexample:
  "(\<Sum>d<4. Reshape2 (buf_of [10000000000000000, 1, - 10000000000000000, - 1]) 1 4 0 d) = 0 \<and>
   Reshape3 (buf_of [1, 1, 1, 1]) 4 1 1 0 0 0 = 1 \<and>
   Reshape3 (buf_of [1, 1, 1, 1]) 4 1 1 1 0 0 = 1 \<and>
   Reshape3 (buf_of [1, 1, 1, 1]) 4 1 1 2 0 0 = 1 \<and>
   Reshape3 (buf_of [1, 1, 1, 1]) 4 1 1 3 0 0 = 1 \<and>
   out_at (Derivatives1D_double byNODES 1 (buf_of [10000000000000000, 1, - 10000000000000000, - 1])
             (buf_of []) (buf_of [1, 1, 1, 1]) (buf_of []) 1 1 4 1)
     (yidx1D byNODES 1 1 1 0 0 0 0) = Some (- 1)"
proof -
  have "out_at (Derivatives1D_double byNODES 1 (buf_of [10000000000000000, 1, - 10000000000000000, - 1])
             (buf_of []) (buf_of [1, 1, 1, 1]) (buf_of []) 1 1 4 1)
     (yidx1D byNODES 1 1 1 0 0 0 0) = Some (- 1)"
    by (simp add: Derivatives1D_double_def Let_def du_ref1D_double_example[unfolded One_nat_def]
          store1D_def rd_def out_at_def)
  then show ?thesis
    by (simp add: Reshape2_def Reshape3_def buf_of_def idx2_def idx3_def lessThan_Suc numeral_eq_Suc)
qed

subsection \<open>C6\<close>

text \<open>
  Claim C6. For each kernel and identical inputs, the by-nodes output at
  \<open>(q, c, d, e)\<close> and the by-vdim output at \<open>(c, d, q, e)\<close> hold the same value, for every
  element \<open>e\<close>, component \<open>c\<close>, derivative direction \<open>d\<close> and quadrature multi-index \<open>q\<close>,
  whatever the two output buffers and shared arrays held before (in 3D also whether
  the tiles fit their rows or not).
\<close>

theorem layouts_agree:
  assumes dims: "D1D = tsel T_D1D d1d" "Q1D = tsel T_Q1D q1d" "VDIM = tsel T_VDIM vdim"
    and bounds: "e < NE" "c < VDIM" "qx < Q1D" "qy < Q1D" "qz < Q1D"
    and sdim: "sdim \<le> 3" "SDIM = (if P then sdim else 2)"
    and dirs: "d1 < sdim" "d2 < SDIM" "d3 < 3"
  shows "(out_at (Derivatives1D byNODES P NE g_buf j_buf x1 yn sdim VDIM D1D Q1D)
            (idx4 Q1D VDIM sdim qx c d1 e) =
          out_at (Derivatives1D byVDIM P NE g_buf j_buf x1 yv sdim VDIM D1D Q1D)
            (idx4 VDIM sdim Q1D c d1 qx e) \<and>
          out_at (Derivatives1D byNODES P NE g_buf j_buf x1 yn sdim VDIM D1D Q1D)
            (idx4 Q1D VDIM sdim qx c d1 e) \<noteq> None) \<and>
         (out_at (Derivatives2D byNODES P T_VDIM T_D1D T_Q1D sn2 NE b_buf g_buf j_buf x2 yn
                    sdim vdim d1d q1d) (idx5 Q1D Q1D VDIM SDIM qx qy c d2 e) =
          out_at (Derivatives2D byVDIM P T_VDIM T_D1D T_Q1D sv2 NE b_buf g_buf j_buf x2 yv
                    sdim vdim d1d q1d) (idx5 VDIM SDIM Q1D Q1D c d2 qx qy e) \<and>
          out_at (Derivatives2D byNODES P T_VDIM T_D1D T_Q1D sn2 NE b_buf g_buf j_buf x2 yn
                    sdim vdim d1d q1d) (idx5 Q1D Q1D VDIM SDIM qx qy c d2 e) \<noteq> None) \<and>
         Derivatives3D byNODES P T_VDIM T_D1D T_Q1D MAX_D1D MAX_Q1D sn3 NE b_buf g_buf j_buf x3 yn
           vdim d1d q1d (idx6 Q1D Q1D Q1D VDIM 3 qx qy qz c d3 e) =
         Derivatives3D byVDIM P T_VDIM T_D1D T_Q1D MAX_D1D MAX_Q1D sv3 NE b_buf g_buf j_buf x3 yv
           vdim d1d q1d (idx6 VDIM 3 Q1D Q1D Q1D c d3 qx qy qz e)"
proof (intro conjI)
  show "out_at (Derivatives1D byNODES P NE g_buf j_buf x1 yn sdim VDIM D1D Q1D)
              (idx4 Q1D VDIM sdim qx c d1 e) =
        out_at (Derivatives1D byVDIM P NE g_buf j_buf x1 yv sdim VDIM D1D Q1D)
              (idx4 VDIM sdim Q1D c d1 qx e)"
    using Derivatives1D_out[OF sdim(1) bounds(1,2,3) dirs(1), of byNODES P g_buf j_buf x1 yn D1D]
      Derivatives1D_out[OF sdim(1) bounds(1,2,3) dirs(1), of byVDIM P g_buf j_buf x1 yv D1D]
    by (simp add: yidx1D_def)
  show "out_at (Derivatives1D byNODES P NE g_buf j_buf x1 yn sdim VDIM D1D Q1D)
              (idx4 Q1D VDIM sdim qx c d1 e) \<noteq> None"
    using Derivatives1D_out[OF sdim(1) bounds(1,2,3) dirs(1), of byNODES P g_buf j_buf x1 yn D1D]
    by (simp add: yidx1D_def)
next
  have S: "SDIM \<le> 3" using sdim by simp
  show "out_at (Derivatives2D byNODES P T_VDIM T_D1D T_Q1D sn2 NE b_buf g_buf j_buf x2 yn
                      sdim vdim d1d q1d) (idx5 Q1D Q1D VDIM SDIM qx qy c d2 e) =
        out_at (Derivatives2D byVDIM P T_VDIM T_D1D T_Q1D sv2 NE b_buf g_buf j_buf x2 yv
                      sdim vdim d1d q1d) (idx5 VDIM SDIM Q1D Q1D c d2 qx qy e)"
    using Derivatives2D_at[OF dims sdim(2) S bounds(1,2,3,4) dirs(2), of byNODES sn2 b_buf g_buf j_buf x2 yn]
      Derivatives2D_at[OF dims sdim(2) S bounds(1,2,3,4) dirs(2), of byVDIM sv2 b_buf g_buf j_buf x2 yv]
    by (simp add: yidx2D_def)
  show "out_at (Derivatives2D byNODES P T_VDIM T_D1D T_Q1D sn2 NE b_buf g_buf j_buf x2 yn
                      sdim vdim d1d q1d) (idx5 Q1D Q1D VDIM SDIM qx qy c d2 e) \<noteq> None"
    using Derivatives2D_at[OF dims sdim(2) S bounds(1,2,3,4) dirs(2), of byNODES sn2 b_buf g_buf j_buf x2 yn]
    by (simp add: yidx2D_def)
next
  show "Derivatives3D byNODES P T_VDIM T_D1D T_Q1D MAX_D1D MAX_Q1D sn3 NE b_buf g_buf j_buf x3 yn
          vdim d1d q1d (idx6 Q1D Q1D Q1D VDIM 3 qx qy qz c d3 e) =
        Derivatives3D byVDIM P T_VDIM T_D1D T_Q1D MAX_D1D MAX_Q1D sv3 NE b_buf g_buf j_buf x3 yv
          vdim d1d q1d (idx6 VDIM 3 Q1D Q1D Q1D c d3 qx qy qz e)"
    using Derivatives3D_at[OF dims refl refl bounds dirs(3),
        of byNODES P MAX_D1D MAX_Q1D sn3 b_buf g_buf j_buf x3 yn]
      Derivatives3D_at[OF dims refl refl bounds dirs(3),
        of byVDIM P MAX_D1D MAX_Q1D sv3 b_buf g_buf j_buf x3 yv]
      val3D_det[OF bounds(3,4,5), of P "tsel T_D1D MAX_D1D" "tsel T_Q1D MAX_Q1D" D1D
        "Reshape2 b_buf Q1D D1D" "Reshape2 g_buf Q1D D1D" "Reshape6 j_buf Q1D Q1D Q1D 3 3 NE"
        "Reshape5 x3 D1D D1D D1D VDIM NE" "sn3 e" c e "sv3 e"]
    by (simp add: yidx3D_def)
qed

text \<open>
  One element, two dofs and two quadrature points per dimension, three directions,
  physical transform on.
\<close>

theorem layouts_agree_witness:
  "(out_at (Derivatives1D byNODES True 1 (buf_of [-1, -1, 1, 1]) (buf_of [1, 1, 0, 0, 0, 0])
             (buf_of [0, 1]) (buf_of []) 3 1 2 2) (idx4 2 1 3 1 0 2 0) =
    out_at (Derivatives1D byVDIM True 1 (buf_of [-1, -1, 1, 1]) (buf_of [1, 1, 0, 0, 0, 0])
             (buf_of [0, 1]) (buf_of [9]) 3 1 2 2) (idx4 1 3 2 0 2 1 0) \<and>
    out_at (Derivatives1D byNODES True 1 (buf_of [-1, -1, 1, 1]) (buf_of [1, 1, 0, 0, 0, 0])
             (buf_of [0, 1]) (buf_of []) 3 1 2 2) (idx4 2 1 3 1 0 2 0) \<noteq> None) \<and>
   (out_at (Derivatives2D byNODES True 0 0 0 scratch2D 1 (buf_of [1, 1, 0, 0]) (buf_of [-1, -1, 1, 1])
             (buf_of [1, 1, 0, 0, 0, 0]) (buf_of [0, 2, 3, 5]) (buf_of []) 3 1 2 2)
      (idx5 2 2 1 3 1 0 0 2 0) =
    out_at (Derivatives2D byVDIM True 0 0 0 scratch2D 1 (buf_of [1, 1, 0, 0]) (buf_of [-1, -1, 1, 1])
             (buf_of [1, 1, 0, 0, 0, 0]) (buf_of [0, 2, 3, 5]) (buf_of [9]) 3 1 2 2)
      (idx5 1 3 2 2 0 2 1 0 0) \<and>
    out_at (Derivatives2D byNODES True 0 0 0 scratch2D 1 (buf_of [1, 1, 0, 0]) (buf_of [-1, -1, 1, 1])
             (buf_of [1, 1, 0, 0, 0, 0]) (buf_of [0, 2, 3, 5]) (buf_of []) 3 1 2 2)
      (idx5 2 2 1 3 1 0 0 2 0) \<noteq> None) \<and>
   Derivatives3D byNODES True 0 0 0 2 2 scratch3D 1 (buf_of [1, 1, 0, 0]) (buf_of [-1, -1, 1, 1])
     (buf_of [1, 1, 0, 0, 0, 0]) (buf_of [0, 1]) (buf_of []) 1 2 2 (idx6 2 2 2 1 3 1 0 1 0 2 0) =
   Derivatives3D byVDIM True 0 0 0 2 2 scratch3D 1 (buf_of [1, 1, 0, 0]) (buf_of [-1, -1, 1, 1])
     (buf_of [1, 1, 0, 0, 0, 0]) (buf_of [0, 1]) (buf_of [9]) 1 2 2 (idx6 1 3 2 2 2 0 2 1 0 1 0)"
  by (rule layouts_agree[where D1D = 2]) (simp_all add: tsel_def)

subsection \<open>C7\<close>

text \<open>
  Claim C7. For each kernel with the physical transform off, two runs that differ
  only in the Jacobian buffer give the same result: the Jacobian buffer is not read.
\<close>

theorem jacobian_unread:
  "Derivatives1D L False NE g_buf j_buf x_buf y_buf sdim vdim d1d q1d =
   Derivatives1D L False NE g_buf j_buf' x_buf y_buf sdim vdim d1d q1d \<and>
   Derivatives2D L False T_VDIM T_D1D T_Q1D sm2 NE b_buf g_buf j_buf x_buf y_buf sdim vdim d1d q1d =
   Derivatives2D L False T_VDIM T_D1D T_Q1D sm2 NE b_buf g_buf j_buf' x_buf y_buf sdim vdim d1d q1d \<and>
   Derivatives3D L False T_VDIM T_D1D T_Q1D MAX_D1D MAX_Q1D sm3 NE b_buf g_buf j_buf x_buf y_buf
     vdim d1d q1d =
   Derivatives3D L False T_VDIM T_D1D T_Q1D MAX_D1D MAX_Q1D sm3 NE b_buf g_buf j_buf' x_buf y_buf
     vdim d1d q1d"
proof (intro conjI)
  show "Derivatives1D L False NE g_buf j_buf x_buf y_buf sdim vdim d1d q1d =
        Derivatives1D L False NE g_buf j_buf' x_buf y_buf sdim vdim d1d q1d"
    by (simp add: Derivatives1D_def du1D_def Let_def)
  show "Derivatives2D L False T_VDIM T_D1D T_Q1D sm2 NE b_buf g_buf j_buf x_buf y_buf
          sdim vdim d1d q1d =
        Derivatives2D L False T_VDIM T_D1D T_Q1D sm2 NE b_buf g_buf j_buf' x_buf y_buf
          sdim vdim d1d q1d"
    by (simp add: Derivatives2D_def forall2D_def elem2D_def stage2_2D_def Let_def)
  show "Derivatives3D L False T_VDIM T_D1D T_Q1D MAX_D1D MAX_Q1D sm3 NE b_buf g_buf j_buf x_buf y_buf
          vdim d1d q1d =
        Derivatives3D L False T_VDIM T_D1D T_Q1D MAX_D1D MAX_Q1D sm3 NE b_buf g_buf j_buf' x_buf y_buf
          vdim d1d q1d"
    by (simp add: Derivatives3D_def forall3D_def elem3D_def stage3_3D_def Let_def)
qed

subsection \<open>C8\<close>

text \<open>
  Claim C8. For each kernel, every offset \<open>a\<close> inside the declared shape of the output
  (\<open>Q1D ^ dim * VDIM * SDIM * NE\<close> entries, in either layout) is assigned: the final value
  there is the same for any two prior contents of the output buffer and of the shared
  arrays. Every offset beyond the declared shape keeps its prior value. The declared
  shape of the 2D kernel has \<open>SDIM = sdim\<close> directions with the physical transform on and
  2 with it off; the one of the 3D kernel has 3. In 3D this holds whether the tiles
  fit their rows or not: every cell of a shared array that a pass reads has been
  written before.
\<close>

theorem output_fully_overwritten:
  assumes dims: "D1D = tsel T_D1D d1d" "Q1D = tsel T_Q1D q1d" "VDIM = tsel T_VDIM vdim"
    and sdim: "sdim \<le> 3" "SDIM = (if P then sdim else 2)"
    and inside: "a1 < Q1D * VDIM * sdim * NE" "a2 < Q1D * Q1D * VDIM * SDIM * NE"
      "a3 < Q1D * Q1D * Q1D * VDIM * 3 * NE"
    and outside: "Q1D * VDIM * sdim * NE \<le> o1" "Q1D * Q1D * VDIM * SDIM * NE \<le> o2"
      "Q1D * Q1D * Q1D * VDIM * 3 * NE \<le> o3"
  shows "(out_at (Derivatives1D L P NE g_buf j_buf x1 y sdim VDIM D1D Q1D) a1 =
          out_at (Derivatives1D L P NE g_buf j_buf x1 y' sdim VDIM D1D Q1D) a1 \<and>
          out_at (Derivatives1D L P NE g_buf j_buf x1 y sdim VDIM D1D Q1D) a1 \<noteq> None \<and>
          out_at (Derivatives1D L P NE g_buf j_buf x1 y sdim VDIM D1D Q1D) o1 = Some (y o1)) \<and>
         (out_at (Derivatives2D L P T_VDIM T_D1D T_Q1D sm2 NE b_buf g_buf j_buf x2 y
                    sdim vdim d1d q1d) a2 =
          out_at (Derivatives2D L P T_VDIM T_D1D T_Q1D sm2' NE b_buf g_buf j_buf x2 y'
                    sdim vdim d1d q1d) a2 \<and>
          out_at (Derivatives2D L P T_VDIM T_D1D T_Q1D sm2 NE b_buf g_buf j_buf x2 y
                    sdim vdim d1d q1d) a2 \<noteq> None \<and>
          out_at (Derivatives2D L P T_VDIM T_D1D T_Q1D sm2 NE b_buf g_buf j_buf x2 y
                    sdim vdim d1d q1d) o2 = Some (y o2)) \<and>
         (Derivatives3D L P T_VDIM T_D1D T_Q1D MAX_D1D MAX_Q1D sm3 NE b_buf g_buf j_buf x3 y
            vdim d1d q1d a3 =
          Derivatives3D L P T_VDIM T_D1D T_Q1D MAX_D1D MAX_Q1D sm3' NE b_buf g_buf j_buf x3 y'
            vdim d1d q1d a3 \<and>
          Derivatives3D L P T_VDIM T_D1D T_Q1D MAX_D1D MAX_Q1D sm3 NE b_buf g_buf j_buf x3 y
            vdim d1d q1d o3 = y o3)"
proof (intro conjI)
  from inside(1) obtain q c d e where i: "q < Q1D" "c < VDIM" "d < sdim" "e < NE"
    and a: "a1 = yidx1D L Q1D VDIM sdim q c d e"
    by (rule yidx1D_onto)
  show "out_at (Derivatives1D L P NE g_buf j_buf x1 y sdim VDIM D1D Q1D) a1 =
        out_at (Derivatives1D L P NE g_buf j_buf x1 y' sdim VDIM D1D Q1D) a1"
    unfolding a by (simp add: Derivatives1D_out[OF sdim(1) i(4,2,1,3)])
  show "out_at (Derivatives1D L P NE g_buf j_buf x1 y sdim VDIM D1D Q1D) a1 \<noteq> None"
    unfolding a by (simp add: Derivatives1D_out[OF sdim(1) i(4,2,1,3)])
  show "out_at (Derivatives1D L P NE g_buf j_buf x1 y sdim VDIM D1D Q1D) o1 = Some (y o1)"
    using outside(1) by (rule Derivatives1D_out_frame[OF sdim(1)])
next
  have S: "SDIM \<le> 3" using sdim by simp
  from inside(2) obtain qx qy c d e where i: "qx < Q1D" "qy < Q1D" "c < VDIM" "d < SDIM" "e < NE"
    and a: "a2 = yidx2D L Q1D VDIM SDIM qx qy c d e"
    by (rule yidx2D_onto)
  show "out_at (Derivatives2D L P T_VDIM T_D1D T_Q1D sm2 NE b_buf g_buf j_buf x2 y
                      sdim vdim d1d q1d) a2 =
        out_at (Derivatives2D L P T_VDIM T_D1D T_Q1D sm2' NE b_buf g_buf j_buf x2 y'
                      sdim vdim d1d q1d) a2"
    unfolding a by (simp add: Derivatives2D_at[OF dims sdim(2) S i(5,3,1,2,4)])
  show "out_at (Derivatives2D L P T_VDIM T_D1D T_Q1D sm2 NE b_buf g_buf j_buf x2 y
                      sdim vdim d1d q1d) a2 \<noteq> None"
    unfolding a by (simp add: Derivatives2D_at[OF dims sdim(2) S i(5,3,1,2,4)])
  show "out_at (Derivatives2D L P T_VDIM T_D1D T_Q1D sm2 NE b_buf g_buf j_buf x2 y
                      sdim vdim d1d q1d) o2 = Some (y o2)"
    using outside(2) by (rule Derivatives2D_out_frame[OF dims(2,3) sdim(2) S])
next
  from inside(3) obtain qx qy qz c d e
    where i: "qx < Q1D" "qy < Q1D" "qz < Q1D" "c < VDIM" "d < 3" "e < NE"
    and a: "a3 = yidx3D L Q1D VDIM qx qy qz c d e"
    by (rule yidx3D_onto)
  show "Derivatives3D L P T_VDIM T_D1D T_Q1D MAX_D1D MAX_Q1D sm3 NE b_buf g_buf j_buf x3 y
          vdim d1d q1d a3 =
        Derivatives3D L P T_VDIM T_D1D T_Q1D MAX_D1D MAX_Q1D sm3' NE b_buf g_buf j_buf x3 y'
          vdim d1d q1d a3"
    unfolding a
    using val3D_det[OF i(1,2,3), of P "tsel T_D1D MAX_D1D" "tsel T_Q1D MAX_Q1D" D1D
        "Reshape2 b_buf Q1D D1D" "Reshape2 g_buf Q1D D1D" "Reshape6 j_buf Q1D Q1D Q1D 3 3 NE"
        "Reshape5 x3 D1D D1D D1D VDIM NE" "sm3 e" c e "sm3' e"]
    by (simp add: Derivatives3D_at[OF dims refl refl i(6,4,1,2,3,5)])
  show "Derivatives3D L P T_VDIM T_D1D T_Q1D MAX_D1D MAX_Q1D sm3 NE b_buf g_buf j_buf x3 y
          vdim d1d q1d o3 = y o3"
    using outside(3) by (rule Derivatives3D_out_frame[OF dims(2,3)])
qed

text \<open>
  One element with two quadrature points per dimension and two directions (three in
  3D): the last offset inside each declared shape and the first one beyond it.
\<close>

theorem output_fully_overwritten_witness:
  "(out_at (Derivatives1D byNODES False 1 (buf_of [-1, -1, 1, 1]) (buf_of []) (buf_of [0, 1])
             (buf_of []) 2 1 2 2) 3 =
    out_at (Derivatives1D byNODES False 1 (buf_of [-1, -1, 1, 1]) (buf_of []) (buf_of [0, 1])
             (buf_of [9, 9, 9, 9]) 2 1 2 2) 3 \<and>
    out_at (Derivatives1D byNODES False 1 (buf_of [-1, -1, 1, 1]) (buf_of []) (buf_of [0, 1])
             (buf_of []) 2 1 2 2) 3 \<noteq> None \<and>
    out_at (Derivatives1D byNODES False 1 (buf_of [-1, -1, 1, 1]) (buf_of []) (buf_of [0, 1])
             (buf_of []) 2 1 2 2) 4 = Some (buf_of [] 4)) \<and>
   (out_at (Derivatives2D byNODES False 0 0 0 scratch2D 1 (buf_of [1, 1, 0, 0]) (buf_of [-1, -1, 1, 1])
             (buf_of []) (buf_of [0, 2, 3, 5]) (buf_of []) 2 1 2 2) 7 =
    out_at (Derivatives2D byNODES False 0 0 0 (\<lambda>e. smem2D_of (buf_of [7])) 1 (buf_of [1, 1, 0, 0])
             (buf_of [-1, -1, 1, 1]) (buf_of []) (buf_of [0, 2, 3, 5]) (buf_of [9, 9, 9, 9]) 2 1 2 2) 7 \<and>
    out_at (Derivatives2D byNODES False 0 0 0 scratch2D 1 (buf_of [1, 1, 0, 0]) (buf_of [-1, -1, 1, 1])
             (buf_of []) (buf_of [0, 2, 3, 5]) (buf_of []) 2 1 2 2) 7 \<noteq> None \<and>
    out_at (Derivatives2D byNODES False 0 0 0 scratch2D 1 (buf_of [1, 1, 0, 0]) (buf_of [-1, -1, 1, 1])
             (buf_of []) (buf_of [0, 2, 3, 5]) (buf_of []) 2 1 2 2) 8 = Some (buf_of [] 8)) \<and>
   (Derivatives3D byNODES False 0 0 0 2 2 scratch3D 1 (buf_of [1, 1, 0, 0]) (buf_of [-1, -1, 1, 1])
      (buf_of []) (buf_of [0, 1]) (buf_of []) 1 2 2 23 =
    Derivatives3D byNODES False 0 0 0 2 2 (\<lambda>e. smem3D_of (buf_of [7])) 1 (buf_of [1, 1, 0, 0])
      (buf_of [-1, -1, 1, 1]) (buf_of []) (buf_of [0, 1]) (buf_of [9, 9, 9, 9]) 1 2 2 23 \<and>
    Derivatives3D byNODES False 0 0 0 2 2 scratch3D 1 (buf_of [1, 1, 0, 0]) (buf_of [-1, -1, 1, 1])
      (buf_of []) (buf_of [0, 1]) (buf_of []) 1 2 2 24 = buf_of [] 24)"
  by (rule output_fully_overwritten[where D1D = 2 and Q1D = 2 and VDIM = 1 and SDIM = 2])
     (simp_all add: tsel_def)

subsection \<open>C9\<close>

text \<open>
  Claim C9. With the physical transform off, \<open>Derivatives2D\<close> ignores \<open>sdim\<close>: its result
  for any \<open>sdim\<close> is its result for \<open>sdim = 2\<close>; the output is addressed with 2 derivative
  directions per quadrature point, both are stored, and nothing is written beyond
  \<open>Q1D * Q1D * VDIM * 2 * NE\<close>.
\<close>

theorem sdim_ignored_without_phys:
  assumes dims: "D1D = tsel T_D1D d1d" "Q1D = tsel T_Q1D q1d" "VDIM = tsel T_VDIM vdim"
    and bounds: "e < NE" "c < VDIM" "qx < Q1D" "qy < Q1D" "d < 2"
    and outside: "Q1D * Q1D * VDIM * 2 * NE \<le> a"
  shows "Derivatives2D L False T_VDIM T_D1D T_Q1D sm NE b_buf g_buf j_buf x_buf y_buf
           sdim vdim d1d q1d =
         Derivatives2D L False T_VDIM T_D1D T_Q1D sm NE b_buf g_buf j_buf x_buf y_buf
           2 vdim d1d q1d \<and>
         out_at (Derivatives2D L False T_VDIM T_D1D T_Q1D sm NE b_buf g_buf j_buf x_buf y_buf
                   sdim vdim d1d q1d) (yidx2D L Q1D VDIM 2 qx qy c d e) =
           Some (direct2D (\<lambda>d q. Reshape2 b_buf Q1D D1D q d) (\<lambda>d q. Reshape2 g_buf Q1D D1D q d)
                   (\<lambda>dx dy. Reshape4 x_buf D1D D1D VDIM NE dx dy c e) D1D qx qy d) \<and>
         out_at (Derivatives2D L False T_VDIM T_D1D T_Q1D sm NE b_buf g_buf j_buf x_buf y_buf
                   sdim vdim d1d q1d) a = Some (y_buf a)"
proof (intro conjI)
  show "Derivatives2D L False T_VDIM T_D1D T_Q1D sm NE b_buf g_buf j_buf x_buf y_buf
           sdim vdim d1d q1d =
         Derivatives2D L False T_VDIM T_D1D T_Q1D sm NE b_buf g_buf j_buf x_buf y_buf
           2 vdim d1d q1d"
    by (simp add: Derivatives2D_def)
next
  show "out_at (Derivatives2D L False T_VDIM T_D1D T_Q1D sm NE b_buf g_buf j_buf x_buf y_buf
                   sdim vdim d1d q1d) (yidx2D L Q1D VDIM 2 qx qy c d e) =
           Some (direct2D (\<lambda>d q. Reshape2 b_buf Q1D D1D q d) (\<lambda>d q. Reshape2 g_buf Q1D D1D q d)
                   (\<lambda>dx dy. Reshape4 x_buf D1D D1D VDIM NE dx dy c e) D1D qx qy d)"
    using Derivatives2D_at[OF dims _ _ bounds, of False sdim L sm b_buf g_buf j_buf x_buf y_buf]
      bounds(5)
    by (simp add: du2D_def grad_ref2D_direct)
next
  show "out_at (Derivatives2D L False T_VDIM T_D1D T_Q1D sm NE b_buf g_buf j_buf x_buf y_buf
                      sdim vdim d1d q1d) a = Some (y_buf a)"
    using outside dims(2,3) by (intro Derivatives2D_out_frame[where SDIM = 2]) simp_all
qed

text \<open>
  The bilinear element with \<open>sdim = 3\<close> passed: direction 1 of \<open>f = 2x + 3y\<close> is 3, and
  offset 2, the first beyond the two directions, keeps its value 9.
\<close>

theorem sdim_ignored_without_phys_witness:
  "Derivatives2D byNODES False 0 0 0 scratch2D 1 (buf_of [1/2, 1/2]) (buf_of [-1, 1]) (buf_of [])
     (buf_of [0, 2, 3, 5]) (buf_of [9, 9, 9]) 3 1 2 1 =
   Derivatives2D byNODES False 0 0 0 scratch2D 1 (buf_of [1/2, 1/2]) (buf_of [-1, 1]) (buf_of [])
     (buf_of [0, 2, 3, 5]) (buf_of [9, 9, 9]) 2 1 2 1 \<and>
   out_at (Derivatives2D byNODES False 0 0 0 scratch2D 1 (buf_of [1/2, 1/2]) (buf_of [-1, 1])
             (buf_of []) (buf_of [0, 2, 3, 5]) (buf_of [9, 9, 9]) 3 1 2 1)
     (yidx2D byNODES 1 1 2 0 0 0 1 0) = Some 3 \<and>
   out_at (Derivatives2D byNODES False 0 0 0 scratch2D 1 (buf_of [1/2, 1/2]) (buf_of [-1, 1])
             (buf_of []) (buf_of [0, 2, 3, 5]) (buf_of [9, 9, 9]) 3 1 2 1) 2 = Some 9"
proof -
  have *: "Derivatives2D byNODES False 0 0 0 scratch2D 1 (buf_of [1/2, 1/2]) (buf_of [-1, 1])
       (buf_of []) (buf_of [0, 2, 3, 5]) (buf_of [9, 9, 9]) 3 1 2 1 =
     Derivatives2D byNODES False 0 0 0 scratch2D 1 (buf_of [1/2, 1/2]) (buf_of [-1, 1]) (buf_of [])
       (buf_of [0, 2, 3, 5]) (buf_of [9, 9, 9]) 2 1 2 1 \<and>
     out_at (Derivatives2D byNODES False 0 0 0 scratch2D 1 (buf_of [1/2, 1/2]) (buf_of [-1, 1])
             (buf_of []) (buf_of [0, 2, 3, 5]) (buf_of [9, 9, 9]) 3 1 2 1)
       (yidx2D byNODES 1 1 2 0 0 0 1 0) =
       Some (direct2D (\<lambda>d q. Reshape2 (buf_of [1/2, 1/2]) 1 2 q d)
               (\<lambda>d q. Reshape2 (buf_of [-1, 1]) 1 2 q d)
               (\<lambda>dx dy. Reshape4 (buf_of [0, 2, 3, 5]) 2 2 1 1 dx dy 0 0) 2 0 0 1) \<and>
     out_at (Derivatives2D byNODES False 0 0 0 scratch2D 1 (buf_of [1/2, 1/2]) (buf_of [-1, 1])
             (buf_of []) (buf_of [0, 2, 3, 5]) (buf_of [9, 9, 9]) 3 1 2 1) 2 =
       Some (buf_of [9, 9, 9] 2)"
    by (rule sdim_ignored_without_phys) (simp_all add: tsel_def)
  have v: "direct2D (\<lambda>d q. Reshape2 (buf_of [1/2, 1/2]) 1 2 q d)
               (\<lambda>d q. Reshape2 (buf_of [-1, 1]) 1 2 q d)
               (\<lambda>dx dy. Reshape4 (buf_of [0, 2, 3, 5]) 2 2 1 1 dx dy 0 0) 2 0 0 1 = 3"
    by (simp add: direct2D_def Reshape2_def Reshape4_def buf_of_def idx2_def idx4_def lessThan_2)
  have w: "buf_of [9, 9, 9] 2 = 9" by (simp add: buf_of_def)
  show ?thesis using * unfolding v w by (rule iffD1[OF refl])
qed

subsection \<open>C10\<close>

text \<open>
  Claim C10. In \<open>Derivatives1D\<close> with the physical transform off and \<open>sdim > 1\<close>, the
  entries of the derivative directions 1 to \<open>sdim - 1\<close> are written and are 0, for every
  element, component and quadrature point.
\<close>

theorem Derivatives1D_higher_directions_zero:
  assumes "e < NE" "c < vdim" "q < q1d" "1 \<le> d" "d < sdim" "sdim \<le> 3"
  shows "out_at (Derivatives1D L False NE g_buf j_buf x_buf y_buf sdim vdim d1d q1d)
           (yidx1D L q1d vdim sdim q c d e) = Some 0"
  using Derivatives1D_at[of sdim e NE c vdim q q1d d L False g_buf j_buf x_buf y_buf d1d] assms
  by (intro out_atI) (simp add: du1D_ref_nth)

text \<open>
  Three directions, by-vdim layout, an output buffer that held 7 everywhere.
\<close>

theorem Derivatives1D_higher_directions_zero_witness:
  "out_at (Derivatives1D byVDIM False 1 (buf_of [-1, -1, 1, 1]) (buf_of []) (buf_of [3, 5])
             (buf_of [7, 7, 7, 7, 7, 7]) 3 1 2 2) (yidx1D byVDIM 2 1 3 1 0 2 0) = Some 0"
  by (rule Derivatives1D_higher_directions_zero) simp_all

end
